(* ===== verification/Prelude.thy ===== *)
theory Prelude
  imports Main "HOL-Library.Product_Lexorder"
begin

text \<open>
  Shared vocabulary of the smart-control development: the named fact collections that
  the component theories fill, the Go-style error propagation combinator used by the
  parsers (an early \<open>return nil, err\<close> is an \<open>Inl\<close> that short-circuits), and
  generic lemmas on strictly sorted lists, the shape of every cron value set.
\<close>

named_theorems go_simps "evaluation rules of the Go standard library models"
named_theorems cron_simps "unfolding rules of the cron model, used to evaluate concrete schedules"

type_synonym go_int = int

subsection \<open>Error propagation\<close>

text \<open>
  Go code checks \<open>if err != nil { return nil, err }\<close> after each fallible call. In the
  model a fallible call returns \<open>'e + 'a\<close>; \<open>sbind m f\<close> runs \<open>f\<close> on the value of
  \<open>m\<close> and passes an error on unchanged.
\<close>

definition sbind :: "'e + 'a \<Rightarrow> ('a \<Rightarrow> 'e + 'b) \<Rightarrow> 'e + 'b" where
  "sbind m f = (case m of Inl e \<Rightarrow> Inl e | Inr v \<Rightarrow> f v)"

lemma sbind_Inl [simp]: "sbind (Inl e) f = Inl e"
  by (simp add: sbind_def)

lemma sbind_Inr [simp]: "sbind (Inr v) f = f v"
  by (simp add: sbind_def)

lemma sbind_eq_Inr [simp]: "(sbind m f = Inr r) = (\<exists>v. m = Inr v \<and> f v = Inr r)"
  by (cases m) auto

lemma sbind_eq_Inl: "(sbind m f = Inl e) = (m = Inl e \<or> (\<exists>v. m = Inr v \<and> f v = Inl e))"
  by (cases m) auto

subsection \<open>Strictly sorted lists\<close>

text \<open>
  A cron value set is a Go slice that is strictly increasing. The lemmas below are the
  facts about such lists that the binary search and the schedule evaluator share.
\<close>

abbreviation strict_sorted :: "int list \<Rightarrow> bool" where
  "strict_sorted xs \<equiv> sorted_wrt (<) xs"

lemma strict_sorted_nth_less [intro]:
  "strict_sorted xs \<Longrightarrow> i < j \<Longrightarrow> j < length xs \<Longrightarrow> xs ! i < xs ! j"
  by (simp add: sorted_wrt_iff_nth_less)

lemma strict_sorted_nth_le:
  "strict_sorted xs \<Longrightarrow> i \<le> j \<Longrightarrow> j < length xs \<Longrightarrow> xs ! i \<le> xs ! j"
  by (cases "i = j") (auto simp: sorted_wrt_iff_nth_less less_imp_le)

lemma strict_sorted_hd_le:
  "strict_sorted xs \<Longrightarrow> v \<in> set xs \<Longrightarrow> xs ! 0 \<le> v"
  by (metis in_set_conv_nth le0 strict_sorted_nth_le)

lemma strict_sorted_sorted [simp]: "strict_sorted xs \<Longrightarrow> sorted xs"
  by (induction xs) auto

lemma strict_sorted_sort_distinct:
  "distinct xs \<Longrightarrow> strict_sorted (sort xs)"
  by (simp add: strict_sorted_iff)

end
