(* ===== verification/Go_Lib.thy ===== *)
theory Go_Lib
  imports Prelude
begin

text \<open>
  Models of the Go standard library functions that the cron package calls. They are not
  code of the repository: each is written from the documented behaviour of the Go
  library (strings, strconv, sort). Go strings are byte sequences, as Isabelle's
  \<open>string\<close> (a list of 8-bit \<open>char\<close>s) is, so byte-level functions carry over
  unchanged.
  \<^item> \<open>go_split\<close> is \<open>strings.Split\<close> with a one-byte separator, \<open>go_join\<close> is
    \<open>strings.Join\<close>; they are mutually inverse.
  \<^item> \<open>go_atoi\<close> is \<open>strconv.Atoi\<close> on a 64-bit platform: an optional sign, at least
    one decimal digit, nothing else, and a value in the range of \<open>int64\<close>.
  \<^item> \<open>go_trim_space\<close> is \<open>strings.TrimSpace\<close>: it removes the UTF-8 encodings of
    the Unicode white-space runes at both ends.
  \<^item> \<open>search_ints\<close> is \<open>sort.SearchInts\<close>, the binary search of \<open>sort.Search\<close>;
    on a sorted slice it equals the linear lower bound \<open>lower_bound\<close>.
\<close>

subsection \<open>strings.Split and strings.Join\<close>

fun split_acc :: "char \<Rightarrow> string \<Rightarrow> string \<Rightarrow> string list" where
  "split_acc sep acc [] = [rev acc]"
| "split_acc sep acc (c # s) =
     (if c = sep then rev acc # split_acc sep [] s else split_acc sep (c # acc) s)"

definition go_split :: "string \<Rightarrow> char \<Rightarrow> string list" where
  "go_split s sep = split_acc sep [] s"

fun go_join :: "string list \<Rightarrow> string \<Rightarrow> string" where
  "go_join [] sep = []"
| "go_join [p] sep = p"
| "go_join (p # ps) sep = p @ sep @ go_join ps sep"

definition go_contains :: "string \<Rightarrow> char \<Rightarrow> bool" where
  "go_contains s c = (c \<in> set s)"

declare go_contains_def [go_simps] go_split_def [go_simps]

lemma split_acc_not_Nil [simp]: "split_acc sep acc s \<noteq> []"
  by (induction sep acc s rule: split_acc.induct) auto

lemma go_join_Cons:
  "ys \<noteq> [] \<Longrightarrow> go_join (x # ys) sep = x @ sep @ go_join ys sep"
  by (cases ys) auto

lemma join_split_acc: "go_join (split_acc sep acc s) [sep] = rev acc @ s"
  by (induction sep acc s rule: split_acc.induct)
    (auto simp: go_join_Cons)

lemma split_acc_parts: "part \<in> set (split_acc sep acc s) \<Longrightarrow> sep \<notin> set acc \<Longrightarrow> sep \<notin> set part"
  by (induction sep acc s rule: split_acc.induct) (auto split: if_splits)

lemma length_split_acc: "length (split_acc sep acc s) = count_list s sep + 1"
  by (induction sep acc s rule: split_acc.induct) auto

lemma split_acc_join:
  "parts \<noteq> [] \<Longrightarrow> \<forall>p \<in> set parts. sep \<notin> set p \<Longrightarrow> sep \<notin> set acc \<Longrightarrow>
   split_acc sep acc (go_join parts [sep]) = (rev acc @ hd parts) # tl parts"
proof (induction parts arbitrary: acc)
  case Nil
  then show ?case by simp
next
  case (Cons p ps)
  have pre: "split_acc sep acc (p @ s) = split_acc sep (rev p @ acc) s" if "sep \<notin> set p" for s
    using that by (induction p arbitrary: acc) auto
  show ?case
  proof (cases ps)
    case Nil
    with Cons.prems pre [of "[]"] show ?thesis by simp
  next
    case (Cons q qs)
    then have "go_join (p # ps) [sep] = p @ sep # go_join ps [sep]"
      by simp
    with Cons.prems pre [of "sep # go_join ps [sep]"] Cons.IH [of "[]"] \<open>ps = q # qs\<close>
    show ?thesis by simp
  qed
qed

text \<open>Splitting and joining are inverse: the round trips of strings.Split.\<close>

lemma join_split: "go_join (go_split s sep) [sep] = s"
  by (simp add: go_split_def join_split_acc)

lemma split_join:
  "parts \<noteq> [] \<Longrightarrow> \<forall>p \<in> set parts. sep \<notin> set p \<Longrightarrow> go_split (go_join parts [sep]) sep = parts"
  by (simp add: go_split_def split_acc_join)

lemma split_parts_no_sep: "part \<in> set (go_split s sep) \<Longrightarrow> sep \<notin> set part"
  by (simp add: go_split_def split_acc_parts)

lemma length_split [simp]: "length (go_split s sep) = count_list s sep + 1"
  by (simp add: go_split_def length_split_acc)

lemma split_no_sep [simp]: "sep \<notin> set s \<Longrightarrow> go_split s sep = [s]"
  using split_join [of "[s]" sep] by simp

subsection \<open>strconv.Atoi\<close>

definition is_digit :: "char \<Rightarrow> bool" where
  "is_digit ch = ((48::nat) \<le> of_char ch \<and> of_char ch \<le> (57::nat))"

definition digit_value :: "char \<Rightarrow> int" where
  "digit_value ch = int (of_char ch) - 48"

fun dec_digits :: "int \<Rightarrow> string \<Rightarrow> int option" where
  "dec_digits n [] = Some n"
| "dec_digits n (ch # s) = (if is_digit ch then dec_digits (10 * n + digit_value ch) s else None)"

definition int64_min :: int where "int64_min = - (2 ^ 63)"
definition int64_max :: int where "int64_max = 2 ^ 63 - 1"

definition go_atoi :: "string \<Rightarrow> int option" where
  "go_atoi s =
     (let (neg, ds) = (case s of
                         ch # r \<Rightarrow> if ch = CHR ''-'' then (True, r)
                                  else if ch = CHR ''+'' then (False, r) else (False, s)
                       | [] \<Rightarrow> (False, []))
      in if ds = [] then None
         else case dec_digits 0 ds of
                None \<Rightarrow> None
              | Some n \<Rightarrow> (let v = (if neg then - n else n)
                           in if int64_min \<le> v \<and> v \<le> int64_max then Some v else None))"

declare go_atoi_def [go_simps] is_digit_def [go_simps] digit_value_def [go_simps]
  int64_min_def [go_simps] int64_max_def [go_simps]

text \<open>Decimal printing (\<open>strconv.Itoa\<close> on a non-negative value), for round trips.\<close>

fun dec_string :: "nat \<Rightarrow> string" where
  "dec_string n =
     (if n < 10 then [char_of (48 + n)] else dec_string (n div 10) @ [char_of (48 + n mod 10)])"

declare dec_string.simps [simp del]

lemma dec_digits_append:
  "dec_digits n (xs @ ys) = (case dec_digits n xs of None \<Rightarrow> None | Some m \<Rightarrow> dec_digits m ys)"
  by (induction n xs rule: dec_digits.induct) auto

lemma digit_char: "d < 10 \<Longrightarrow> is_digit (char_of (48 + d)) \<and> digit_value (char_of (48 + d)) = int d"
  by (auto simp: is_digit_def digit_value_def of_char_of)

lemma dec_string_not_Nil: "dec_string n \<noteq> []"
  by (subst dec_string.simps) simp

lemma dec_digits_dec_string:
  "dec_digits acc (dec_string n) = Some (acc * 10 ^ length (dec_string n) + int n)"
proof (induction n arbitrary: acc rule: dec_string.induct)
  case (1 n)
  show ?case
  proof (cases "n < 10")
    case True
    then show ?thesis using digit_char [of n] by (simp add: dec_string.simps [of n])
  next
    case False
    have d: "n mod 10 < 10" by simp
    have "int n = 10 * int (n div 10) + int (n mod 10)"
      by (metis mult_div_mod_eq of_nat_add of_nat_mult of_nat_numeral)
    with False "1.IH" [of acc] digit_char [OF d] show ?thesis
      by (simp add: dec_string.simps [of n] dec_digits_append algebra_simps)
  qed
qed

lemma dec_string_digits: "ch \<in> set (dec_string n) \<Longrightarrow> is_digit ch"
proof (induction n rule: dec_string.induct)
  case (1 n)
  have d: "n mod 10 < 10" by simp
  show ?case
    using "1" digit_char [OF d] digit_char [of n]
    by (cases "n < 10") (auto simp: dec_string.simps [of n])
qed

lemma dec_string_no_sign: "CHR ''-'' \<notin> set (dec_string n) \<and> CHR ''+'' \<notin> set (dec_string n)"
proof -
  have "\<not> is_digit CHR ''-''" and "\<not> is_digit CHR ''+''"
    by (simp_all add: is_digit_def)
  then show ?thesis using dec_string_digits by blast
qed

text \<open>Atoi reads back what Itoa prints, for every value in the range of int64.\<close>

lemma atoi_dec_string: "int n \<le> int64_max \<Longrightarrow> go_atoi (dec_string n) = Some (int n)"
proof -
  assume le: "int n \<le> int64_max"
  obtain ch r where cr: "dec_string n = ch # r"
    using dec_string_not_Nil by (cases "dec_string n") auto
  then have "ch \<noteq> CHR ''-'' \<and> ch \<noteq> CHR ''+''"
    using dec_string_no_sign [of n] by auto
  with cr le dec_digits_dec_string [of 0 n] show ?thesis
    by (simp add: go_atoi_def int64_min_def)
qed

lemma go_atoi_range: "go_atoi s = Some v \<Longrightarrow> int64_min \<le> v \<and> v \<le> int64_max"
  by (auto simp: go_atoi_def Let_def split: list.splits if_splits option.splits)

subsection \<open>strings.TrimSpace\<close>

text \<open>
  \<open>unicode.IsSpace\<close> holds for \<open>'\t'\<close>, \<open>'\n'\<close>, \<open>'\v'\<close>, \<open>'\f'\<close>, \<open>'\r'\<close>,
  \<open>' '\<close>, U+0085, U+00A0 and the runes of the White_Space property: U+1680,
  U+2000 to U+200A, U+2028, U+2029, U+202F, U+205F, U+3000. The list holds their
  UTF-8 encodings. Every encoding starts with a byte that is no continuation byte, so
  a prefix (a suffix) of the string equal to one of them is exactly a rune that
  \<open>utf8.DecodeRuneInString\<close> (\<open>DecodeLastRuneInString\<close>) reads as a space.
\<close>

definition unicode_space_utf8 :: "string list" where
  "unicode_space_utf8 =
     [[CHR 0x09], [CHR 0x0A], [CHR 0x0B], [CHR 0x0C], [CHR 0x0D], [CHR 0x20],
      [CHR 0xC2, CHR 0x85], [CHR 0xC2, CHR 0xA0], [CHR 0xE1, CHR 0x9A, CHR 0x80]]
     @ map (\<lambda>k. [CHR 0xE2, CHR 0x80, char_of (k::nat)]) [128..<139]
     @ [[CHR 0xE2, CHR 0x80, CHR 0xA8], [CHR 0xE2, CHR 0x80, CHR 0xA9],
        [CHR 0xE2, CHR 0x80, CHR 0xAF], [CHR 0xE2, CHR 0x81, CHR 0x9F],
        [CHR 0xE3, CHR 0x80, CHR 0x80]]"

lemma unicode_space_utf8_not_Nil: "e \<in> set unicode_space_utf8 \<Longrightarrow> e \<noteq> []"
  by (auto simp: unicode_space_utf8_def)

definition lead_space_len :: "string \<Rightarrow> nat" where
  "lead_space_len s =
     (case find (\<lambda>e. take (length e) s = e) unicode_space_utf8 of None \<Rightarrow> 0 | Some e \<Rightarrow> length e)"

definition trail_space_len :: "string \<Rightarrow> nat" where
  "trail_space_len s =
     (case find (\<lambda>e. length e \<le> length s \<and> drop (length s - length e) s = e) unicode_space_utf8 of
        None \<Rightarrow> 0
      | Some e \<Rightarrow> length e)"

lemma lead_space_len_le: "lead_space_len s \<le> length s"
proof (cases "find (\<lambda>e. take (length e) s = e) unicode_space_utf8")
  case (Some e)
  then have "take (length e) s = e" by (auto simp: find_Some_iff)
  then have "min (length s) (length e) = length e" by (metis length_take)
  then have "length e \<le> length s" by (simp add: min_def split: if_splits)
  with Some show ?thesis by (simp add: lead_space_len_def)
qed (simp add: lead_space_len_def)

lemma trail_space_len_le: "trail_space_len s \<le> length s"
proof (cases "find (\<lambda>e. length e \<le> length s \<and> drop (length s - length e) s = e) unicode_space_utf8")
  case (Some e)
  then have "length e \<le> length s" by (auto simp: find_Some_iff)
  with Some show ?thesis by (simp add: trail_space_len_def)
qed (simp add: trail_space_len_def)

function trim_left_space :: "string \<Rightarrow> string" where
  "trim_left_space s =
     (let n = lead_space_len s in if n = 0 then s else trim_left_space (drop n s))"
  by pat_completeness auto
termination
proof (relation "measure length")
  fix s n
  assume "n = lead_space_len s" and "\<not> n = 0"
  with lead_space_len_le [of s] show "(drop n s, s) \<in> measure length" by simp
qed simp

function trim_right_space :: "string \<Rightarrow> string" where
  "trim_right_space s =
     (let n = trail_space_len s in if n = 0 then s else trim_right_space (take (length s - n) s))"
  by pat_completeness auto
termination
proof (relation "measure length")
  fix s n
  assume "n = trail_space_len s" and "\<not> n = 0"
  with trail_space_len_le [of s] show "(take (length s - n) s, s) \<in> measure length" by simp
qed simp

declare trim_left_space.simps [simp del] trim_right_space.simps [simp del]

definition go_trim_space :: "string \<Rightarrow> string" where
  "go_trim_space s = trim_right_space (trim_left_space s)"

declare go_trim_space_def [go_simps]

lemma trim_left_space_suffix: "\<exists>p. s = p @ trim_left_space s"
proof (induction s rule: trim_left_space.induct)
  case (1 s)
  define n where "n = lead_space_len s"
  show ?case
  proof (cases "n = 0")
    case True
    then show ?thesis by (simp add: trim_left_space.simps [of s] n_def [symmetric])
  next
    case False
    with "1" n_def obtain p where p: "drop n s = p @ trim_left_space (drop n s)"
      by blast
    have "trim_left_space s = trim_left_space (drop n s)"
      using False by (simp add: trim_left_space.simps [of s] n_def [symmetric])
    then have "s = (take n s @ p) @ trim_left_space s"
      using p by (metis append.assoc append_take_drop_id)
    then show ?thesis by blast
  qed
qed

lemma go_trim_space_example: "go_trim_space ''  0 1 * * *\<newline>'' = ''0 1 * * *''"
  by (simp add: go_trim_space_def trim_left_space.simps trim_right_space.simps lead_space_len_def trail_space_len_def unicode_space_utf8_def)

subsection \<open>sort.SearchInts\<close>

text \<open>
  \<open>sort.Search(n, f)\<close> keeps \<open>f(i-1) = false\<close> and \<open>f(j) = true\<close> and halves
  \<open>[i, j)\<close> at \<open>h = int(uint(i+j) >> 1)\<close>; the indices stay below the length of the
  slice, so \<open>nat\<close> arithmetic is exact here.
\<close>

function search_loop :: "int list \<Rightarrow> int \<Rightarrow> nat \<Rightarrow> nat \<Rightarrow> nat" where
  "search_loop a x i j =
     (if i < j then
        (let h = (i + j) div 2 in
         if \<not> (x \<le> a ! h) then search_loop a x (h + 1) j else search_loop a x i h)
      else i)"
  by pat_completeness auto
termination
  by (relation "measure (\<lambda>(a, x, i, j). j - i)") auto

declare search_loop.simps [simp del]

definition search_ints :: "int list \<Rightarrow> int \<Rightarrow> nat" where
  "search_ints a x = search_loop a x 0 (length a)"

text \<open>The reference: the number of leading elements below \<open>x\<close>.\<close>

definition lower_bound :: "int list \<Rightarrow> int \<Rightarrow> nat" where
  "lower_bound a x = length (takeWhile (\<lambda>v. v < x) a)"

lemma lower_bound_eqI:
  assumes "i \<le> length a" and "\<forall>k < i. a ! k < x" and "i < length a \<Longrightarrow> x \<le> a ! i"
  shows "lower_bound a x = i"
  using assms
proof (induction a arbitrary: i)
  case Nil
  then show ?case by (simp add: lower_bound_def)
next
  case (Cons v a)
  show ?case
  proof (cases i)
    case 0
    with Cons.prems show ?thesis by (simp add: lower_bound_def)
  next
    case (Suc i')
    with Cons.prems have "v < x" by auto
    moreover have "lower_bound a x = i'"
      using Cons.prems Suc by (intro Cons.IH) auto
    ultimately show ?thesis using Suc by (simp add: lower_bound_def)
  qed
qed

lemma search_loop_lower_bound:
  "sorted a \<Longrightarrow> i \<le> j \<Longrightarrow> j \<le> length a \<Longrightarrow> \<forall>k < i. a ! k < x \<Longrightarrow>
   (j < length a \<longrightarrow> x \<le> a ! j) \<Longrightarrow> search_loop a x i j = lower_bound a x"
proof (induction a x i j rule: search_loop.induct)
  case (1 a x i j)
  show ?case
  proof (cases "i < j")
    case False
    then have "search_loop a x i j = i"
      by (simp add: search_loop.simps [of a x i j])
    moreover have "lower_bound a x = i"
      using False "1.prems" by (intro lower_bound_eqI) auto
    ultimately show ?thesis by simp
  next
    case True
    define h where "h = (i + j) div 2"
    have hij: "i \<le> h" "h < j" using True by (auto simp: h_def)
    show ?thesis
    proof (cases "x \<le> a ! h")
      case False
      have "\<forall>k < Suc h. a ! k < x"
      proof (intro allI impI)
        fix k assume "k < Suc h"
        then have "a ! k \<le> a ! h" using hij "1.prems"(1,3) by (auto simp: sorted_iff_nth_mono)
        with False show "a ! k < x" by simp
      qed
      with "1.IH"(1) [OF True h_def] False "1.prems" hij show ?thesis
        by (simp add: search_loop.simps [of a x i j] h_def [symmetric])
    next
      case True': True
      have "x \<le> a ! h" by (fact True')
      with "1.IH"(2) [OF True h_def] "1.prems" hij show ?thesis
        by (simp add: search_loop.simps [of a x i j] h_def [symmetric])
    qed
  qed
qed

text \<open>The binary search computes the lower bound on every sorted slice.\<close>

lemma search_ints_lower_bound: "sorted a \<Longrightarrow> search_ints a x = lower_bound a x"
  by (simp add: search_ints_def search_loop_lower_bound)

lemma lower_bound_le: "lower_bound a x \<le> length a"
  by (simp add: lower_bound_def length_takeWhile_le)

lemma lower_bound_below: "k < lower_bound a x \<Longrightarrow> a ! k < x"
  unfolding lower_bound_def by (metis nth_mem set_takeWhileD takeWhile_nth)

lemma lower_bound_at: "lower_bound a x < length a \<Longrightarrow> x \<le> a ! lower_bound a x"
  unfolding lower_bound_def by (metis nth_length_takeWhile not_less)

lemma lower_bound_least:
  "sorted a \<Longrightarrow> v \<in> set a \<Longrightarrow> x \<le> v \<Longrightarrow> lower_bound a x < length a \<and> a ! lower_bound a x \<le> v"
proof -
  assume s: "sorted a" and v: "v \<in> set a" and xv: "x \<le> v"
  then obtain k where k: "k < length a" "a ! k = v" by (auto simp: in_set_conv_nth)
  have "lower_bound a x \<le> k"
  proof (rule ccontr)
    assume "\<not> lower_bound a x \<le> k"
    then have "a ! k < x" by (simp add: lower_bound_below)
    with k xv show False by simp
  qed
  with k s show ?thesis by (auto simp: sorted_iff_nth_mono)
qed

lemmas lower_bound_facts = lower_bound_le lower_bound_below lower_bound_at lower_bound_least

subsection \<open>unicode.IsSpace and strconv.ParseInt\<close>

text \<open>
  Go's \<open>rune\<close> is a Unicode code point (\<open>int32\<close>). \<open>unicode.IsSpace\<close> holds of the
  Latin-1 spaces \<open>'\t', '\n', '\v', '\f', '\r', ' '\<close>, U+0085 and U+00A0, and of the
  runes with the Unicode White_Space property above Latin-1.
\<close>

type_synonym rune = int

definition is_space :: "rune \<Rightarrow> bool" where
  "is_space r \<longleftrightarrow>
     (9 \<le> r \<and> r \<le> 13) \<or> r = 32 \<or> r = 0x85 \<or> r = 0xA0 \<or> r = 0x1680 \<or>
     (0x2000 \<le> r \<and> r \<le> 0x200A) \<or> r = 0x2028 \<or> r = 0x2029 \<or> r = 0x202F \<or> r = 0x205F \<or>
     r = 0x3000"

text \<open>
  \<open>strconv.ParseInt(s, 10, 64)\<close> returns a value and an error flag: on a syntax error
  the value is 0, on a value out of the \<open>int64\<close> range it is the nearest bound.
\<close>

definition go_parse_int :: "string \<Rightarrow> int \<times> bool" where
  "go_parse_int s =
     (let (neg, ds) = (case s of
                         ch # r \<Rightarrow> if ch = CHR ''-'' then (True, r)
                                  else if ch = CHR ''+'' then (False, r) else (False, s)
                       | [] \<Rightarrow> (False, []))
      in if ds = [] then (0, True)
         else case dec_digits 0 ds of
                None \<Rightarrow> (0, True)
              | Some n \<Rightarrow> (let v = (if neg then - n else n)
                           in if v < int64_min then (int64_min, True)
                              else if int64_max < v then (int64_max, True) else (v, False)))"

lemma go_parse_int_atoi: "go_parse_int s = (v, False) \<longleftrightarrow> go_atoi s = Some v"
  by (auto simp: go_parse_int_def go_atoi_def Let_def split: list.splits if_splits option.splits)

lemma go_parse_int_error: "go_atoi s = None \<Longrightarrow> snd (go_parse_int s)"
  by (auto simp: go_parse_int_def go_atoi_def Let_def split: list.splits if_splits option.splits)

subsection \<open>Index expressions\<close>

text \<open>
  An index expression \<open>a[i]\<close> on a slice is bounds-checked: out of range it raises a
  run-time panic, which ends the goroutine and, unrecovered, the program.
\<close>

datatype go_panic = IndexOutOfRange

definition go_index :: "'a list \<Rightarrow> nat \<Rightarrow> go_panic + 'a" where
  "go_index xs i = (if i < length xs then Inr (xs ! i) else Inl IndexOutOfRange)"

lemma go_index_Cons_0 [simp]: "go_index (x # xs) 0 = Inr x"
  by (simp add: go_index_def)

lemma go_index_Nil [simp]: "go_index [] i = Inl IndexOutOfRange"
  by (simp add: go_index_def)

subsection \<open>strings.Cut, strings.Fields, strings.Trim and strings.HasPrefix\<close>

text \<open>
  \<open>strings.Cut(s, sep)\<close> with a one-byte separator, of which only the part before the
  separator is used; \<open>strings.Trim(s, cutset)\<close>; \<open>strings.HasPrefix\<close>; and
  \<open>strings.Fields\<close>, the maximal runs of non-space runes. The model of \<open>Fields\<close>
  splits at the ASCII white-space bytes; it agrees with Go's on text whose non-ASCII
  bytes encode no white-space rune (U+0085, U+00A0, U+1680, U+2000-U+200A, ...), which
  is the case of the command outputs it is applied to here.
\<close>

definition go_cut_before :: "string \<Rightarrow> char \<Rightarrow> string" where
  "go_cut_before s sep = takeWhile (\<lambda>c. c \<noteq> sep) s"

definition go_trim_chars :: "string \<Rightarrow> char set \<Rightarrow> string" where
  "go_trim_chars s cutset = rev (dropWhile (\<lambda>c. c \<in> cutset) (rev (dropWhile (\<lambda>c. c \<in> cutset) s)))"

definition go_has_prefix :: "string \<Rightarrow> string \<Rightarrow> bool" where
  "go_has_prefix s p \<longleftrightarrow> take (length p) s = p"

definition ascii_space :: "char \<Rightarrow> bool" where
  "ascii_space c \<longleftrightarrow> ((9::nat) \<le> of_char c \<and> of_char c \<le> (13::nat)) \<or> c = CHR '' ''"

fun fields_acc :: "string \<Rightarrow> string \<Rightarrow> string list" where
  "fields_acc cur [] = (if cur = [] then [] else [rev cur])"
| "fields_acc cur (c # s) =
     (if ascii_space c then (if cur = [] then fields_acc [] s else rev cur # fields_acc [] s)
      else fields_acc (c # cur) s)"

definition go_fields :: "string \<Rightarrow> string list" where
  "go_fields s = fields_acc [] s"

lemma fields_acc_word:
  "\<forall>c\<in>set w. \<not> ascii_space c \<Longrightarrow> fields_acc cur (w @ s) = fields_acc (rev w @ cur) s"
  by (induction w arbitrary: cur) auto

lemma go_fields_Cons_word:
  "w \<noteq> [] \<Longrightarrow> \<forall>c\<in>set w. \<not> ascii_space c \<Longrightarrow> ascii_space sp \<Longrightarrow>
   go_fields (w @ sp # s) = w # go_fields s"
  by (simp add: go_fields_def fields_acc_word)

lemma go_fields_word:
  "w \<noteq> [] \<Longrightarrow> \<forall>c\<in>set w. \<not> ascii_space c \<Longrightarrow> go_fields w = [w]"
  using fields_acc_word [of w "[]" "[]"] by (simp add: go_fields_def)

lemma go_fields_spaces:
  "\<forall>c\<in>set s. ascii_space c \<Longrightarrow> fields_acc [] s = []"
  by (induction s) auto

text \<open>Visible ASCII characters (not the space) are never part of white space.\<close>

definition visible_ascii :: "char \<Rightarrow> bool" where
  "visible_ascii c \<longleftrightarrow> (33::nat) \<le> of_char c \<and> of_char c \<le> (126::nat)"

lemma visible_not_ascii_space: "visible_ascii c \<Longrightarrow> \<not> ascii_space c"
  by (auto simp: visible_ascii_def ascii_space_def)

lemma unicode_space_ends:
  "e \<in> set unicode_space_utf8 \<Longrightarrow> \<not> visible_ascii (hd e) \<and> \<not> visible_ascii (last e)"
proof -
  assume e: "e \<in> set unicode_space_utf8"
  have m: "k \<in> {128..<139} \<Longrightarrow> \<not> visible_ascii (char_of k)" for k :: nat
    by (simp add: visible_ascii_def)
  show ?thesis using e m by (auto simp: unicode_space_utf8_def visible_ascii_def)
qed

lemma lead_space_len_visible: "s \<noteq> [] \<Longrightarrow> visible_ascii (hd s) \<Longrightarrow> lead_space_len s = 0"
proof (cases "find (\<lambda>e. take (length e) s = e) unicode_space_utf8")
  case (Some e)
  assume s: "s \<noteq> []" "visible_ascii (hd s)"
  have e: "e \<in> set unicode_space_utf8" "take (length e) s = e" using Some by (auto simp: find_Some_iff)
  have ne: "e \<noteq> []" using unicode_space_utf8_not_Nil [OF e(1)] .
  have "hd (take (length e) s) = hd s" using s(1) ne by (simp add: hd_take)
  then have "hd e = hd s" using e(2) by simp
  then show ?thesis using unicode_space_ends [OF e(1)] s(2) by simp
qed (simp add: lead_space_len_def)

lemma trail_space_len_visible: "s \<noteq> [] \<Longrightarrow> visible_ascii (last s) \<Longrightarrow> trail_space_len s = 0"
proof (cases "find (\<lambda>e. length e \<le> length s \<and> drop (length s - length e) s = e) unicode_space_utf8")
  case (Some e)
  assume s: "s \<noteq> []" "visible_ascii (last s)"
  have e: "e \<in> set unicode_space_utf8" "drop (length s - length e) s = e" "length e \<le> length s"
    using Some by (auto simp: find_Some_iff)
  have ne: "e \<noteq> []" using unicode_space_utf8_not_Nil [OF e(1)] .
  have "last (drop (length s - length e) s) = last s" using ne e(3) s(1)
    by (intro last_drop) auto
  then have "last e = last s" using e(2) by simp
  then show ?thesis using unicode_space_ends [OF e(1)] s(2) by simp
qed (simp add: trail_space_len_def)
lemma go_trim_space_visible:
  "s \<noteq> [] \<Longrightarrow> visible_ascii (hd s) \<Longrightarrow> visible_ascii (last s) \<Longrightarrow> go_trim_space s = s"
  by (simp add: go_trim_space_def trim_left_space.simps [of s] trim_right_space.simps [of s]
      lead_space_len_visible trail_space_len_visible)

lemma trail_space_len_space: "trail_space_len (s @ [CHR '' '']) = 1"
  by (simp add: trail_space_len_def unicode_space_utf8_def)

lemma go_trim_space_visible_space:
  "s \<noteq> [] \<Longrightarrow> visible_ascii (hd s) \<Longrightarrow> visible_ascii (last s) \<Longrightarrow> go_trim_space (s @ [CHR '' '']) = s"
proof -
  assume s: "s \<noteq> []" "visible_ascii (hd s)" "visible_ascii (last s)"
  have l: "trim_left_space (s @ [CHR '' '']) = s @ [CHR '' '']"
    using s lead_space_len_visible [of "s @ [CHR '' '']"] by (simp add: trim_left_space.simps [of "s @ _"])
  have "trim_right_space (s @ [CHR '' '']) = trim_right_space s"
    by (simp add: trim_right_space.simps [of "s @ _"] trail_space_len_space)
  also have "\<dots> = s" using s by (simp add: trim_right_space.simps [of s] trail_space_len_visible)
  finally show ?thesis using l by (simp add: go_trim_space_def)
qed

lemma go_trim_space_Nil [simp]: "go_trim_space [] = []"
proof -
  have "find (\<lambda>e. take (length e) [] = e) unicode_space_utf8 = None"
    using unicode_space_utf8_not_Nil by (auto simp: find_None_iff)
  then have l: "lead_space_len [] = 0" by (simp add: lead_space_len_def)
  have "find (\<lambda>e. length e \<le> length ([]::string) \<and> drop (length ([]::string) - length e) [] = e) unicode_space_utf8 = None"
    using unicode_space_utf8_not_Nil by (auto simp: find_None_iff)
  then have r: "trail_space_len [] = 0" by (simp add: trail_space_len_def)
  show ?thesis using l r by (simp add: go_trim_space_def trim_left_space.simps [of "[]"] trim_right_space.simps [of "[]"])
qed

subsection \<open>Case-insensitive comparison\<close>

text \<open>
  \<open>strings.EqualFold\<close> compares under Unicode simple case folding. The model folds
  the ASCII letters; it agrees with Go's whenever the strings compared do not contain
  the two non-ASCII runes that fold to ASCII letters (U+017F to s, U+212A to k).
\<close>

definition ascii_lower :: "char \<Rightarrow> char" where
  "ascii_lower c = (if (65::nat) \<le> of_char c \<and> of_char c \<le> (90::nat) then char_of (of_char c + (32::nat)) else c)"

fun go_equal_fold :: "string \<Rightarrow> string \<Rightarrow> bool" where
  "go_equal_fold [] [] = True"
| "go_equal_fold (c # s) (d # t) = (ascii_lower c = ascii_lower d \<and> go_equal_fold s t)"
| "go_equal_fold (c # s) [] = False"
| "go_equal_fold [] (d # t) = False"

lemma go_equal_fold_refl [simp]: "go_equal_fold s s"
  by (induction s) auto

lemma go_equal_fold_Agent: "go_equal_fold ''Agent'' ''agent''"
  by code_simp

end
