(* ===== verification/Cron_Field.thy ===== *)
theory Cron_Field
  imports Go_Lib
begin

text \<open>
  The parser of one cron field, \<open>parseCronField\<close> (src/internal/cron/cron.go,
  lines 191-303). A field is \<open>*\<close>, the empty string, or a comma-separated list of
  parts; a part is a range \<open>A-B\<close>, a step \<open>BASE/STEP\<close> (base \<open>*\<close>, a range or a
  number) or a number. Each \<open>return nil, fmt.Errorf(...)\<close> of the source is one
  constructor of \<open>field_error\<close>, carrying the offending text. The accumulated values
  are de-duplicated (first occurrence kept, as the Go map-based loop does) and sorted.
\<close>

datatype field_error =
    InvalidRangeFormat string
  | InvalidRangeValues string
  | RangeOutOfBounds string
  | InvalidStepFormat string
  | InvalidStepValue string
  | InvalidRangeInStep string
  | RangeOutOfBoundsInStep string
  | InvalidStepBase string
  | StepBaseOutOfRange string
  | InvalidValue string
  | ValueOutOfRange string

subsection \<open>The parts of a field\<close>

text \<open>A simple range \<open>A-B\<close> (lines 209-225).\<close>

definition parse_range :: "int \<Rightarrow> int \<Rightarrow> string \<Rightarrow> field_error + int list" where
  "parse_range lo hi part =
     (let rp = go_split part CHR ''-'' in
      if length rp \<noteq> 2 then Inl (InvalidRangeFormat part)
      else case (go_atoi (rp ! 0), go_atoi (rp ! 1)) of
             (Some start, Some stop) \<Rightarrow>
               if start < lo \<or> stop > hi \<or> start > stop then Inl (RangeOutOfBounds part)
               else Inr [start..stop]
           | _ \<Rightarrow> Inl (InvalidRangeValues part))"

text \<open>The base of a step expression (lines 240-273).\<close>

definition step_base :: "int \<Rightarrow> int \<Rightarrow> string \<Rightarrow> field_error + int list" where
  "step_base lo hi base =
     (if base = ''*'' then Inr [lo..hi]
      else if go_contains base CHR ''-'' then
        (let rp = go_split base CHR ''-'' in
         if length rp \<noteq> 2 then Inl (InvalidRangeInStep base)
         else case (go_atoi (rp ! 0), go_atoi (rp ! 1)) of
                (Some start, Some stop) \<Rightarrow>
                  if start < lo \<or> stop > hi \<or> start > stop then Inl (RangeOutOfBoundsInStep base)
                  else Inr [start..stop]
              | _ \<Rightarrow> Inl (InvalidRangeInStep base))
      else case go_atoi base of
             None \<Rightarrow> Inl (InvalidStepBase base)
           | Some v \<Rightarrow> if v < lo \<or> v > hi then Inl (StepBaseOutOfRange base) else Inr [v])"

text \<open>
  The loop \<open>for i := 0; i < len(allValues); i += step\<close> (lines 276-278). It runs
  only after \<open>step > 0\<close> has been checked, so the model takes the increment as
  \<open>Suc k\<close> with \<open>k = step - 1\<close>.
\<close>

function step_loop :: "int list \<Rightarrow> nat \<Rightarrow> nat \<Rightarrow> int list" where
  "step_loop all k i = (if i < length all then all ! i # step_loop all k (i + Suc k) else [])"
  by pat_completeness auto
termination
  by (relation "measure (\<lambda>(all, k, i). length all - i)") auto

declare step_loop.simps [simp del]

text \<open>A step expression \<open>BASE/STEP\<close> (lines 226-278).\<close>

definition parse_step :: "int \<Rightarrow> int \<Rightarrow> string \<Rightarrow> field_error + int list" where
  "parse_step lo hi part =
     (let sp = go_split part CHR ''/'' in
      if length sp \<noteq> 2 then Inl (InvalidStepFormat part)
      else (let base = sp ! 0; step_str = sp ! 1 in
            case go_atoi step_str of
              None \<Rightarrow> Inl (InvalidStepValue step_str)
            | Some step \<Rightarrow>
                if step \<le> 0 then Inl (InvalidStepValue step_str)
                else sbind (step_base lo hi base) (\<lambda>all. Inr (step_loop all (nat (step - 1)) 0))))"

text \<open>A single value (lines 279-289).\<close>

definition parse_value :: "int \<Rightarrow> int \<Rightarrow> string \<Rightarrow> field_error + int list" where
  "parse_value lo hi part =
     (case go_atoi part of
        None \<Rightarrow> Inl (InvalidValue part)
      | Some v \<Rightarrow> if v < lo \<or> v > hi then Inl (ValueOutOfRange part) else Inr [v])"

definition parse_part :: "int \<Rightarrow> int \<Rightarrow> string \<Rightarrow> field_error + int list" where
  "parse_part lo hi part =
     (if go_contains part CHR ''-'' \<and> \<not> go_contains part CHR ''/'' then parse_range lo hi part
      else if go_contains part CHR ''/'' then parse_step lo hi part
      else parse_value lo hi part)"

text \<open>The loop over the comma-separated parts, appending to \<open>result\<close> (lines 206-290).\<close>

fun parse_parts :: "int \<Rightarrow> int \<Rightarrow> int list \<Rightarrow> string list \<Rightarrow> field_error + int list" where
  "parse_parts lo hi acc [] = Inr acc"
| "parse_parts lo hi acc (p # ps) = sbind (parse_part lo hi p) (\<lambda>vs. parse_parts lo hi (acc @ vs) ps)"

text \<open>The de-duplication loop with the \<open>unique\<close> map (lines 293-300).\<close>

fun dedupe :: "int list \<Rightarrow> int list \<Rightarrow> int list" where
  "dedupe seen [] = []"
| "dedupe seen (v # vs) = (if v \<in> set seen then dedupe seen vs else v # dedupe (v # seen) vs)"

definition parse_cron_field :: "string \<Rightarrow> int \<Rightarrow> int \<Rightarrow> field_error + int list" where
  "parse_cron_field field lo hi =
     (if field = ''*'' then Inr [lo..hi]
      else if field = [] then Inr []
      else sbind (parse_parts lo hi [] (go_split field CHR '',''))
             (\<lambda>result. Inr (sort (dedupe [] result))))"

lemmas field_defs [cron_simps] = parse_cron_field_def parse_part_def parse_range_def
  parse_step_def step_base_def parse_value_def

subsection \<open>Well-formed value sets\<close>

text \<open>
  The invariant of a field value set (spec, section 3): strictly increasing and inside
  the field's bounds.
\<close>

definition wf_values :: "int \<Rightarrow> int \<Rightarrow> int list \<Rightarrow> bool" where
  "wf_values lo hi vs \<longleftrightarrow> strict_sorted vs \<and> (\<forall>v \<in> set vs. lo \<le> v \<and> v \<le> hi)"

definition in_bounds :: "int \<Rightarrow> int \<Rightarrow> int list \<Rightarrow> bool" where
  "in_bounds lo hi vs \<longleftrightarrow> (\<forall>v \<in> set vs. lo \<le> v \<and> v \<le> hi)"

subsection \<open>Abstract syntax and meaning of a field\<close>

text \<open>
  The grammar of section 4.1 of the spec as a datatype of canonical items, with the
  printer that writes an item the way a user writes it and the set of values the spec
  says it denotes: \<open>Val v\<close> is \<open>v\<close>, \<open>Rng a b\<close> is \<open>a-b\<close>, \<open>StepAll n\<close>
  is \<open>*/n\<close> (every \<open>n\<close>-th value from the field minimum), \<open>StepRng a b n\<close> is
  \<open>a-b/n\<close> and \<open>StepVal a n\<close> is \<open>a/n\<close> (just \<open>a\<close>).
\<close>

datatype cron_item = Val nat | Rng nat nat | StepAll nat | StepRng nat nat nat | StepVal nat nat

fun print_item :: "cron_item \<Rightarrow> string" where
  "print_item (Val v) = dec_string v"
| "print_item (Rng a b) = dec_string a @ ''-'' @ dec_string b"
| "print_item (StepAll n) = ''*/'' @ dec_string n"
| "print_item (StepRng a b n) = dec_string a @ ''-'' @ dec_string b @ ''/'' @ dec_string n"
| "print_item (StepVal a n) = dec_string a @ ''/'' @ dec_string n"

definition print_field :: "cron_item list \<Rightarrow> string" where
  "print_field items = go_join (map print_item items) '',''"

fun item_values :: "int \<Rightarrow> int \<Rightarrow> cron_item \<Rightarrow> int set" where
  "item_values lo hi (Val v) = {int v}"
| "item_values lo hi (Rng a b) = {int a..int b}"
| "item_values lo hi (StepAll n) = {v. lo \<le> v \<and> v \<le> hi \<and> int n dvd (v - lo)}"
| "item_values lo hi (StepRng a b n) = {v. int a \<le> v \<and> v \<le> int b \<and> int n dvd (v - int a)}"
| "item_values lo hi (StepVal a n) = {int a}"

fun item_ok :: "int \<Rightarrow> int \<Rightarrow> cron_item \<Rightarrow> bool" where
  "item_ok lo hi (Val v) = (lo \<le> int v \<and> int v \<le> hi)"
| "item_ok lo hi (Rng a b) = (lo \<le> int a \<and> a \<le> b \<and> int b \<le> hi)"
| "item_ok lo hi (StepAll n) = (0 < n \<and> int n \<le> int64_max)"
| "item_ok lo hi (StepRng a b n) = (lo \<le> int a \<and> a \<le> b \<and> int b \<le> hi \<and> 0 < n \<and> int n \<le> int64_max)"
| "item_ok lo hi (StepVal a n) = (lo \<le> int a \<and> int a \<le> hi \<and> 0 < n \<and> int n \<le> int64_max)"

subsection \<open>Bounds of the parsed values\<close>

lemma in_bounds_append [simp]: "in_bounds lo hi (xs @ ys) = (in_bounds lo hi xs \<and> in_bounds lo hi ys)"
  by (auto simp: in_bounds_def)

lemma in_bounds_upto: "lo \<le> a \<Longrightarrow> b \<le> hi \<Longrightarrow> in_bounds lo hi [a..b]"
  by (auto simp: in_bounds_def)

lemma step_loop_subset: "set (step_loop all k i) \<subseteq> set all"
proof (induction all k i rule: step_loop.induct)
  case (1 all k i)
  then show ?case by (auto simp: step_loop.simps [of all k i])
qed

lemma in_bounds_step_loop: "in_bounds lo hi all \<Longrightarrow> in_bounds lo hi (step_loop all k i)"
  unfolding in_bounds_def using step_loop_subset [of all k i] by blast

lemma parse_range_bounds: "parse_range lo hi p = Inr vs \<Longrightarrow> in_bounds lo hi vs"
  unfolding parse_range_def Let_def
  by (auto split: if_splits option.splits intro: in_bounds_upto)

lemma step_base_bounds: "step_base lo hi base = Inr all \<Longrightarrow> in_bounds lo hi all"
  unfolding step_base_def Let_def
  by (auto split: if_splits option.splits intro: in_bounds_upto simp: in_bounds_def)

lemma parse_step_bounds: "parse_step lo hi p = Inr vs \<Longrightarrow> in_bounds lo hi vs"
  unfolding parse_step_def Let_def
  by (auto split: if_splits option.splits dest!: step_base_bounds intro: in_bounds_step_loop)

lemma parse_value_bounds: "parse_value lo hi p = Inr vs \<Longrightarrow> in_bounds lo hi vs"
  unfolding parse_value_def by (auto split: if_splits option.splits simp: in_bounds_def)

lemma parse_part_bounds: "parse_part lo hi p = Inr vs \<Longrightarrow> in_bounds lo hi vs"
  unfolding parse_part_def
  by (auto split: if_splits dest: parse_range_bounds parse_step_bounds parse_value_bounds)

lemma parse_parts_bounds:
  "parse_parts lo hi acc ps = Inr vs \<Longrightarrow> in_bounds lo hi acc \<Longrightarrow> in_bounds lo hi vs"
  by (induction lo hi acc ps rule: parse_parts.induct) (auto dest: parse_part_bounds)

lemma set_dedupe: "set (dedupe seen xs) = set xs - set seen"
  by (induction seen xs rule: dedupe.induct) auto

lemma distinct_dedupe: "distinct (dedupe seen xs)"
  by (induction seen xs rule: dedupe.induct) (auto simp: set_dedupe)

lemma sort_dedupe_wf: "in_bounds lo hi xs \<Longrightarrow> wf_values lo hi (sort (dedupe [] xs))"
  by (simp add: wf_values_def in_bounds_def strict_sorted_sort_distinct distinct_dedupe set_dedupe)

lemma set_sort_dedupe: "set (sort (dedupe [] xs)) = set xs"
  by (simp add: set_dedupe)


subsection \<open>The step loop\<close>

lemma step_loop_Cons:
  "i < length xs \<Longrightarrow> step_loop xs k i = xs ! i # step_loop xs k (i + Suc k)"
  by (simp add: step_loop.simps [of xs k i])

lemma step_loop_Nil: "\<not> i < length xs \<Longrightarrow> step_loop xs k i = []"
  by (simp add: step_loop.simps [of xs k i])

lemma dvd_shift_nat:
  "i < j \<Longrightarrow> Suc k dvd (j - i) \<longleftrightarrow> (i + Suc k \<le> j \<and> Suc k dvd (j - (i + Suc k)))"
proof
  assume lt: "i < j" and d: "Suc k dvd (j - i)"
  then obtain q where q: "j - i = Suc k * q" by (auto elim: dvdE)
  have "q \<noteq> 0"
  proof
    assume "q = 0"
    with q lt show False by simp
  qed
  then obtain q' where "q = Suc q'" by (cases q) auto
  with q have "j - i = Suc k + Suc k * q'" by simp
  with lt have "i + Suc k \<le> j" and "j - (i + Suc k) = Suc k * q'" by arith+
  then show "i + Suc k \<le> j \<and> Suc k dvd (j - (i + Suc k))" by (metis dvd_triv_left)
next
  assume h: "i + Suc k \<le> j \<and> Suc k dvd (j - (i + Suc k))"
  then have "j - i = (j - (i + Suc k)) + Suc k" by arith
  with h show "Suc k dvd (j - i)" by (metis dvd_add dvd_refl)
qed

lemma step_index_set:
  "i < n \<Longrightarrow> {j. i \<le> j \<and> j < n \<and> Suc k dvd (j - i)} =
     insert i {j. i + Suc k \<le> j \<and> j < n \<and> Suc k dvd (j - (i + Suc k))}"
proof (intro set_eqI iffI)
  fix j assume "i < n" and j: "j \<in> {j. i \<le> j \<and> j < n \<and> Suc k dvd (j - i)}"
  show "j \<in> insert i {j. i + Suc k \<le> j \<and> j < n \<and> Suc k dvd (j - (i + Suc k))}"
  proof (cases "j = i")
    case False
    with j have "i < j" by simp
    with j dvd_shift_nat [of i j k] show ?thesis by simp
  qed simp
next
  fix j assume "i < n" and j: "j \<in> insert i {j. i + Suc k \<le> j \<and> j < n \<and> Suc k dvd (j - (i + Suc k))}"
  show "j \<in> {j. i \<le> j \<and> j < n \<and> Suc k dvd (j - i)}"
  proof (cases "j = i")
    case False
    with j have "i < j" by simp
    with j dvd_shift_nat [of i j k] show ?thesis by simp
  qed (use \<open>i < n\<close> in simp)
qed

lemma set_step_loop:
  "set (step_loop xs k i) = (\<lambda>j. xs ! j) ` {j. i \<le> j \<and> j < length xs \<and> Suc k dvd (j - i)}"
proof (induction xs k i rule: step_loop.induct)
  case (1 xs k i)
  show ?case
  proof (cases "i < length xs")
    case False
    then show ?thesis by (auto simp: step_loop_Nil)
  next
    case True
    with "1" show ?thesis by (simp add: step_loop_Cons step_index_set)
  qed
qed

lemma set_step_loop_upto:
  "set (step_loop [a..b] k 0) = {v. a \<le> v \<and> v \<le> b \<and> int (Suc k) dvd (v - a)}"
proof (intro set_eqI iffI)
  fix v assume "v \<in> set (step_loop [a..b] k 0)"
  then obtain j where j: "j < nat (b - a + 1)" "Suc k dvd j" "v = a + int j"
    by (auto simp: set_step_loop)
  moreover have "int (Suc k) dvd int j" using j(2) by (simp only: int_dvd_int_iff)
  ultimately show "v \<in> {v. a \<le> v \<and> v \<le> b \<and> int (Suc k) dvd (v - a)}"
    by auto
next
  fix v assume "v \<in> {v. a \<le> v \<and> v \<le> b \<and> int (Suc k) dvd (v - a)}"
  then have v: "a \<le> v" "v \<le> b" "int (Suc k) dvd (v - a)" by auto
  define j where "j = nat (v - a)"
  have "v = [a..b] ! j" "j < length [a..b]" using v by (auto simp: j_def)
  moreover have "Suc k dvd j" using v by (simp add: j_def int_dvd_int_iff [symmetric])
  ultimately show "v \<in> set (step_loop [a..b] k 0)"
    unfolding set_step_loop by (intro image_eqI [of v _ j]) auto
qed



subsection \<open>Parsing printed items\<close>

lemma dec_string_special [simp]:
  "CHR ''-'' \<notin> set (dec_string n)" "CHR ''/'' \<notin> set (dec_string n)"
  "CHR '','' \<notin> set (dec_string n)" "CHR ''*'' \<notin> set (dec_string n)"
proof -
  have "\<not> is_digit CHR ''-''" "\<not> is_digit CHR ''/''" "\<not> is_digit CHR '',''" "\<not> is_digit CHR ''*''"
    by (simp_all add: is_digit_def)
  then show "CHR ''-'' \<notin> set (dec_string n)" "CHR ''/'' \<notin> set (dec_string n)"
    "CHR '','' \<notin> set (dec_string n)" "CHR ''*'' \<notin> set (dec_string n)"
    using dec_string_digits by blast+
qed

lemma split_two:
  "sep \<notin> set x \<Longrightarrow> sep \<notin> set y \<Longrightarrow> go_split (x @ sep # y) sep = [x, y]"
  using split_join [of "[x, y]" sep] by simp

lemma dec_string_ne_star: "dec_string n @ r \<noteq> ''*''"
  using dec_string_not_Nil [of n] dec_string_special(4) [of n]
  by (cases "dec_string n") auto

lemma parse_print_item:
  assumes ok: "item_ok lo hi it" and hi: "hi \<le> int64_max"
  shows "\<exists>vs. parse_part lo hi (print_item it) = Inr vs \<and> set vs = item_values lo hi it"
proof (cases it)
  case (Val v)
  with ok hi have "go_atoi (dec_string v) = Some (int v)" by (auto intro!: atoi_dec_string)
  with ok Val show ?thesis
    by (simp add: parse_part_def parse_value_def go_contains_def)
next
  case (Rng a b)
  with ok hi have "go_atoi (dec_string a) = Some (int a)" "go_atoi (dec_string b) = Some (int b)"
    by (auto intro!: atoi_dec_string)
  with ok Rng show ?thesis
    by (simp add: parse_part_def parse_range_def go_contains_def split_two)
next
  case (StepAll n)
  with ok have "go_atoi (dec_string n) = Some (int n)" "int (Suc (nat (int n - 1))) = int n"
    by (auto intro!: atoi_dec_string)
  moreover have "go_split (''*/'' @ dec_string n) CHR ''/'' = [''*'', dec_string n]"
    using split_two [of "CHR ''/''" "''*''" "dec_string n"] by simp
  ultimately show ?thesis using ok StepAll
    by (simp add: parse_part_def parse_step_def step_base_def go_contains_def split_two
        set_step_loop_upto del: of_nat_Suc)
next
  case (StepRng a b n)
  with ok hi have "go_atoi (dec_string a) = Some (int a)" "go_atoi (dec_string b) = Some (int b)"
    "go_atoi (dec_string n) = Some (int n)" "int (Suc (nat (int n - 1))) = int n"
    by (auto intro!: atoi_dec_string)
  moreover have "go_split (dec_string a @ ''-'' @ dec_string b @ ''/'' @ dec_string n) CHR ''/'' =
      [dec_string a @ ''-'' @ dec_string b, dec_string n]"
    using split_two [of "CHR ''/''" "dec_string a @ ''-'' @ dec_string b" "dec_string n"] by simp
  ultimately show ?thesis using ok StepRng
    by (simp add: parse_part_def parse_step_def step_base_def go_contains_def split_two
        set_step_loop_upto dec_string_ne_star del: of_nat_Suc)
next
  case (StepVal a n)
  with ok hi have "go_atoi (dec_string a) = Some (int a)" "go_atoi (dec_string n) = Some (int n)"
    by (auto intro!: atoi_dec_string)
  with ok StepVal show ?thesis
    using dec_string_ne_star [of a "[]"]
    by (simp add: parse_part_def parse_step_def step_base_def go_contains_def split_two
        step_loop_Cons step_loop_Nil)
qed


lemma parse_parts_print:
  "hi \<le> int64_max \<Longrightarrow> \<forall>it \<in> set items. item_ok lo hi it \<Longrightarrow>
   \<exists>vs. parse_parts lo hi acc (map print_item items) = Inr vs \<and>
        set vs = set acc \<union> (\<Union>it \<in> set items. item_values lo hi it)"
proof (induction items arbitrary: acc)
  case Nil
  then show ?case by simp
next
  case (Cons it items)
  then obtain ws where ws: "parse_part lo hi (print_item it) = Inr ws" "set ws = item_values lo hi it"
    using parse_print_item by (metis list.set_intros(1))
  with Cons obtain vs where "parse_parts lo hi (acc @ ws) (map print_item items) = Inr vs"
    "set vs = set (acc @ ws) \<union> (\<Union>it \<in> set items. item_values lo hi it)"
    by (metis list.set_intros(2))
  with ws show ?case by auto
qed

lemma print_item_chars:
  "c \<in> set (print_item it) \<Longrightarrow> c \<noteq> CHR '',''"
  by (cases it) auto

lemma print_item_not_Nil: "print_item it \<noteq> []"
  by (cases it) (auto simp: dec_string_not_Nil)

lemma print_item_not_star: "print_item it @ r \<noteq> ''*''"
proof (cases it)
  case (StepAll n)
  then show ?thesis by simp
qed (use dec_string_ne_star in auto)

lemma go_join_prefix: "\<exists>r. go_join (p # ps) sep = p @ r"
  by (cases ps) auto

lemma print_field_not_star: "items \<noteq> [] \<Longrightarrow> print_field items \<noteq> ''*'' \<and> print_field items \<noteq> []"
proof -
  assume "items \<noteq> []"
  then obtain it its where "items = it # its" by (cases items) auto
  moreover obtain r where "go_join (print_item it # map print_item its) '','' = print_item it @ r"
    using go_join_prefix by blast
  ultimately show ?thesis
    using print_item_not_star [of it r] print_item_not_Nil [of it] by (simp add: print_field_def)
qed

lemma split_print_field: "items \<noteq> [] \<Longrightarrow> go_split (print_field items) CHR '','' = map print_item items"
  unfolding print_field_def
  by (rule split_join) (auto dest: print_item_chars)

lemma sort_dedupe_sorted_list_of_set: "sort (dedupe [] xs) = sorted_list_of_set (set xs)"
  by (rule sorted_distinct_set_unique) (auto simp: distinct_dedupe set_dedupe)

lemma parse_cron_field_wf_values: "parse_cron_field field lo hi = Inr vs \<Longrightarrow> wf_values lo hi vs"
proof -
  assume r: "parse_cron_field field lo hi = Inr vs"
  show ?thesis
  proof (cases "field = ''*'' \<or> field = []")
    case True
    with r show ?thesis
      by (auto simp: parse_cron_field_def wf_values_def sorted_wrt_upto)
  next
    case False
    with r obtain result where "parse_parts lo hi [] (go_split field CHR '','') = Inr result"
        and "vs = sort (dedupe [] result)"
      by (auto simp: parse_cron_field_def)
    then show ?thesis
      by (metis parse_parts_bounds sort_dedupe_wf in_bounds_def empty_iff list.set(1))
  qed
qed

subsection \<open>Properties of parseCronField\<close>

text \<open>
  C12: every value set the parser returns is well formed: strictly increasing and inside
  the field bounds.
\<close>

theorem parse_cron_field_wf: "parse_cron_field field lo hi = Inr vs \<Longrightarrow> wf_values lo hi vs"
  by (rule parse_cron_field_wf_values)

theorem parse_cron_field_wf_witness:
  "parse_cron_field ''*/15'' 0 59 = Inr [0, 15, 30, 45] \<and> wf_values 0 59 [0, 15, 30, 45]"
proof -
  have r: "parse_cron_field ''*/15'' 0 59 = Inr [0, 15, 30, 45]" by code_simp
  show ?thesis using parse_cron_field_wf [OF r] r by simp
qed

text \<open>
  C13: parsing refines the grammar's meaning. A field written as a comma-separated list
  of canonical items (numbers, ranges \<open>A-B\<close>, steps \<open>*/N\<close>, \<open>A-B/N\<close>, \<open>A/N\<close>)
  within the field's bounds parses to the sorted, duplicate-free list of exactly the
  values the items denote: every \<open>N\<close>-th value from the base's start for a step,
  the inclusive range for \<open>A-B\<close>.
\<close>

theorem parse_print_field:
  assumes "items \<noteq> []" and "hi \<le> int64_max" and "\<forall>it \<in> set items. item_ok lo hi it"
  shows "parse_cron_field (print_field items) lo hi =
         Inr (sorted_list_of_set (\<Union>it \<in> set items. item_values lo hi it))"
proof -
  obtain vs where vs: "parse_parts lo hi [] (map print_item items) = Inr vs"
      "set vs = (\<Union>it \<in> set items. item_values lo hi it)"
    using parse_parts_print [OF assms(2,3), of "[]"] by auto
  with assms(1) show ?thesis
    by (simp add: parse_cron_field_def print_field_not_star split_print_field
        sort_dedupe_sorted_list_of_set)
qed


theorem parse_print_field_witness:
  "[StepRng 1 5 2, Val 30] \<noteq> [] \<and> (59::int) \<le> int64_max \<and>
   item_ok 0 59 (StepRng 1 5 2) \<and> item_ok 0 59 (Val 30) \<and>
   parse_cron_field ''1-5/2,30'' 0 59 =
     Inr (sorted_list_of_set (\<Union>it \<in> set [StepRng 1 5 2, Val 30]. item_values 0 59 it))"
proof -
  have p: "print_field [StepRng 1 5 2, Val 30] = ''1-5/2,30''" by code_simp
  show ?thesis
    using parse_print_field [of "[StepRng 1 5 2, Val 30]" 59 0] p by (simp add: int64_max_def)
qed


lemma parse_single_part:
  "CHR '','' \<notin> set p \<Longrightarrow> p \<noteq> ''*'' \<Longrightarrow> p \<noteq> [] \<Longrightarrow>
   parse_cron_field p lo hi = sbind (parse_part lo hi p) (\<lambda>vs. Inr (sort (dedupe [] vs)))"
  by (cases "parse_part lo hi p") (simp_all add: parse_cron_field_def)

text \<open>
  A number outside the field's bounds (for example minute 60) is rejected with
  the "value out of range" error naming the offending text.
\<close>

theorem parse_field_value_out_of_range:
  assumes "int v < lo \<or> hi < int v" and "int v \<le> int64_max"
  shows "parse_cron_field (dec_string v) lo hi = Inl (ValueOutOfRange (dec_string v))"
proof -
  have "go_atoi (dec_string v) = Some (int v)" using assms(2) by (rule atoi_dec_string)
  with assms(1) show ?thesis
    using dec_string_ne_star [of v "[]"] dec_string_not_Nil [of v]
    by (simp add: parse_single_part parse_part_def parse_value_def go_contains_def)
qed

theorem parse_field_value_out_of_range_witness:
  "(int 60 < 0 \<or> 59 < int 60) \<and> int 60 \<le> int64_max \<and>
   parse_cron_field ''60'' 0 59 = Inl (ValueOutOfRange ''60'')"
proof -
  have d: "dec_string 60 = ''60''" by code_simp
  show ?thesis
    using parse_field_value_out_of_range [of 60 0 59] d by (simp add: int64_max_def)
qed

text \<open>
  A step that is not a positive integer (\<open>*/0\<close>, \<open>1-5/-2\<close>) is rejected with
  the "invalid step value" error, whatever the base is.
\<close>

theorem parse_field_step_nonpositive:
  assumes "go_atoi s = Some n" and "n \<le> 0"
    and "CHR ''/'' \<notin> set b" and "CHR ''/'' \<notin> set s" and "CHR '','' \<notin> set (b @ s)"
  shows "parse_cron_field (b @ ''/'' @ s) lo hi = Inl (InvalidStepValue s)"
proof -
  have sp: "go_split (b @ ''/'' @ s) CHR ''/'' = [b, s]"
    using split_two [of "CHR ''/''" b s] assms(3,4) by simp
  have "b @ ''/'' @ s \<noteq> ''*''" by (cases b) auto
  then have "parse_cron_field (b @ ''/'' @ s) lo hi =
      sbind (parse_part lo hi (b @ ''/'' @ s)) (\<lambda>vs. Inr (sort (dedupe [] vs)))"
    using assms(5) by (intro parse_single_part) auto
  with sp assms(1,2) show ?thesis
    by (simp add: parse_part_def parse_step_def go_contains_def)
qed

theorem parse_field_step_nonpositive_witness:
  "go_atoi ''0'' = Some 0 \<and> (0::int) \<le> 0 \<and> CHR ''/'' \<notin> set ''*'' \<and> CHR ''/'' \<notin> set ''0'' \<and>
   CHR '','' \<notin> set (''*'' @ ''0'') \<and> parse_cron_field ''*/0'' 0 59 = Inl (InvalidStepValue ''0'')"
proof -
  have a: "go_atoi ''0'' = Some 0" by code_simp
  show ?thesis using parse_field_step_nonpositive [OF a, of "''*''" 0 59] a by simp
qed

text \<open>
  A range whose ends are not both numbers (\<open>5-\<close>, \<open>a-3\<close>) is rejected with
  the "invalid range values" error.
\<close>

theorem parse_field_malformed_range:
  assumes "go_atoi a = None \<or> go_atoi b = None"
    and "CHR ''-'' \<notin> set a" and "CHR ''-'' \<notin> set b"
    and "CHR ''/'' \<notin> set (a @ b)" and "CHR '','' \<notin> set (a @ b)"
  shows "parse_cron_field (a @ ''-'' @ b) lo hi = Inl (InvalidRangeValues (a @ ''-'' @ b))"
proof -
  have "go_split (a @ ''-'' @ b) CHR ''-'' = [a, b]"
    using split_two [of "CHR ''-''" a b] assms(2,3) by simp
  moreover have "a @ ''-'' @ b \<noteq> ''*''" by (cases a) auto
  ultimately show ?thesis using assms
    by (cases "go_atoi a")
      (auto simp: parse_single_part parse_part_def parse_range_def go_contains_def)
qed

theorem parse_field_malformed_range_witness:
  "(go_atoi ''5'' = None \<or> go_atoi [] = None) \<and> CHR ''-'' \<notin> set ''5'' \<and> CHR ''-'' \<notin> set [] \<and>
   CHR ''/'' \<notin> set (''5'' @ []) \<and> CHR '','' \<notin> set (''5'' @ []) \<and>
   parse_cron_field ''5-'' 0 59 = Inl (InvalidRangeValues ''5-'')"
proof -
  have n: "go_atoi [] = None" by (simp add: go_atoi_def)
  show ?thesis using parse_field_malformed_range [of "''5''" "[]" 0 59] n by simp
qed

end
