(* ===== verification/Cron_Schedule.thy ===== *)
theory Cron_Schedule
  imports Cron_Field
begin

text \<open>
  The schedule value and its constructors (src/internal/cron/cron.go): the struct
  \<open>CronSchedule\<close> (lines 11-18) as a record of five value lists,
  \<open>NewCronSchedule\<close> (lines 20-51) parsing the five fields in order and stopping at
  the first error, \<open>NewCronScheduleFromString\<close> (lines 53-62) splitting a trimmed
  string at single spaces, and the two predicates the evaluator uses: \<open>contains\<close>
  (lines 305-310, a binary search) and \<open>dayMatches\<close> (lines 171-189, the
  day-of-month / day-of-week rule with its structural wildcard test).
\<close>

record cron_schedule =
  minutes :: "int list"
  hours :: "int list"
  days :: "int list"
  months :: "int list"
  weekDays :: "int list"

datatype cron_field_name = MinuteField | HourField | DayField | MonthField | WeekdayField

text \<open>
  \<open>fmt.Errorf("invalid minute field %q: %w", ...)\<close> and its siblings wrap a field
  error with the field's name and raw text; \<open>"invalid cron string: %q, expected 5 parts,
  got %d"\<close> reports the number of parts.
\<close>

datatype schedule_error =
    InvalidField cron_field_name string field_error
  | InvalidCronString string nat

definition field_or_error ::
  "cron_field_name \<Rightarrow> string \<Rightarrow> field_error + int list \<Rightarrow> schedule_error + int list" where
  "field_or_error f raw r = (case r of Inl e \<Rightarrow> Inl (InvalidField f raw e) | Inr v \<Rightarrow> Inr v)"

definition new_cron_schedule ::
  "string \<Rightarrow> string \<Rightarrow> string \<Rightarrow> string \<Rightarrow> string \<Rightarrow> schedule_error + cron_schedule" where
  "new_cron_schedule minute hour day month weekDay =
     sbind (field_or_error MinuteField minute (parse_cron_field minute 0 59)) (\<lambda>mins.
     sbind (field_or_error HourField hour (parse_cron_field hour 0 23)) (\<lambda>hrs.
     sbind (field_or_error DayField day (parse_cron_field day 1 31)) (\<lambda>ds.
     sbind (field_or_error MonthField month (parse_cron_field month 1 12)) (\<lambda>ms.
     sbind (field_or_error WeekdayField weekDay (parse_cron_field weekDay 0 6)) (\<lambda>wds.
     Inr \<lparr>minutes = mins, hours = hrs, days = ds, months = ms, weekDays = wds\<rparr>)))))"

definition new_cron_schedule_from_string :: "string \<Rightarrow> schedule_error + cron_schedule" where
  "new_cron_schedule_from_string cronString =
     (let parts = go_split (go_trim_space cronString) CHR '' '' in
      if length parts \<noteq> 5 then Inl (InvalidCronString cronString (length parts))
      else new_cron_schedule (parts ! 0) (parts ! 1) (parts ! 2) (parts ! 3) (parts ! 4))"

definition contains :: "int list \<Rightarrow> int \<Rightarrow> bool" where
  "contains sorted_slice value =
     (let i = search_ints sorted_slice value in i < length sorted_slice \<and> sorted_slice ! i = value)"

definition day_matches :: "int \<Rightarrow> int \<Rightarrow> int list \<Rightarrow> int list \<Rightarrow> bool" where
  "day_matches day weekDay ds wds =
     (let daysAll = (length ds = 31 \<and> ds ! 0 = 1 \<and> ds ! 30 = 31);
          weekDaysAll = (length wds = 7 \<and> wds ! 0 = 0 \<and> wds ! 6 = 6)
      in if daysAll \<and> \<not> weekDaysAll then contains wds weekDay
         else if weekDaysAll \<and> \<not> daysAll then contains ds day
         else contains ds day \<or> contains wds weekDay)"

lemmas schedule_defs [cron_simps] = new_cron_schedule_def new_cron_schedule_from_string_def
  field_or_error_def contains_def day_matches_def

text \<open>
  The schedule invariant of the spec (section 3): each field's value list is strictly
  increasing and inside the field's bounds. Non-emptiness is kept apart
  (\<open>nonempty_schedule\<close>): the parser accepts an empty field and the evaluator's
  behaviour then differs (it may loop or panic).
\<close>

definition wf_schedule :: "('a) cron_schedule_scheme \<Rightarrow> bool" where
  "wf_schedule c \<longleftrightarrow>
     wf_values 0 59 (minutes c) \<and> wf_values 0 23 (hours c) \<and> wf_values 1 31 (days c) \<and>
     wf_values 1 12 (months c) \<and> wf_values 0 6 (weekDays c)"

definition nonempty_schedule :: "('a) cron_schedule_scheme \<Rightarrow> bool" where
  "nonempty_schedule c \<longleftrightarrow>
     minutes c \<noteq> [] \<and> hours c \<noteq> [] \<and> days c \<noteq> [] \<and> months c \<noteq> [] \<and> weekDays c \<noteq> []"

text \<open>The spec's reading of the day rule, on sets: a field is a wildcard when it holds
  every value of its range.\<close>

definition day_rule :: "int \<Rightarrow> int \<Rightarrow> int set \<Rightarrow> int set \<Rightarrow> bool" where
  "day_rule day weekDay D W =
     (if D = {1..31} \<and> W \<noteq> {0..6} then weekDay \<in> W
      else if W = {0..6} \<and> D \<noteq> {1..31} then day \<in> D
      else day \<in> D \<or> weekDay \<in> W)"

subsection \<open>Membership by binary search\<close>

lemma contains_member: "sorted xs \<Longrightarrow> contains xs v \<longleftrightarrow> v \<in> set xs"
proof
  assume s: "sorted xs" and c: "contains xs v"
  then show "v \<in> set xs" by (metis contains_def nth_mem)
next
  assume s: "sorted xs" and v: "v \<in> set xs"
  then have "lower_bound xs v < length xs" and "xs ! lower_bound xs v \<le> v"
    using lower_bound_least [OF s v] by auto
  moreover have "v \<le> xs ! lower_bound xs v"
    using calculation(1) by (rule lower_bound_at)
  ultimately show "contains xs v"
    using s by (simp add: contains_def search_ints_lower_bound)
qed

subsection \<open>The structural wildcard test\<close>

lemma wf_values_sorted: "wf_values lo hi xs \<Longrightarrow> sorted xs"
  by (simp add: wf_values_def)

lemma wf_values_card: "wf_values lo hi xs \<Longrightarrow> card (set xs) = length xs"
  by (simp add: wf_values_def distinct_card strict_sorted_iff)

lemma wf_values_full_iff:
  assumes wf: "wf_values lo hi xs" and le: "lo \<le> hi"
  shows "(length xs = nat (hi - lo + 1) \<and> xs ! 0 = lo \<and> xs ! nat (hi - lo) = hi) \<longleftrightarrow>
         set xs = {lo..hi}"
proof
  assume l: "length xs = nat (hi - lo + 1) \<and> xs ! 0 = lo \<and> xs ! nat (hi - lo) = hi"
  have sub: "set xs \<subseteq> {lo..hi}" using wf by (auto simp: wf_values_def)
  have "card (set xs) = card {lo..hi}" using l wf_values_card [OF wf] by simp
  then show "set xs = {lo..hi}" using sub by (simp add: card_subset_eq)
next
  assume eq: "set xs = {lo..hi}"
  have "xs = sorted_list_of_set {lo..hi}"
    using wf eq by (metis sorted_list_of_set.idem_if_sorted_distinct wf_values_def strict_sorted_iff)
  then have "xs = [lo..hi]" by simp
  with le show "length xs = nat (hi - lo + 1) \<and> xs ! 0 = lo \<and> xs ! nat (hi - lo) = hi"
    by simp
qed

lemma days_all_iff:
  "wf_values 1 31 ds \<Longrightarrow> (length ds = 31 \<and> ds ! 0 = 1 \<and> ds ! 30 = 31) \<longleftrightarrow> set ds = {1..31}"
  using wf_values_full_iff [of 1 31 ds] by simp

lemma week_days_all_iff:
  "wf_values 0 6 wds \<Longrightarrow> (length wds = 7 \<and> wds ! 0 = 0 \<and> wds ! 6 = 6) \<longleftrightarrow> set wds = {0..6}"
  using wf_values_full_iff [of 0 6 wds] by simp

lemma day_matches_rule:
  "wf_values 1 31 ds \<Longrightarrow> wf_values 0 6 wds \<Longrightarrow>
   day_matches d w ds wds = day_rule d w (set ds) (set wds)"
  by (simp add: day_matches_def day_rule_def Let_def days_all_iff week_days_all_iff
      contains_member wf_values_sorted)

subsection \<open>The constructors\<close>

lemma field_or_error_Inr [simp]: "(field_or_error f raw r = Inr v) = (r = Inr v)"
  by (cases r) (auto simp: field_or_error_def)

lemma new_cron_schedule_Inr:
  "new_cron_schedule mi h d mo w = Inr c \<longleftrightarrow>
   (\<exists>a b e f g. parse_cron_field mi 0 59 = Inr a \<and> parse_cron_field h 0 23 = Inr b \<and>
      parse_cron_field d 1 31 = Inr e \<and> parse_cron_field mo 1 12 = Inr f \<and>
      parse_cron_field w 0 6 = Inr g \<and>
      c = \<lparr>minutes = a, hours = b, days = e, months = f, weekDays = g\<rparr>)"
  by (auto simp: new_cron_schedule_def)

lemma new_cron_schedule_wf_schedule:
  "new_cron_schedule mi h d mo w = Inr c \<Longrightarrow> wf_schedule c"
  by (auto simp: new_cron_schedule_Inr wf_schedule_def dest: parse_cron_field_wf_values)

lemma from_string_fields:
  "go_trim_space s = go_join parts '' '' \<Longrightarrow> parts \<noteq> [] \<Longrightarrow>
   \<forall>f \<in> set parts. CHR '' '' \<notin> set f \<Longrightarrow>
   new_cron_schedule_from_string s =
     (if length parts \<noteq> 5 then Inl (InvalidCronString s (length parts))
      else new_cron_schedule (parts ! 0) (parts ! 1) (parts ! 2) (parts ! 3) (parts ! 4))"
  by (simp add: new_cron_schedule_from_string_def split_join)

subsection \<open>Properties of the schedule and its predicates\<close>

text \<open>
  C14: every schedule that \<open>NewCronSchedule\<close> returns satisfies the schedule
  invariant: all five value lists strictly increasing and inside their bounds.
\<close>

theorem new_cron_schedule_wf:
  "new_cron_schedule minute hour day month weekDay = Inr c \<Longrightarrow> wf_schedule c"
  by (rule new_cron_schedule_wf_schedule)

theorem new_cron_schedule_wf_witness:
  "new_cron_schedule ''*/15'' ''9-17'' ''*'' ''1,7'' ''1-5'' =
     Inr \<lparr>minutes = [0, 15, 30, 45], hours = [9..17], days = [1..31], months = [1, 7],
          weekDays = [1..5]\<rparr> \<and>
   wf_schedule \<lparr>minutes = [0, 15, 30, 45], hours = [9..17], days = [1..31], months = [1, 7],
          weekDays = [1..5]\<rparr>"
proof -
  have r: "new_cron_schedule ''*/15'' ''9-17'' ''*'' ''1,7'' ''1-5'' =
     Inr \<lparr>minutes = [0, 15, 30, 45], hours = [9..17], days = [1..31], months = [1, 7],
          weekDays = [1..5]\<rparr>" by code_simp
  show ?thesis using r new_cron_schedule_wf [OF r] by simp
qed

text \<open>
  C15: \<open>contains\<close>, the binary search over a sorted slice, answers exactly whether the
  value is an element of the slice.
\<close>

theorem contains_correct: "sorted xs \<Longrightarrow> contains xs v \<longleftrightarrow> v \<in> set xs"
  by (rule contains_member)

theorem contains_correct_witness:
  "sorted [0, 15, 30, 45::int] \<and> contains [0, 15, 30, 45] 30 \<and> \<not> contains [0, 15, 30, 45] 31"
proof -
  have s: "sorted [0, 15, 30, 45::int]" by simp
  show ?thesis using contains_correct [OF s, of 30] contains_correct [OF s, of 31] s by simp
qed

text \<open>
  C16: on well-formed day and weekday lists, \<open>dayMatches\<close> is the cron day rule of the
  spec stated on sets: only the weekday counts when the day field holds every day
  1-31 and the weekday field does not hold every weekday, only the day counts in the
  mirror case, and otherwise either may match. The length-and-endpoints test of the
  code is exactly "the set is the whole range".
\<close>

theorem day_matches_correct:
  "wf_values 1 31 ds \<Longrightarrow> wf_values 0 6 wds \<Longrightarrow>
   day_matches d w ds wds = day_rule d w (set ds) (set wds)"
  by (rule day_matches_rule)

theorem day_matches_correct_witness:
  "wf_values 1 31 [1..31] \<and> wf_values 0 6 [0] \<and>
   day_matches 1 3 [1..31] [0] = day_rule 1 3 (set [1..31]) (set [0]) \<and>
   \<not> day_matches 1 3 [1..31] [0]"
proof -
  have a: "wf_values 1 31 [1..31]" by (simp add: wf_values_def sorted_wrt_upto)
  have b: "wf_values 0 6 [0]" by (simp add: wf_values_def)
  have ne: "{0::int} \<noteq> {0..6}"
  proof
    assume "{0::int} = {0..6}"
    then have "(1::int) \<in> {0}" by (metis atLeastAtMost_iff zero_le_one one_le_numeral)
    then show False by simp
  qed
  have "\<not> day_rule 1 3 (set [1..31]) (set [0])" using ne by (simp add: day_rule_def)
  then show ?thesis using day_matches_correct [OF a b, of 1 3] a b by simp
qed

text \<open>
  \<open>NewCronScheduleFromString\<close> rejects a string that does not split into exactly
  five space-separated parts (six parts, for instance), reporting the count, before
  any field is parsed.
\<close>

theorem from_string_field_count:
  assumes "go_trim_space s = go_join parts '' ''" and "parts \<noteq> []"
    and "\<forall>f \<in> set parts. CHR '' '' \<notin> set f" and "length parts \<noteq> 5"
  shows "new_cron_schedule_from_string s = Inl (InvalidCronString s (length parts))"
  using from_string_fields [OF assms(1-3)] assms(4) by simp

theorem from_string_field_count_witness:
  "go_trim_space ''0 0 * * * *'' = go_join [''0'', ''0'', ''*'', ''*'', ''*'', ''*''] '' '' \<and>
   new_cron_schedule_from_string ''0 0 * * * *'' = Inl (InvalidCronString ''0 0 * * * *'' 6)"
proof -
  have t: "go_trim_space ''0 0 * * * *'' = go_join [''0'', ''0'', ''*'', ''*'', ''*'', ''*''] '' ''"
    by code_simp
  show ?thesis using from_string_field_count [OF t] t by simp
qed

text \<open>
  The agent's default expression \<open>55 23 * * *\<close> (src/cmd/tgsmctl/main.go,
  line 33) builds the schedule "23:55 every day": minute 55, hour 23, every day, month
  and weekday.
\<close>

theorem default_schedule:
  "new_cron_schedule_from_string ''55 23 * * *'' =
     Inr \<lparr>minutes = [55], hours = [23], days = [1..31], months = [1..12], weekDays = [0..6]\<rparr>"
  by code_simp

end
