(* ===== verification/Cron_Calendar.thy ===== *)
theory Cron_Calendar
  imports Cron_Schedule
begin

text \<open>
  The calendar that \<open>NextRun\<close> (src/internal/cron/cron.go, lines 64-169) walks. Its
  local variables \<open>year, month, day, hour, minute\<close> form the evaluation cursor, a
  record here. Two facts of Go's \<open>time\<close> package are used by the code and modelled
  from its documented behaviour: the length of a month,
  \<open>time.Date(year, month+1, 0, ...).Day()\<close> (line 89), in the proleptic Gregorian
  calendar, and the weekday of a civil date, \<open>time.Date(year, month, day, ...).Weekday()\<close>
  (lines 119-120), with Sunday = 0. Time zones are not modelled: the cursor is a civil
  (wall-clock) time in the location of the reference time.

  Points in time are ordered by \<open>tkey\<close>, the lexicographic order of
  (year, month, day, hour, minute) from \<open>HOL-Library.Product_Lexorder\<close>; on valid civil
  times it is the order of time. The lemmas at the end locate a valid time between two
  cursors: they are what the evaluator's proof uses to show that a jump of the cursor
  skips no candidate.
\<close>

record cursor =
  cyear :: int
  cmonth :: int
  cday :: int
  chour :: int
  cminute :: int

definition mk_cursor :: "int \<Rightarrow> int \<Rightarrow> int \<Rightarrow> int \<Rightarrow> int \<Rightarrow> cursor" where
  "mk_cursor y m d h mi = \<lparr>cyear = y, cmonth = m, cday = d, chour = h, cminute = mi\<rparr>"

definition is_leap :: "int \<Rightarrow> bool" where
  "is_leap y \<longleftrightarrow> 4 dvd y \<and> (\<not> 100 dvd y \<or> 400 dvd y)"

definition days_in_month :: "int \<Rightarrow> int \<Rightarrow> int" where
  "days_in_month y m =
     (if m = 2 then (if is_leap y then 29 else 28)
      else if m = 4 \<or> m = 6 \<or> m = 9 \<or> m = 11 then 30 else 31)"

text \<open>Sakamoto's day-of-week formula; \<open>div\<close> floors, so it holds for every year.\<close>

definition weekday_of :: "int \<Rightarrow> int \<Rightarrow> int \<Rightarrow> int" where
  "weekday_of y m d =
     (let y' = (if m < 3 then y - 1 else y);
          t = [0, 3, 2, 5, 0, 3, 5, 1, 4, 6, 2, 4] ! nat (m - 1)
      in (y' + y' div 4 - y' div 100 + y' div 400 + t + d) mod 7)"

definition valid_time :: "cursor \<Rightarrow> bool" where
  "valid_time t \<longleftrightarrow>
     1 \<le> cmonth t \<and> cmonth t \<le> 12 \<and> 1 \<le> cday t \<and> cday t \<le> days_in_month (cyear t) (cmonth t) \<and>
     0 \<le> chour t \<and> chour t \<le> 23 \<and> 0 \<le> cminute t \<and> cminute t \<le> 59"

definition tkey :: "cursor \<Rightarrow> int \<times> int \<times> int \<times> int \<times> int" where
  "tkey t = (cyear t, cmonth t, cday t, chour t, cminute t)"

lemmas calendar_defs [cron_simps] = mk_cursor_def days_in_month_def is_leap_def weekday_of_def

subsection \<open>Months and days\<close>

lemma days_in_month_bounds: "28 \<le> days_in_month y m \<and> days_in_month y m \<le> 31"
  by (simp add: days_in_month_def)

lemma cursor_eq_iff_tkey: "(t = u) = (tkey t = tkey u)"
  by (cases t, cases u) (simp add: tkey_def)

lemma tkey_mk_cursor [simp]: "tkey (mk_cursor y m d h mi) = (y, m, d, h, mi)"
  by (simp add: tkey_def mk_cursor_def)

lemma mk_cursor_sel [simp]:
  "cyear (mk_cursor y m d h mi) = y" "cmonth (mk_cursor y m d h mi) = m"
  "cday (mk_cursor y m d h mi) = d" "chour (mk_cursor y m d h mi) = h"
  "cminute (mk_cursor y m d h mi) = mi"
  by (simp_all add: mk_cursor_def)

subsection \<open>Locating a valid time between two cursors\<close>

lemma tkey_less_iff:
  "tkey t < tkey u \<longleftrightarrow>
   cyear t < cyear u \<or> cyear t = cyear u \<and>
   (cmonth t < cmonth u \<or> cmonth t = cmonth u \<and>
   (cday t < cday u \<or> cday t = cday u \<and>
   (chour t < chour u \<or> chour t = chour u \<and> cminute t < cminute u)))"
  by (auto simp: tkey_def less_prod_def)

lemma tkey_le_iff:
  "tkey t \<le> tkey u \<longleftrightarrow>
   cyear t < cyear u \<or> cyear t = cyear u \<and>
   (cmonth t < cmonth u \<or> cmonth t = cmonth u \<and>
   (cday t < cday u \<or> cday t = cday u \<and>
   (chour t < chour u \<or> chour t = chour u \<and> cminute t \<le> cminute u)))"
  by (auto simp: tkey_def less_eq_prod_def less_prod_def)

text \<open>Between a cursor and the first minute of the next month lie only times of its month.\<close>

lemma between_month:
  "tkey c \<le> tkey t \<Longrightarrow> tkey t < (y', m', 1, 0, 0) \<Longrightarrow> valid_time t \<Longrightarrow>
   (y', m') = (if cmonth c + 1 > 12 then (cyear c + 1, 1) else (cyear c, cmonth c + 1)) \<Longrightarrow>
   cmonth c \<le> 12 \<Longrightarrow>
   cyear t = cyear c \<and> cmonth t = cmonth c"
  by (auto simp: tkey_le_iff valid_time_def tkey_def less_prod_def split: if_splits)

text \<open>Between a cursor and the first minute of the next day lie only times of its day.\<close>

lemma between_day:
  "tkey c \<le> tkey t \<Longrightarrow> tkey t < tkey (mk_cursor (cyear c) (cmonth c) (cday c + 1) 0 0) \<Longrightarrow>
   valid_time t \<Longrightarrow> cyear t = cyear c \<and> cmonth t = cmonth c \<and> cday t = cday c"
  by (auto simp: tkey_def less_eq_prod_def less_prod_def valid_time_def)

text \<open>No valid time lies in a cursor's day when the day is past the end of its month.\<close>

lemma past_month_end:
  "tkey c \<le> tkey t \<Longrightarrow> valid_time t \<Longrightarrow> cday c > days_in_month (cyear c) (cmonth c) \<Longrightarrow>
   cyear t = cyear c \<Longrightarrow> cmonth t = cmonth c \<Longrightarrow> False"
  by (auto simp: tkey_le_iff valid_time_def)

end
