(* ===== verification/Cron_NextRun.thy ===== *)
theory Cron_NextRun
  imports Cron_Calendar
begin

text \<open>
  \<open>CronSchedule.NextRun\<close> (src/internal/cron/cron.go, lines 64-169). The body of the
  \<open>for {}\<close> loop is \<open>nextrun_step\<close>: it ends in \<open>continue\<close> with a new cursor,
  in \<open>return\<close> with the result, or in a run-time panic. The only unguarded slice
  access is \<open>c.minutes[0]\<close> (line 155), which panics when the minute list is empty;
  it is Go's bounds-checked indexing \<open>go_index\<close>. The guarded accesses
  (\<open>c.hours[hourIdx]\<close> after \<open>hourIdx < len(c.hours)\<close> and so on) are plain
  \<open>!\<close>. The loop itself may run forever (an unsatisfiable schedule such as day 31 of
  February), so it is a \<open>partial_function (option)\<close>: \<open>None\<close> is "never returns".
\<close>

datatype loop_step = Continue cursor | Return cursor | Panic go_panic

text \<open>Lines 77-86: carry an overflowing minute into the hour and the hour into the day.\<close>

definition carry :: "cursor \<Rightarrow> cursor" where
  "carry cur =
     (let (minute, hour) = (if cminute cur > 59 then (0, chour cur + 1) else (cminute cur, chour cur));
          (hour, day) = (if hour > 23 then (0, cday cur + 1) else (hour, cday cur))
      in cur\<lparr>cday := day, chour := hour, cminute := minute\<rparr>)"

text \<open>Lines 93-100 and 107-115: \<open>month++\<close> with the year carry, day 1, 00:00.\<close>

definition next_month_start :: "cursor \<Rightarrow> cursor" where
  "next_month_start cur =
     (let month = cmonth cur + 1 in
      if month > 12 then mk_cursor (cyear cur + 1) 1 1 0 0 else mk_cursor (cyear cur) month 1 0 0)"

text \<open>\<open>day++; hour = 0; minute = 0\<close> (lines 123-125, 138-140, 158-160).\<close>

definition next_day_start :: "cursor \<Rightarrow> cursor" where
  "next_day_start cur = mk_cursor (cyear cur) (cmonth cur) (cday cur + 1) 0 0"

text \<open>Lines 145-167: the minute check, and the return.\<close>

definition minute_step :: "cron_schedule \<Rightarrow> cursor \<Rightarrow> loop_step" where
  "minute_step c cur =
     (if \<not> contains (minutes c) (cminute cur) then
        (let minuteIdx = search_ints (minutes c) (cminute cur) in
         if minuteIdx < length (minutes c) then Return (cur\<lparr>cminute := minutes c ! minuteIdx\<rparr>)
         else
           (let hourIdx = search_ints (hours c) (chour cur + 1) in
            if hourIdx < length (hours c) then
              (case go_index (minutes c) 0 of
                 Inl e \<Rightarrow> Panic e
               | Inr m0 \<Rightarrow> Return (cur\<lparr>chour := hours c ! hourIdx, cminute := m0\<rparr>))
            else Continue (next_day_start cur)))
      else Return cur)"

text \<open>Lines 129-143: the hour check, then the minute check.\<close>

definition hour_step :: "cron_schedule \<Rightarrow> cursor \<Rightarrow> loop_step" where
  "hour_step c cur =
     (if \<not> contains (hours c) (chour cur) then
        (let hourIdx = search_ints (hours c) (chour cur) in
         if hourIdx < length (hours c)
         then minute_step c (cur\<lparr>chour := hours c ! hourIdx, cminute := 0\<rparr>)
         else Continue (next_day_start cur))
      else minute_step c cur)"

text \<open>The loop body, lines 77-167.\<close>

definition nextrun_step :: "cron_schedule \<Rightarrow> cursor \<Rightarrow> loop_step" where
  "nextrun_step c cur0 =
     (let cur = carry cur0 in
      if cday cur > days_in_month (cyear cur) (cmonth cur) then Continue (next_month_start cur)
      else if \<not> contains (months c) (cmonth cur) then Continue (next_month_start cur)
      else if \<not> day_matches (cday cur) (weekday_of (cyear cur) (cmonth cur) (cday cur))
                 (days c) (weekDays c)
        then Continue (next_day_start cur)
      else hour_step c cur)"

partial_function (option) nextrun_loop :: "cron_schedule \<Rightarrow> cursor \<Rightarrow> (go_panic + cursor) option" where
  "nextrun_loop c cur =
     (case nextrun_step c cur of
        Continue cur' \<Rightarrow> nextrun_loop c cur'
      | Return r \<Rightarrow> Some (Inr r)
      | Panic e \<Rightarrow> Some (Inl e))"

declare nextrun_loop.simps [code]

text \<open>Lines 69-74: start at the reference time plus one minute.\<close>

definition next_run :: "cron_schedule \<Rightarrow> cursor \<Rightarrow> (go_panic + cursor) option" where
  "next_run c now = nextrun_loop c (now\<lparr>cminute := cminute now + 1\<rparr>)"

subsection \<open>The specification\<close>

text \<open>
  What the spec promises (section 4.2): the earliest valid civil time strictly after the
  reference time at which minute, hour and month are in their sets and the day rule
  holds.
\<close>

definition matches :: "cron_schedule \<Rightarrow> cursor \<Rightarrow> bool" where
  "matches c t \<longleftrightarrow>
     cminute t \<in> set (minutes c) \<and> chour t \<in> set (hours c) \<and> cmonth t \<in> set (months c) \<and>
     day_rule (cday t) (weekday_of (cyear t) (cmonth t) (cday t)) (set (days c)) (set (weekDays c))"

definition is_next_run :: "cron_schedule \<Rightarrow> cursor \<Rightarrow> cursor \<Rightarrow> bool" where
  "is_next_run c now r \<longleftrightarrow>
     valid_time r \<and> tkey now < tkey r \<and> matches c r \<and>
     (\<forall>t. valid_time t \<and> tkey now < tkey t \<and> tkey t < tkey r \<longrightarrow> \<not> matches c t)"

definition no_match_between :: "cron_schedule \<Rightarrow> cursor \<Rightarrow> cursor \<Rightarrow> bool" where
  "no_match_between c a b \<longleftrightarrow>
     (\<forall>t. valid_time t \<and> tkey a \<le> tkey t \<and> tkey t < tkey b \<longrightarrow> \<not> matches c t)"

text \<open>The shape of the cursor at the top of the loop.\<close>

definition loop_shape :: "cursor \<Rightarrow> bool" where
  "loop_shape cur \<longleftrightarrow>
     1 \<le> cmonth cur \<and> cmonth cur \<le> 12 \<and> 1 \<le> cday cur \<and>
     cday cur \<le> days_in_month (cyear cur) (cmonth cur) + 1 \<and>
     0 \<le> chour cur \<and> chour cur \<le> 23 \<and> 0 \<le> cminute cur \<and> cminute cur \<le> 60"

text \<open>
  What one pass of the loop body guarantees, by outcome: a \<open>continue\<close> moves the
  cursor strictly forward over no matching time and keeps its shape; a \<open>return\<close>
  yields a valid matching time with no matching time before it; a panic happens only
  with an empty minute list.
\<close>

definition step_ok :: "cron_schedule \<Rightarrow> cursor \<Rightarrow> loop_step \<Rightarrow> bool" where
  "step_ok c cur out =
     (case out of
        Continue cur' \<Rightarrow> loop_shape cur' \<and> tkey cur < tkey cur' \<and> no_match_between c cur cur'
      | Return r \<Rightarrow> valid_time r \<and> matches c r \<and> tkey cur \<le> tkey r \<and> no_match_between c cur r
      | Panic e \<Rightarrow> minutes c = [])"

definition date_ok :: "cron_schedule \<Rightarrow> cursor \<Rightarrow> bool" where
  "date_ok c n \<longleftrightarrow>
     valid_time n \<and> cmonth n \<in> set (months c) \<and>
     day_rule (cday n) (weekday_of (cyear n) (cmonth n) (cday n)) (set (days c)) (set (weekDays c))"

text \<open>What the whole loop guarantees, by outcome.\<close>

definition loop_ok :: "cron_schedule \<Rightarrow> cursor \<Rightarrow> go_panic + cursor \<Rightarrow> bool" where
  "loop_ok c cur res =
     (case res of
        Inr r \<Rightarrow> valid_time r \<and> matches c r \<and> tkey cur \<le> tkey r \<and> no_match_between c cur r
      | Inl e \<Rightarrow> minutes c = [])"

text \<open>
  The variant of the loop: while the cursor stays at or before a matching time of year
  \<open>y\<close>, each pass decreases it in the lexicographic order of these measures.
\<close>

definition progress :: "int \<Rightarrow> (cursor \<Rightarrow> nat) list" where
  "progress y = [\<lambda>c. nat (y - cyear c), \<lambda>c. nat (12 - cmonth c), \<lambda>c. nat (32 - cday c),
     \<lambda>c. nat (23 - chour c), \<lambda>c. nat (60 - cminute c)]"

subsection \<open>Lemmas on the stages of the loop body\<close>

lemma no_match_between_trans:
  "no_match_between c a b \<Longrightarrow> no_match_between c b d \<Longrightarrow> no_match_between c a d"
  unfolding no_match_between_def by (meson not_le order_trans)

lemma no_match_between_refl [simp]: "no_match_between c a a"
  by (auto simp: no_match_between_def dest: leD)

lemma wf_schedule_facts:
  assumes "wf_schedule c"
  shows "sorted (minutes c)" "sorted (hours c)" "sorted (months c)"
    "wf_values 1 31 (days c)" "wf_values 0 6 (weekDays c)"
    "\<And>v. v \<in> set (minutes c) \<Longrightarrow> 0 \<le> v \<and> v \<le> 59"
    "\<And>v. v \<in> set (hours c) \<Longrightarrow> 0 \<le> v \<and> v \<le> 23"
  using assms by (auto simp: wf_schedule_def wf_values_def)

text \<open>On a well-formed schedule the loop's membership tests decide the specification.\<close>

lemma matches_exec:
  assumes "wf_schedule c"
  shows "matches c t \<longleftrightarrow>
    contains (minutes c) (cminute t) \<and> contains (hours c) (chour t) \<and>
    contains (months c) (cmonth t) \<and>
    day_matches (cday t) (weekday_of (cyear t) (cmonth t) (cday t)) (days c) (weekDays c)"
  using wf_schedule_facts [OF assms]
  by (simp add: matches_def contains_member day_matches_rule)

lemma carry_props:
  assumes "loop_shape cur"
  shows "cyear (carry cur) = cyear cur \<and> cmonth (carry cur) = cmonth cur \<and>
    1 \<le> cday (carry cur) \<and> cday (carry cur) \<le> days_in_month (cyear cur) (cmonth cur) + 2 \<and>
    0 \<le> chour (carry cur) \<and> chour (carry cur) \<le> 23 \<and>
    0 \<le> cminute (carry cur) \<and> cminute (carry cur) \<le> 59 \<and> tkey cur \<le> tkey (carry cur)"
  using assms by (auto simp: carry_def loop_shape_def tkey_def less_eq_prod_def less_prod_def)

lemma carry_no_gap:
  assumes "loop_shape cur" and "valid_time t" and "tkey cur \<le> tkey t"
  shows "tkey (carry cur) \<le> tkey t"
  using assms
  by (auto simp: carry_def loop_shape_def valid_time_def tkey_def less_eq_prod_def less_prod_def)

lemma carry_no_match: "loop_shape cur \<Longrightarrow> no_match_between c cur (carry cur)"
  unfolding no_match_between_def using carry_no_gap by (meson not_le)

text \<open>
  Within one day, time is ordered by the pair (hour, minute), lexicographically
  (\<open>HOL-Library.Product_Lexorder\<close>); the stages of the loop body below reason on these pairs.
\<close>

lemma between_within_day:
  "tkey n \<le> tkey t \<Longrightarrow> tkey t < tkey (n\<lparr>chour := H, cminute := M\<rparr>) \<Longrightarrow>
   cyear t = cyear n \<and> cmonth t = cmonth n \<and> cday t = cday n \<and>
   (chour n, cminute n) \<le> (chour t, cminute t) \<and> (chour t, cminute t) < (H, M)"
  by (auto simp: tkey_def less_eq_prod_def less_prod_def)

lemma tkey_le_within_day:
  "tkey n \<le> tkey (n\<lparr>chour := H, cminute := M\<rparr>) \<longleftrightarrow> (chour n, cminute n) \<le> (H, M)"
  by (auto simp: tkey_def less_eq_prod_def less_prod_def)

lemma step_ok_prefix:
  "tkey a \<le> tkey b \<Longrightarrow> no_match_between c a b \<Longrightarrow> step_ok c b out \<Longrightarrow> step_ok c a out"
  by (auto simp: step_ok_def no_match_between_trans split: loop_step.splits
      intro: order.trans order.strict_trans1)

lemma matches_same_date:
  "date_ok c n \<Longrightarrow> cyear t = cyear n \<Longrightarrow> cmonth t = cmonth n \<Longrightarrow> cday t = cday n \<Longrightarrow>
   matches c t \<longleftrightarrow> cminute t \<in> set (minutes c) \<and> chour t \<in> set (hours c)"
  by (simp add: date_ok_def matches_def)

lemma same_date_le:
  "cyear t = cyear n \<Longrightarrow> cmonth t = cmonth n \<Longrightarrow> cday t = cday n \<Longrightarrow> tkey n \<le> tkey t \<Longrightarrow>
   chour n < chour t \<or> chour n = chour t \<and> cminute n \<le> cminute t"
  by (auto simp: tkey_def less_eq_prod_def less_prod_def)

lemma next_day_start_ok:
  "valid_time n \<Longrightarrow> loop_shape (next_day_start n) \<and> tkey n < tkey (next_day_start n)"
  by (auto simp: next_day_start_def loop_shape_def valid_time_def tkey_def less_prod_def)

lemma between_next_day:
  "valid_time n \<Longrightarrow> valid_time t \<Longrightarrow> tkey n \<le> tkey t \<Longrightarrow> tkey t < tkey (next_day_start n) \<Longrightarrow>
   cyear t = cyear n \<and> cmonth t = cmonth n \<and> cday t = cday n"
  using between_day [of n t] by (simp add: next_day_start_def)

lemma next_month_start_ok:
  "1 \<le> cmonth n \<Longrightarrow> cmonth n \<le> 12 \<Longrightarrow>
   loop_shape (next_month_start n) \<and> tkey n < tkey (next_month_start n)"
  by (auto simp: next_month_start_def loop_shape_def tkey_def less_prod_def Let_def
      days_in_month_def)

lemma between_next_month:
  "tkey n \<le> tkey t \<Longrightarrow> tkey t < tkey (next_month_start n) \<Longrightarrow> valid_time t \<Longrightarrow>
   cmonth n \<le> 12 \<Longrightarrow> cyear t = cyear n \<and> cmonth t = cmonth n"
proof -
  assume a: "tkey n \<le> tkey t" "tkey t < tkey (next_month_start n)" "valid_time t" "cmonth n \<le> 12"
  define ym where "ym = (if cmonth n + 1 > 12 then (cyear n + 1, 1) else (cyear n, cmonth n + 1))"
  have "tkey (next_month_start n) = (fst ym, snd ym, 1, 0, 0)"
    by (simp add: ym_def next_month_start_def Let_def)
  then show ?thesis using between_month [of n t "fst ym" "snd ym"] a by (simp add: ym_def)
qed

text \<open>
  The four ways a pass can end, each with the condition under which it skips no
  matching time: a jump to the next month, a jump to the next day, a jump to a later
  (hour, minute) of the same day, and a return.
\<close>

lemma month_skip_ok:
  assumes m: "1 \<le> cmonth n" "cmonth n \<le> 12"
    and nm: "\<And>t. valid_time t \<Longrightarrow> cyear t = cyear n \<Longrightarrow> cmonth t = cmonth n \<Longrightarrow>
           tkey n \<le> tkey t \<Longrightarrow> \<not> matches c t"
  shows "step_ok c n (Continue (next_month_start n))"
proof -
  have "no_match_between c n (next_month_start n)"
    unfolding no_match_between_def
  proof (intro allI impI)
    fix t assume t: "valid_time t \<and> tkey n \<le> tkey t \<and> tkey t < tkey (next_month_start n)"
    then show "\<not> matches c t" using between_next_month [of n t] m(2) nm by blast
  qed
  then show ?thesis using next_month_start_ok [OF m] by (simp add: step_ok_def)
qed

lemma day_skip_ok:
  assumes v: "valid_time n"
    and nm: "\<And>t. valid_time t \<Longrightarrow> cyear t = cyear n \<Longrightarrow> cmonth t = cmonth n \<Longrightarrow>
           cday t = cday n \<Longrightarrow> tkey n \<le> tkey t \<Longrightarrow> \<not> matches c t"
  shows "step_ok c n (Continue (next_day_start n))"
proof -
  have "no_match_between c n (next_day_start n)"
    unfolding no_match_between_def
  proof (intro allI impI)
    fix t assume t: "valid_time t \<and> tkey n \<le> tkey t \<and> tkey t < tkey (next_day_start n)"
    then show "\<not> matches c t" using between_next_day [OF v, of t] nm by blast
  qed
  then show ?thesis using next_day_start_ok [OF v] by (simp add: step_ok_def)
qed

lemma day_end_ok:
  assumes d: "date_ok c n"
    and none: "\<And>h m. h \<in> set (hours c) \<Longrightarrow> m \<in> set (minutes c) \<Longrightarrow>
           (chour n, cminute n) \<le> (h, m) \<Longrightarrow> False"
  shows "step_ok c n (Continue (next_day_start n))"
proof (rule day_skip_ok)
  show "valid_time n" using d by (simp add: date_ok_def)
next
  fix t assume t: "valid_time t" "cyear t = cyear n" "cmonth t = cmonth n" "cday t = cday n"
    "tkey n \<le> tkey t"
  have "(chour n, cminute n) \<le> (chour t, cminute t)"
    using t same_date_le [of t n] by (auto simp: less_eq_prod_def less_prod_def)
  then show "\<not> matches c t" using d t none by (auto simp: matches_same_date)
qed

lemma no_match_within_day:
  assumes d: "date_ok c n"
    and none: "\<And>h m. h \<in> set (hours c) \<Longrightarrow> m \<in> set (minutes c) \<Longrightarrow>
           (chour n, cminute n) \<le> (h, m) \<Longrightarrow> (h, m) < (H, M) \<Longrightarrow> False"
  shows "no_match_between c n (n\<lparr>chour := H, cminute := M\<rparr>)"
  unfolding no_match_between_def
proof (intro allI impI notI)
  fix t assume t: "valid_time t \<and> tkey n \<le> tkey t \<and> tkey t < tkey (n\<lparr>chour := H, cminute := M\<rparr>)"
    and m: "matches c t"
  then have "cyear t = cyear n \<and> cmonth t = cmonth n \<and> cday t = cday n \<and>
      (chour n, cminute n) \<le> (chour t, cminute t) \<and> (chour t, cminute t) < (H, M)"
    using between_within_day by blast
  with d m none show False by (auto simp: matches_same_date)
qed

lemma return_ok:
  assumes wf: "wf_schedule c" and d: "date_ok c n"
    and H: "H \<in> set (hours c)" and M: "M \<in> set (minutes c)" and le: "(chour n, cminute n) \<le> (H, M)"
    and none: "\<And>h m. h \<in> set (hours c) \<Longrightarrow> m \<in> set (minutes c) \<Longrightarrow>
           (chour n, cminute n) \<le> (h, m) \<Longrightarrow> (h, m) < (H, M) \<Longrightarrow> False"
  shows "step_ok c n (Return (n\<lparr>chour := H, cminute := M\<rparr>))"
proof -
  note facts = wf_schedule_facts [OF wf]
  have "valid_time (n\<lparr>chour := H, cminute := M\<rparr>)"
    using d facts(6) [OF M] facts(7) [OF H] by (simp add: date_ok_def valid_time_def)
  moreover have "matches c (n\<lparr>chour := H, cminute := M\<rparr>)"
    using d H M by (simp add: matches_same_date)
  ultimately show ?thesis using no_match_within_day [OF d none] le
    by (simp add: step_ok_def tkey_le_within_day)
qed

lemma minute_step_ok:
  assumes wf: "wf_schedule c" and d: "date_ok c n" and h: "chour n \<in> set (hours c)"
  shows "step_ok c n (minute_step c n)"
proof -
  note facts = wf_schedule_facts [OF wf]
  note cm = contains_member [OF facts(1)] and si = search_ints_lower_bound [OF facts(1)]
    and sj = search_ints_lower_bound [OF facts(2)]
  let ?i = "lower_bound (minutes c) (cminute n)" and ?j = "lower_bound (hours c) (chour n + 1)"
  show ?thesis
  proof (cases "cminute n \<in> set (minutes c)")
    case True
    have "step_ok c n (Return (n\<lparr>chour := chour n, cminute := cminute n\<rparr>))"
      by (rule return_ok [OF wf d h True]) auto
    then show ?thesis using True by (simp add: minute_step_def cm)
  next
    case mi_out: False
    show ?thesis
    proof (cases "?i < length (minutes c)")
      case True
      have "step_ok c n (Return (n\<lparr>chour := chour n, cminute := minutes c ! ?i\<rparr>))"
      proof (rule return_ok [OF wf d h])
        show "minutes c ! ?i \<in> set (minutes c)" using True by simp
        show "(chour n, cminute n) \<le> (chour n, minutes c ! ?i)" using True lower_bound_at by simp
      qed (use lower_bound_least [OF facts(1)] in fastforce)
      then show ?thesis using mi_out True by (simp add: minute_step_def cm si)
    next
      case i_out: False
      have below: "m \<in> set (minutes c) \<Longrightarrow> m < cminute n" for m
        using lower_bound_least [OF facts(1), of m "cminute n"] i_out by fastforce
      show ?thesis
      proof (cases "?j < length (hours c)")
        case j_in: True
        show ?thesis
        proof (cases "minutes c")
          case Nil
          then have "go_index (minutes c) 0 = Inl IndexOutOfRange" by (simp add: go_index_def)
          with mi_out i_out j_in have "minute_step c n = Panic IndexOutOfRange"
            by (simp add: minute_step_def cm si sj)
          with Nil show ?thesis by (simp add: step_ok_def)
        next
          case (Cons m0 ms)
          have "step_ok c n (Return (n\<lparr>chour := hours c ! ?j, cminute := m0\<rparr>))"
          proof (rule return_ok [OF wf d])
            show "hours c ! ?j \<in> set (hours c)" "m0 \<in> set (minutes c)" using j_in Cons by simp_all
            show "(chour n, cminute n) \<le> (hours c ! ?j, m0)" using j_in lower_bound_at by fastforce
          next
            fix h m assume "h \<in> set (hours c)" "m \<in> set (minutes c)"
              "(chour n, cminute n) \<le> (h, m)" "(h, m) < (hours c ! ?j, m0)"
            then show False using below lower_bound_least [OF facts(2), of h "chour n + 1"]
                facts(1) Cons by (fastforce simp: less_eq_prod_def less_prod_def)
          qed
          moreover have "go_index (minutes c) 0 = Inr m0" using Cons by (simp add: go_index_def)
          with mi_out i_out j_in have "minute_step c n = Return (n\<lparr>chour := hours c ! ?j, cminute := m0\<rparr>)"
            by (simp add: minute_step_def cm si sj)
          ultimately show ?thesis by simp
        qed
      next
        case j_out: False
        have "step_ok c n (Continue (next_day_start n))"
        proof (rule day_end_ok [OF d])
          fix h m assume "h \<in> set (hours c)" "m \<in> set (minutes c)" "(chour n, cminute n) \<le> (h, m)"
          then show False using below lower_bound_least [OF facts(2), of h "chour n + 1"] j_out
            by (fastforce simp: less_eq_prod_def less_prod_def)
        qed
        then show ?thesis using mi_out i_out j_out by (simp add: minute_step_def cm si sj)
      qed
    qed
  qed
qed

lemma hour_step_ok:
  assumes wf: "wf_schedule c" and d: "date_ok c n"
  shows "step_ok c n (hour_step c n)"
proof -
  note facts = wf_schedule_facts [OF wf]
  note ch = contains_member [OF facts(2)] and sk = search_ints_lower_bound [OF facts(2)]
  let ?k = "lower_bound (hours c) (chour n)"
  show ?thesis
  proof (cases "chour n \<in> set (hours c)")
    case True
    then show ?thesis using minute_step_ok [OF wf d True] by (simp add: hour_step_def ch)
  next
    case h_out: False
    show ?thesis
    proof (cases "?k < length (hours c)")
      case True
      let ?n2 = "n\<lparr>chour := hours c ! ?k, cminute := 0\<rparr>"
      have hmem: "hours c ! ?k \<in> set (hours c)" using True by simp
      have "chour n \<le> hours c ! ?k" using True lower_bound_at by simp
      moreover have "chour n \<noteq> hours c ! ?k" using h_out hmem by auto
      ultimately have hgt: "chour n < hours c ! ?k" by simp
      have d2: "date_ok c ?n2" using d facts(7) [OF hmem]
        by (simp add: date_ok_def valid_time_def)
      have "no_match_between c n ?n2"
      proof (rule no_match_within_day [OF d])
        fix h m assume "h \<in> set (hours c)" "m \<in> set (minutes c)"
          "(chour n, cminute n) \<le> (h, m)" "(h, m) < (hours c ! ?k, 0)"
        then show False using h_out lower_bound_least [OF facts(2), of h "chour n"] facts(6)
          by (fastforce simp: less_eq_prod_def less_prod_def)
      qed
      moreover have "tkey n \<le> tkey ?n2" using hgt by (simp add: tkey_le_within_day)
      ultimately have "step_ok c n (minute_step c ?n2)"
        using step_ok_prefix minute_step_ok [OF wf d2] hmem by simp
      then show ?thesis using h_out True by (simp add: hour_step_def ch sk)
    next
      case False
      have "step_ok c n (Continue (next_day_start n))"
      proof (rule day_end_ok [OF d])
        fix h m assume "h \<in> set (hours c)" "m \<in> set (minutes c)" "(chour n, cminute n) \<le> (h, m)"
        then show False using lower_bound_least [OF facts(2), of h "chour n"] False
          by (fastforce simp: less_eq_prod_def less_prod_def)
      qed
      then show ?thesis using h_out False by (simp add: hour_step_def ch sk)
    qed
  qed
qed

lemma nextrun_step_ok:
  assumes wf: "wf_schedule c" and sh: "loop_shape cur"
  shows "step_ok c cur (nextrun_step c cur)"
proof -
  note facts = wf_schedule_facts [OF wf]
  define n where "n = carry cur"
  have cp: "cyear n = cyear cur \<and> cmonth n = cmonth cur \<and> 1 \<le> cday n \<and>
      0 \<le> chour n \<and> chour n \<le> 23 \<and> 0 \<le> cminute n \<and> cminute n \<le> 59 \<and> tkey cur \<le> tkey n"
    using carry_props [OF sh] by (simp add: n_def)
  have mo: "1 \<le> cmonth n" "cmonth n \<le> 12" using sh cp by (simp_all add: loop_shape_def)
  have cmon: "contains (months c) x \<longleftrightarrow> x \<in> set (months c)" for x
    using facts(3) by (rule contains_member)
  have dm: "day_matches d w (days c) (weekDays c) = day_rule d w (set (days c)) (set (weekDays c))"
    for d w using facts(4,5) by (rule day_matches_rule)
  have st: "step_ok c n (nextrun_step c cur)"
  proof (cases "cday n > days_in_month (cyear n) (cmonth n)")
    case True
    then have "nextrun_step c cur = Continue (next_month_start n)"
      by (simp add: nextrun_step_def n_def)
    moreover have "step_ok c n (Continue (next_month_start n))"
      using True past_month_end [of n] by (intro month_skip_ok mo) blast
    ultimately show ?thesis by simp
  next
    case in_month: False
    then have vn: "valid_time n" using cp mo by (simp add: valid_time_def)
    show ?thesis
    proof (cases "cmonth n \<in> set (months c)")
      case False
      then have "nextrun_step c cur = Continue (next_month_start n)"
        using in_month by (simp add: nextrun_step_def n_def [symmetric] cmon)
      moreover have "step_ok c n (Continue (next_month_start n))"
        using False by (intro month_skip_ok mo) (simp add: matches_def)
      ultimately show ?thesis by simp
    next
      case m_in: True
      show ?thesis
      proof (cases "day_rule (cday n) (weekday_of (cyear n) (cmonth n) (cday n))
                      (set (days c)) (set (weekDays c))")
        case False
        then have "nextrun_step c cur = Continue (next_day_start n)"
          using in_month m_in by (simp add: nextrun_step_def n_def [symmetric] cmon dm)
        moreover have "step_ok c n (Continue (next_day_start n))"
          using False by (intro day_skip_ok vn) (simp add: matches_def)
        ultimately show ?thesis by simp
      next
        case True
        then have "nextrun_step c cur = hour_step c n"
          using in_month m_in by (simp add: nextrun_step_def n_def [symmetric] cmon dm)
        moreover have "date_ok c n" using vn m_in True by (simp add: date_ok_def)
        ultimately show ?thesis using hour_step_ok [OF wf] by simp
      qed
    qed
  qed
  have "tkey cur \<le> tkey n" using cp by simp
  moreover have "no_match_between c cur n" using carry_no_match [OF sh] by (simp add: n_def)
  ultimately show ?thesis using st by (rule step_ok_prefix)
qed

subsection \<open>The loop\<close>

lemma nextrun_loop_sound:
  assumes "nextrun_loop c cur = Some res"
  shows "wf_schedule c \<Longrightarrow> loop_shape cur \<Longrightarrow> loop_ok c cur res"
  using assms
proof (induction rule: nextrun_loop.raw_induct)
  case (1 loop c cur res)
  have ok: "step_ok c cur (nextrun_step c cur)" using nextrun_step_ok [OF "1"(3,4)] .
  show ?case
  proof (cases "nextrun_step c cur")
    case (Continue cur')
    have "loop c cur' = Some res" using "1"(2) Continue by simp
    moreover have "nextrun_loop c cur' = Some res"
      using "1" Continue nextrun_loop.simps [of c cur] by simp
    ultimately have "loop_ok c cur' res" using "1" ok Continue by (simp add: step_ok_def)
    with ok Continue show ?thesis
      by (auto simp: loop_ok_def step_ok_def no_match_between_trans split: sum.splits
          intro: order.trans less_imp_le)
  next
    case (Return r)
    then show ?thesis using "1"(2) ok by (auto simp: loop_ok_def step_ok_def)
  next
    case (Panic e)
    then show ?thesis using "1"(2) ok by (auto simp: loop_ok_def step_ok_def)
  qed
qed (fact assms)

lemma progress_less:
  assumes "loop_shape a" "loop_shape b" "tkey a < tkey b" "cyear b \<le> y"
  shows "(b, a) \<in> measures (progress y)"
proof -
  have "cday a \<le> 32" "cday b \<le> 32"
    using assms(1,2) days_in_month_bounds [of "cyear a" "cmonth a"]
      days_in_month_bounds [of "cyear b" "cmonth b"] by (auto simp: loop_shape_def)
  then show ?thesis using assms by (auto simp: progress_def tkey_less_iff loop_shape_def)
qed

lemma valid_loop_shape: "valid_time t \<Longrightarrow> loop_shape t"
  by (simp add: valid_time_def loop_shape_def)

lemma nextrun_loop_terminates:
  assumes wf: "wf_schedule c" and t: "valid_time t" "matches c t"
  shows "loop_shape cur \<Longrightarrow> tkey cur \<le> tkey t \<Longrightarrow> nextrun_loop c cur \<noteq> None"
proof (induction cur rule: wf_induct_rule [OF wf_measures [of "progress (cyear t)"]])
  case (1 cur)
  have ok: "step_ok c cur (nextrun_step c cur)" using nextrun_step_ok [OF wf "1.prems"(1)] .
  show ?case
  proof (cases "nextrun_step c cur")
    case (Continue cur')
    have sh: "loop_shape cur'" and lt: "tkey cur < tkey cur'" and nm: "no_match_between c cur cur'"
      using ok Continue by (simp_all add: step_ok_def)
    have le: "tkey cur' \<le> tkey t"
    proof (rule ccontr)
      assume "\<not> tkey cur' \<le> tkey t"
      then show False using nm t "1.prems"(2) by (auto simp: no_match_between_def)
    qed
    have "cyear cur' \<le> cyear t" using le by (auto simp: tkey_le_iff)
    then have "(cur', cur) \<in> measures (progress (cyear t))"
      using progress_less [OF "1.prems"(1) sh lt] by simp
    then have "nextrun_loop c cur' \<noteq> None" using "1.IH" sh le by blast
    then show ?thesis using Continue nextrun_loop.simps [of c cur] by simp
  next
    case (Return r)
    then show ?thesis using nextrun_loop.simps [of c cur] by simp
  next
    case (Panic e)
    then show ?thesis using nextrun_loop.simps [of c cur] by simp
  qed
qed

lemma start_shape:
  "valid_time now \<Longrightarrow> loop_shape (now\<lparr>cminute := cminute now + 1\<rparr>)"
  by (simp add: valid_time_def loop_shape_def)

lemma start_le_iff:
  "tkey (now\<lparr>cminute := cminute now + 1\<rparr>) \<le> tkey t \<longleftrightarrow> tkey now < tkey t"
  by (auto simp: tkey_le_iff tkey_less_iff)

lemma next_run_sound:
  assumes wf: "wf_schedule c" and v: "valid_time now" and r: "next_run c now = Some (Inr r)"
  shows "is_next_run c now r"
proof -
  let ?s = "now\<lparr>cminute := cminute now + 1\<rparr>"
  have "loop_ok c ?s (Inr r)"
    using r nextrun_loop_sound [OF _ wf start_shape [OF v]] by (simp add: next_run_def)
  then show ?thesis
    by (auto simp: loop_ok_def is_next_run_def no_match_between_def start_le_iff)
qed

lemma is_next_run_unique:
  assumes "is_next_run c now r" "is_next_run c now r'"
  shows "r = r'"
proof -
  have "\<not> tkey r < tkey r'" "\<not> tkey r' < tkey r" using assms by (auto simp: is_next_run_def)
  then show ?thesis by (simp add: cursor_eq_iff_tkey)
qed

lemma next_run_defined:
  assumes wf: "wf_schedule c" and v: "valid_time now"
    and t: "valid_time t" "matches c t" "tkey now < tkey t"
  shows "next_run c now \<noteq> None"
  using nextrun_loop_terminates [OF wf t(1,2) start_shape [OF v]] t(3)
  by (simp add: next_run_def start_le_iff)

lemma next_run_not_panic:
  assumes wf: "wf_schedule c" and v: "valid_time now" and m: "minutes c \<noteq> []"
  shows "next_run c now \<noteq> Some (Inl e)"
proof
  assume "next_run c now = Some (Inl e)"
  then have "loop_ok c (now\<lparr>cminute := cminute now + 1\<rparr>) (Inl e)"
    using nextrun_loop_sound [OF _ wf start_shape [OF v]] by (simp add: next_run_def)
  with m show False by (simp add: loop_ok_def)
qed

lemma next_run_iff:
  assumes wf: "wf_schedule c" and v: "valid_time now" and m: "minutes c \<noteq> []"
  shows "next_run c now = Some (Inr r) \<longleftrightarrow> is_next_run c now r"
proof
  assume "is_next_run c now r"
  then have t: "valid_time r" "matches c r" "tkey now < tkey r" by (simp_all add: is_next_run_def)
  obtain res where res: "next_run c now = Some res" using next_run_defined [OF wf v t] by blast
  then obtain r' where r': "res = Inr r'" using next_run_not_panic [OF wf v m] by (cases res) auto
  have "is_next_run c now r'" using next_run_sound [OF wf v] res r' by simp
  with \<open>is_next_run c now r\<close> show "next_run c now = Some (Inr r)"
    using is_next_run_unique res r' by blast
qed (rule next_run_sound [OF wf v])

lemma next_run_None_iff:
  assumes wf: "wf_schedule c" and v: "valid_time now" and m: "minutes c \<noteq> []"
  shows "next_run c now = None \<longleftrightarrow> \<not> (\<exists>t. valid_time t \<and> matches c t \<and> tkey now < tkey t)"
proof
  assume "next_run c now = None"
  then show "\<not> (\<exists>t. valid_time t \<and> matches c t \<and> tkey now < tkey t)"
    using next_run_defined [OF wf v] by blast
next
  assume none: "\<not> (\<exists>t. valid_time t \<and> matches c t \<and> tkey now < tkey t)"
  show "next_run c now = None"
  proof (cases "next_run c now")
    case (Some res)
    then obtain r where "res = Inr r" using next_run_not_panic [OF wf v m] by (cases res) auto
    then show ?thesis using next_run_sound [OF wf v] Some none by (auto simp: is_next_run_def)
  qed
qed

subsection \<open>Correctness of \<open>NextRun\<close>\<close>

text \<open>
  C1: \<open>NextRun\<close> is correct and complete. For a well-formed schedule with a non-empty
  minute set and a valid reference time, \<open>NextRun\<close> returns \<open>r\<close> exactly when \<open>r\<close> is
  the earliest valid civil time strictly after the reference time at which every field
  matches, with the day-of-month / day-of-week rule of the specification.
\<close>

lemma next_run_correct:
  "wf_schedule c \<Longrightarrow> minutes c \<noteq> [] \<Longrightarrow> valid_time now \<Longrightarrow>
   next_run c now = Some (Inr r) \<longleftrightarrow> is_next_run c now r"
  by (rule next_run_iff)

lemma next_run_correct_witness:
  "wf_schedule \<lparr>minutes = [0], hours = [0], days = [1..31], months = [1], weekDays = [0]\<rparr> \<and>
   [0::int] \<noteq> [] \<and> valid_time (mk_cursor 2025 1 1 12 0) \<and>
   next_run \<lparr>minutes = [0], hours = [0], days = [1..31], months = [1], weekDays = [0]\<rparr>
     (mk_cursor 2025 1 1 12 0) = Some (Inr (mk_cursor 2025 1 5 0 0)) \<and>
   is_next_run \<lparr>minutes = [0], hours = [0], days = [1..31], months = [1], weekDays = [0]\<rparr>
     (mk_cursor 2025 1 1 12 0) (mk_cursor 2025 1 5 0 0)"
proof -
  let ?c = "\<lparr>minutes = [0::int], hours = [0], days = [1..31], months = [1], weekDays = [0]\<rparr>"
  have w: "wf_schedule ?c" by code_simp
  have v: "valid_time (mk_cursor 2025 1 1 12 0)" by (simp add: valid_time_def days_in_month_def)
  have n: "next_run ?c (mk_cursor 2025 1 1 12 0) = Some (Inr (mk_cursor 2025 1 5 0 0))" by code_simp
  show ?thesis using next_run_correct [OF w _ v, of "mk_cursor 2025 1 5 0 0"] w v n by simp
qed

text \<open>
  C2: \<open>NextRun\<close> terminates and returns a time whenever the schedule matches some valid
  time after the reference time: the loop never skips a matching time and moves the
  cursor forward on every pass.
\<close>

lemma next_run_terminates:
  "wf_schedule c \<Longrightarrow> valid_time now \<Longrightarrow> valid_time t \<Longrightarrow> matches c t \<Longrightarrow> tkey now < tkey t \<Longrightarrow>
   \<exists>r. next_run c now = Some (Inr r)"
proof -
  assume wf: "wf_schedule c" and v: "valid_time now" and t: "valid_time t" "matches c t" "tkey now < tkey t"
  have m: "minutes c \<noteq> []" using t(2) by (auto simp: matches_def)
  obtain res where res: "next_run c now = Some res" using next_run_defined [OF wf v t] by blast
  then show ?thesis using next_run_not_panic [OF wf v m] by (cases res) auto
qed

lemma next_run_terminates_witness:
  "wf_schedule \<lparr>minutes = [0], hours = [0], days = [31], months = [1..12], weekDays = [0..6]\<rparr> \<and>
   valid_time (mk_cursor 2025 2 1 0 0) \<and> valid_time (mk_cursor 2025 3 31 0 0) \<and>
   matches \<lparr>minutes = [0], hours = [0], days = [31], months = [1..12], weekDays = [0..6]\<rparr>
     (mk_cursor 2025 3 31 0 0) \<and>
   tkey (mk_cursor 2025 2 1 0 0) < tkey (mk_cursor 2025 3 31 0 0) \<and>
   (\<exists>r. next_run \<lparr>minutes = [0], hours = [0], days = [31], months = [1..12], weekDays = [0..6]\<rparr>
     (mk_cursor 2025 2 1 0 0) = Some (Inr r))"
proof -
  let ?c = "\<lparr>minutes = [0::int], hours = [0], days = [31], months = [1..12], weekDays = [0..6]\<rparr>"
  have w: "wf_schedule ?c" by code_simp
  have v: "valid_time (mk_cursor 2025 2 1 0 0)" "valid_time (mk_cursor 2025 3 31 0 0)"
    by (simp_all add: valid_time_def days_in_month_def)
  have m: "matches ?c (mk_cursor 2025 3 31 0 0)"
    unfolding matches_exec [OF w] by code_simp
  have l: "tkey (mk_cursor 2025 2 1 0 0) < tkey (mk_cursor 2025 3 31 0 0)" by (simp add: less_prod_def)
  show ?thesis using next_run_terminates [OF w v(1) v(2) m l] w v m l by blast
qed

text \<open>
  C3: when no valid time after the reference matches (for example minute 0, hour 0,
  day 31 of February), \<open>NextRun\<close> never returns: the search walks forward forever
  instead of reporting that there is no next run.
\<close>

lemma next_run_diverges:
  "wf_schedule c \<Longrightarrow> minutes c \<noteq> [] \<Longrightarrow> valid_time now \<Longrightarrow>
   next_run c now = None \<longleftrightarrow> \<not> (\<exists>t. valid_time t \<and> matches c t \<and> tkey now < tkey t)"
  by (rule next_run_None_iff)

lemma feb_31_never_matches:
  "\<not> (valid_time t \<and> matches \<lparr>minutes = [0], hours = [0], days = [31], months = [2], weekDays = [0..6]\<rparr> t)"
proof -
  let ?c = "\<lparr>minutes = [0::int], hours = [0], days = [31], months = [2], weekDays = [0..6]\<rparr>"
  have w: "wf_schedule ?c" by code_simp
  have dm: "day_matches d w [31] [0..6] \<longleftrightarrow> d = 31" for d w :: int
    by (simp add: day_matches_def contains_def search_ints_def Let_def upto.simps search_loop.simps)
  have "matches ?c t \<Longrightarrow> cmonth t = 2 \<and> cday t = 31"
  proof
    assume "matches ?c t"
    then show "cmonth t = 2" by (simp add: matches_def)
    show "cday t = 31" using \<open>matches ?c t\<close> dm by (simp add: matches_exec [OF w])
  qed
  then show ?thesis by (auto simp: valid_time_def days_in_month_def)
qed

lemma next_run_diverges_witness:
  "wf_schedule \<lparr>minutes = [0], hours = [0], days = [31], months = [2], weekDays = [0..6]\<rparr> \<and>
   [0::int] \<noteq> [] \<and> valid_time (mk_cursor 2025 1 1 12 0) \<and>
   next_run \<lparr>minutes = [0], hours = [0], days = [31], months = [2], weekDays = [0..6]\<rparr>
     (mk_cursor 2025 1 1 12 0) = None"
proof -
  let ?c = "\<lparr>minutes = [0::int], hours = [0], days = [31], months = [2], weekDays = [0..6]\<rparr>"
  have w: "wf_schedule ?c" by code_simp
  have v: "valid_time (mk_cursor 2025 1 1 12 0)" by (simp add: valid_time_def days_in_month_def)
  have "\<not> (\<exists>t. valid_time t \<and> matches ?c t \<and> tkey (mk_cursor 2025 1 1 12 0) < tkey t)"
    using feb_31_never_matches by blast
  then show ?thesis using next_run_diverges [OF w _ v] w v by simp
qed

text \<open>
  C4: on a well-formed schedule with a non-empty minute set \<open>NextRun\<close> never panics:
  the only unguarded index, \<open>c.minutes[0]\<close> at line 155, is then in range.
\<close>

lemma next_run_no_panic:
  "wf_schedule c \<Longrightarrow> valid_time now \<Longrightarrow> minutes c \<noteq> [] \<Longrightarrow> next_run c now \<noteq> Some (Inl e)"
  by (rule next_run_not_panic)

lemma next_run_no_panic_witness:
  "wf_schedule \<lparr>minutes = [0], hours = [0], days = [1..31], months = [1], weekDays = [0]\<rparr> \<and>
   valid_time (mk_cursor 2025 1 1 23 30) \<and> [0::int] \<noteq> [] \<and>
   next_run \<lparr>minutes = [0], hours = [0], days = [1..31], months = [1], weekDays = [0]\<rparr>
     (mk_cursor 2025 1 1 23 30) \<noteq> Some (Inl IndexOutOfRange)"
proof -
  let ?c = "\<lparr>minutes = [0::int], hours = [0], days = [1..31], months = [1], weekDays = [0]\<rparr>"
  have w: "wf_schedule ?c" by code_simp
  have v: "valid_time (mk_cursor 2025 1 1 23 30)" by (simp add: valid_time_def days_in_month_def)
  show ?thesis using next_run_no_panic [OF w v, of IndexOutOfRange] w v by simp
qed

end
