(* ===== verification/Agent_Loop.thy ===== *)
theory Agent_Loop
  imports Cron_NextRun
begin

text \<open>
  The agent's report loop, in its two copies: \<open>workerSendReports\<close>
  (src/cmd/tgsmctl/worker-send.go, lines 14-35) and the Windows service's \<open>Execute\<close>
  (src/win/service.go, lines 24-53). Both start with \<open>today = now + 5s\<close>, wait for a
  timer set to \<open>today\<close>, then collect and send a report and set
  \<open>today = schedule.NextRun(today)\<close>. They differ in what else can wake them: the Linux
  worker stops when its context is cancelled; the service answers \<open>Interrogate\<close>
  requests with its status, stops on \<open>Stop\<close> or \<open>Shutdown\<close> and ignores any other
  request, and reports \<open>Running\<close> first and \<open>Stopped\<close> last.

  Waiting and the report itself (\<open>smartctl\<close> runs and an HTTP post, whose errors are
  only logged) are I/O: a run is the sequence of events that wake the loop, and the
  state records the times at which a report was sent. Both loops take the same step on
  a timer event, \<open>agent_fire\<close>, which is where \<open>NextRun\<close> is called: a call that does not
  return stops the loop for ever (\<open>None\<close>), a panic ends it (\<open>Inl\<close>).
\<close>

record agent_state =
  today :: cursor
  sent :: "cursor list"

text \<open>worker-send.go lines 26-32, service.go lines 34-37: the timer fired.\<close>

definition agent_fire :: "cron_schedule \<Rightarrow> agent_state \<Rightarrow> (go_panic + agent_state) option" where
  "agent_fire c st =
     (case next_run c (today st) of
        None \<Rightarrow> None
      | Some (Inl e) \<Rightarrow> Some (Inl e)
      | Some (Inr t) \<Rightarrow> Some (Inr (st\<lparr>today := t, sent := sent st @ [today st]\<rparr>)))"

text \<open>worker-send.go lines 19-34: the worker's loop over the events that wake it.\<close>

datatype agent_event = AgentDone | AgentTimer

fun agent_loop :: "cron_schedule \<Rightarrow> agent_state \<Rightarrow> agent_event list \<Rightarrow> (go_panic + agent_state) option" where
  "agent_loop c st [] = Some (Inr st)"
| "agent_loop c st (AgentDone # es) = Some (Inr st)"
| "agent_loop c st (AgentTimer # es) =
     (case agent_fire c st of
        None \<Rightarrow> None
      | Some (Inl e) \<Rightarrow> Some (Inl e)
      | Some (Inr st') \<Rightarrow> agent_loop c st' es)"

text \<open>worker-send.go lines 14-17: the initial state.\<close>

definition agent_start :: "cursor \<Rightarrow> agent_state" where
  "agent_start now = \<lparr>today = now, sent = []\<rparr>"

text \<open>
  service.go lines 24-53: the service's control requests, each carrying the status the
  service manager last saw (\<open>c.CurrentStatus\<close>), and the statuses it reports.
\<close>

datatype svc_status = Running | Stopped

datatype svc_cmd = Interrogate svc_status | Stop | Shutdown | OtherCmd nat

datatype svc_event = SvcTimer | SvcRequest svc_cmd

fun svc_loop ::
  "cron_schedule \<Rightarrow> agent_state \<Rightarrow> svc_status list \<Rightarrow> svc_event list \<Rightarrow>
   (go_panic + agent_state \<times> svc_status list) option" where
  "svc_loop c st out [] = Some (Inr (st, out))"
| "svc_loop c st out (SvcTimer # es) =
     (case agent_fire c st of
        None \<Rightarrow> None
      | Some (Inl e) \<Rightarrow> Some (Inl e)
      | Some (Inr st') \<Rightarrow> svc_loop c st' out es)"
| "svc_loop c st out (SvcRequest (Interrogate cur) # es) = svc_loop c st (out @ [cur]) es"
| "svc_loop c st out (SvcRequest Stop # es) = Some (Inr (st, out @ [Stopped]))"
| "svc_loop c st out (SvcRequest Shutdown # es) = Some (Inr (st, out @ [Stopped]))"
| "svc_loop c st out (SvcRequest (OtherCmd n) # es) = svc_loop c st out es"

definition svc_execute ::
  "cron_schedule \<Rightarrow> cursor \<Rightarrow> svc_event list \<Rightarrow> (go_panic + agent_state \<times> svc_status list) option" where
  "svc_execute c now es = svc_loop c (agent_start now) [Running] es"

text \<open>
  What the loops maintain: \<open>today\<close> is a valid civil time, and each report time is
  followed, in the list of report times and \<open>today\<close>, by the schedule's next run after it.
\<close>

fun next_run_chain :: "cron_schedule \<Rightarrow> cursor list \<Rightarrow> bool" where
  "next_run_chain c (a # b # rest) = (is_next_run c a b \<and> next_run_chain c (b # rest))"
| "next_run_chain c xs = True"

definition agent_inv :: "cron_schedule \<Rightarrow> agent_state \<Rightarrow> bool" where
  "agent_inv c st \<longleftrightarrow> valid_time (today st) \<and> next_run_chain c (sent st @ [today st])"

text \<open>The Windows service's events as the Linux worker's.\<close>

fun svc_as_agent :: "svc_event list \<Rightarrow> agent_event list" where
  "svc_as_agent [] = []"
| "svc_as_agent (SvcTimer # es) = AgentTimer # svc_as_agent es"
| "svc_as_agent (SvcRequest Stop # es) = [AgentDone]"
| "svc_as_agent (SvcRequest Shutdown # es) = [AgentDone]"
| "svc_as_agent (SvcRequest (Interrogate s) # es) = svc_as_agent es"
| "svc_as_agent (SvcRequest (OtherCmd n) # es) = svc_as_agent es"

subsection \<open>Lemmas\<close>

lemma next_run_chain_snoc:
  "next_run_chain c (xs @ [a, b]) = (next_run_chain c (xs @ [a]) \<and> is_next_run c a b)"
proof (induction xs rule: induct_list012)
  case (3 x y zs)
  then show ?case by simp
qed auto

lemma agent_start_inv: "valid_time now \<Longrightarrow> agent_inv c (agent_start now)"
  by (simp add: agent_inv_def agent_start_def)

lemma agent_fire_inv:
  assumes wf: "wf_schedule c" and inv: "agent_inv c st" and f: "agent_fire c st = Some (Inr st')"
  shows "agent_inv c st'"
proof -
  obtain t where t: "next_run c (today st) = Some (Inr t)" and st': "st' = st\<lparr>today := t, sent := sent st @ [today st]\<rparr>"
    using f by (auto simp: agent_fire_def split: option.splits sum.splits)
  have "is_next_run c (today st) t" using next_run_sound [OF wf _ t] inv by (simp add: agent_inv_def)
  then show ?thesis using inv st' by (simp add: agent_inv_def next_run_chain_snoc is_next_run_def)
qed


lemma agent_loop_inv:
  "wf_schedule c \<Longrightarrow> agent_inv c st \<Longrightarrow> agent_loop c st es = Some (Inr st') \<Longrightarrow> agent_inv c st'"
proof (induction c st es rule: agent_loop.induct)
  case (3 c st es)
  then obtain st1 where f: "agent_fire c st = Some (Inr st1)" and r: "agent_loop c st1 es = Some (Inr st')"
    by (auto split: option.splits sum.splits)
  show ?case using "3.IH" [OF f refl "3.prems"(1) agent_fire_inv [OF "3.prems"(1,2) f] r] .
qed auto


lemma svc_loop_agent:
  "map_option (map_sum id fst) (svc_loop c st out es) = agent_loop c st (svc_as_agent es)"
  by (induction c st out es rule: svc_loop.induct) (auto split: option.splits sum.splits)

lemma agent_fire_total:
  assumes wf: "wf_schedule c" and inv: "agent_inv c st"
    and u: "valid_time u" "matches c u" "tkey (today st) < tkey u"
  shows "\<exists>st'. agent_fire c st = Some (Inr st') \<and> sent st' = sent st @ [today st]"
proof -
  have v: "valid_time (today st)" using inv by (simp add: agent_inv_def)
  have m: "minutes c \<noteq> []" using u(2) by (auto simp: matches_def)
  obtain res where res: "next_run c (today st) = Some res" using next_run_defined [OF wf v u] by blast
  then obtain t where "res = Inr t" using next_run_not_panic [OF wf v m] by (cases res) auto
  with res show ?thesis by (simp add: agent_fire_def)
qed

lemma agent_loop_total:
  "wf_schedule c \<Longrightarrow> agent_inv c st \<Longrightarrow>
   (\<forall>t. valid_time t \<longrightarrow> (\<exists>u. valid_time u \<and> matches c u \<and> tkey t < tkey u)) \<Longrightarrow>
   \<exists>st'. agent_loop c st es = Some (Inr st') \<and>
     length (sent st') = length (sent st) + length (takeWhile (\<lambda>e. e \<noteq> AgentDone) es)"
proof (induction c st es rule: agent_loop.induct)
  case (3 c st es)
  have "valid_time (today st)" using "3.prems"(2) by (simp add: agent_inv_def)
  then obtain u where "valid_time u" "matches c u" "tkey (today st) < tkey u" using "3.prems"(3) by blast
  then obtain st1 where f: "agent_fire c st = Some (Inr st1)" and s1: "sent st1 = sent st @ [today st]"
    using agent_fire_total [OF "3.prems"(1,2)] by blast
  obtain st' where "agent_loop c st1 es = Some (Inr st')"
      "length (sent st') = length (sent st1) + length (takeWhile (\<lambda>e. e \<noteq> AgentDone) es)"
    using "3.IH" [OF f refl "3.prems"(1) agent_fire_inv [OF "3.prems"(1,2) f] "3.prems"(3)] by blast
  then show ?case using f s1 by simp
qed auto

text \<open>A daily schedule \<open>M H * * *\<close> matches after every valid time.\<close>

lemma daily_matches:
  "valid_time u \<Longrightarrow>
   matches \<lparr>minutes = [cminute u], hours = [chour u], days = [1..31], months = [1..12], weekDays = [0..6]\<rparr> u"
  using days_in_month_bounds [of "cyear u" "cmonth u"]
  by (auto simp: matches_def day_rule_def valid_time_def)

lemma next_day_valid:
  assumes "valid_time t" "0 \<le> H" "H \<le> 23" "0 \<le> M" "M \<le> 59"
  shows "\<exists>u. valid_time u \<and> chour u = H \<and> cminute u = M \<and> tkey t < tkey u"
proof (cases "(chour t, cminute t) < (H, M)")
  case True
  then have "chour t < H \<or> chour t = H \<and> cminute t < M" by (auto simp: less_prod_def)
  then show ?thesis using assms
    by (intro exI [of _ "t\<lparr>chour := H, cminute := M\<rparr>"]) (auto simp: valid_time_def tkey_less_iff)
next
  case False
  define u where "u = (if cday t < days_in_month (cyear t) (cmonth t) then mk_cursor (cyear t) (cmonth t) (cday t + 1) H M
                      else if cmonth t < 12 then mk_cursor (cyear t) (cmonth t + 1) 1 H M
                      else mk_cursor (cyear t + 1) 1 1 H M)"
  show ?thesis
    using assms days_in_month_bounds [of "cyear t" "cmonth t + 1"] days_in_month_bounds [of "cyear t + 1" 1]
    by (intro exI [of _ u]) (auto simp: u_def valid_time_def tkey_less_iff)
qed

lemma daily_always_next:
  assumes "0 \<le> H" "H \<le> 23" "0 \<le> M" "M \<le> 59"
  shows "\<forall>t. valid_time t \<longrightarrow>
    (\<exists>u. valid_time u \<and> matches \<lparr>minutes = [M], hours = [H], days = [1..31], months = [1..12], weekDays = [0..6]\<rparr> u \<and>
         tkey t < tkey u)"
proof (intro allI impI)
  fix t assume "valid_time t"
  then obtain u where "valid_time u" "chour u = H" "cminute u = M" "tkey t < tkey u"
    using next_day_valid [OF _ assms] by blast
  then show "\<exists>u. valid_time u \<and> matches \<lparr>minutes = [M], hours = [H], days = [1..31], months = [1..12], weekDays = [0..6]\<rparr> u \<and>
         tkey t < tkey u" using daily_matches [of u] by auto
qed

lemma next_run_chain_valid:
  "next_run_chain c xs \<Longrightarrow> xs \<noteq> [] \<Longrightarrow> valid_time (hd xs) \<Longrightarrow> x \<in> set xs \<Longrightarrow> valid_time x"
proof (induction c xs rule: next_run_chain.induct)
  case (1 c a b rest)
  then show ?case by (auto simp: is_next_run_def)
qed auto

lemma agent_loop_prefix:
  "agent_loop c st es = Some (Inr st') \<Longrightarrow> \<exists>xs. sent st' @ [today st'] = sent st @ [today st] @ xs"
proof (induction c st es rule: agent_loop.induct)
  case (3 c st es)
  then obtain st1 where f: "agent_fire c st = Some (Inr st1)" and r: "agent_loop c st1 es = Some (Inr st')"
    by (auto split: option.splits sum.splits)
  obtain xs where "sent st' @ [today st'] = sent st1 @ [today st1] @ xs" using "3.IH" [OF f refl r] by blast
  moreover have "sent st1 = sent st @ [today st]" using f by (auto simp: agent_fire_def split: option.splits sum.splits)
  ultimately show ?case by auto
qed auto

subsection \<open>Properties of the agent\<close>

text \<open>
  C7: the agent's state invariant: after any run of the report loop from a valid start
  time, \<open>today\<close> is a valid time and every report time is followed, among the report
  times and \<open>today\<close>, by the schedule's next run after it: no scheduled run is skipped
  and none is repeated.
\<close>

lemma agent_loop_invariant:
  "wf_schedule c \<Longrightarrow> valid_time now \<Longrightarrow> agent_loop c (agent_start now) es = Some (Inr st) \<Longrightarrow>
   agent_inv c st"
  using agent_loop_inv agent_start_inv by blast

lemma agent_loop_invariant_witness:
  "wf_schedule \<lparr>minutes = [0..59], hours = [0..23], days = [1..31], months = [1..12], weekDays = [0..6]\<rparr> \<and> valid_time (mk_cursor 2025 1 1 12 0) \<and>
   agent_loop \<lparr>minutes = [0..59], hours = [0..23], days = [1..31], months = [1..12], weekDays = [0..6]\<rparr> (agent_start (mk_cursor 2025 1 1 12 0)) [AgentTimer, AgentTimer] =
     Some (Inr \<lparr>today = mk_cursor 2025 1 1 12 2, sent = [mk_cursor 2025 1 1 12 0, mk_cursor 2025 1 1 12 1]\<rparr>) \<and>
   agent_inv \<lparr>minutes = [0..59], hours = [0..23], days = [1..31], months = [1..12], weekDays = [0..6]\<rparr> \<lparr>today = mk_cursor 2025 1 1 12 2, sent = [mk_cursor 2025 1 1 12 0, mk_cursor 2025 1 1 12 1]\<rparr>"
proof -
  have w: "wf_schedule \<lparr>minutes = [0..59], hours = [0..23], days = [1..31], months = [1..12], weekDays = [0..6]\<rparr>" by code_simp
  have v: "valid_time (mk_cursor 2025 1 1 12 0)" by (simp add: valid_time_def days_in_month_def)
  have r: "agent_loop \<lparr>minutes = [0..59], hours = [0..23], days = [1..31], months = [1..12], weekDays = [0..6]\<rparr> (agent_start (mk_cursor 2025 1 1 12 0)) [AgentTimer, AgentTimer] =
     Some (Inr \<lparr>today = mk_cursor 2025 1 1 12 2, sent = [mk_cursor 2025 1 1 12 0, mk_cursor 2025 1 1 12 1]\<rparr>)"
    by code_simp
  show ?thesis using agent_loop_invariant [OF w v r] w v r by simp
qed



text \<open>
  C9: when the schedule matches after every valid time (as the default \<open>55 23 * * *\<close>
  does), the loop handles every timer event: it sends one report per timer before
  cancellation and never hangs in \<open>NextRun\<close>.
\<close>

lemma agent_loop_runs:
  "wf_schedule c \<Longrightarrow> valid_time now \<Longrightarrow>
   (\<forall>t. valid_time t \<longrightarrow> (\<exists>u. valid_time u \<and> matches c u \<and> tkey t < tkey u)) \<Longrightarrow>
   \<exists>st. agent_loop c (agent_start now) es = Some (Inr st) \<and>
     length (sent st) = length (takeWhile (\<lambda>e. e \<noteq> AgentDone) es)"
  using agent_loop_total [OF _ agent_start_inv] by (simp add: agent_start_def)

lemma agent_loop_runs_witness:
  "wf_schedule \<lparr>minutes = [55], hours = [23], days = [1..31], months = [1..12], weekDays = [0..6]\<rparr> \<and> valid_time (mk_cursor 2025 1 1 12 0) \<and>
   (\<exists>st. agent_loop \<lparr>minutes = [55], hours = [23], days = [1..31], months = [1..12], weekDays = [0..6]\<rparr> (agent_start (mk_cursor 2025 1 1 12 0)) [AgentTimer, AgentTimer, AgentDone, AgentTimer] = Some (Inr st) \<and>
     length (sent st) = 2)"
proof -
  have w: "wf_schedule \<lparr>minutes = [55], hours = [23], days = [1..31], months = [1..12], weekDays = [0..6]\<rparr>" by code_simp
  have v: "valid_time (mk_cursor 2025 1 1 12 0)" by (simp add: valid_time_def days_in_month_def)
  have a: "\<forall>t. valid_time t \<longrightarrow> (\<exists>u. valid_time u \<and> matches \<lparr>minutes = [55], hours = [23], days = [1..31], months = [1..12], weekDays = [0..6]\<rparr> u \<and> tkey t < tkey u)"
    by (rule daily_always_next) simp_all
  show ?thesis using agent_loop_runs [OF w v a, of "[AgentTimer, AgentTimer, AgentDone, AgentTimer]"] w v a
    by (simp add: numeral_2_eq_2)
qed

text \<open>
  C10: the agent sends its first report at start-up (\<open>now + 5s\<close>), before and regardless
  of the schedule: with the default schedule started at 12:00 it reports at 12:00,
  which the schedule does not match, and only then waits for 23:55.
\<close>

lemma agent_first_report_at_start:
  "\<not> matches \<lparr>minutes = [55], hours = [23], days = [1..31], months = [1..12], weekDays = [0..6]\<rparr> (mk_cursor 2025 1 1 12 0) \<and>
   agent_loop \<lparr>minutes = [55], hours = [23], days = [1..31], months = [1..12], weekDays = [0..6]\<rparr> (agent_start (mk_cursor 2025 1 1 12 0)) [AgentTimer] =
     Some (Inr \<lparr>today = mk_cursor 2025 1 1 23 55, sent = [mk_cursor 2025 1 1 12 0]\<rparr>)"
proof
  show "\<not> matches \<lparr>minutes = [55], hours = [23], days = [1..31], months = [1..12], weekDays = [0..6]\<rparr> (mk_cursor 2025 1 1 12 0)" by (simp add: matches_def)
  show "agent_loop \<lparr>minutes = [55], hours = [23], days = [1..31], months = [1..12], weekDays = [0..6]\<rparr> (agent_start (mk_cursor 2025 1 1 12 0)) [AgentTimer] =
     Some (Inr \<lparr>today = mk_cursor 2025 1 1 23 55, sent = [mk_cursor 2025 1 1 12 0]\<rparr>)"
    by code_simp
qed

text \<open>
  C11: the Windows service refines the Linux worker: dropping its status reports, it
  computes what the worker computes on the events that are timers up to the first
  \<open>Stop\<close> or \<open>Shutdown\<close>, so every property of the worker's loop holds of it.
\<close>

lemma svc_refines_agent:
  "map_option (map_sum id fst) (svc_execute c now es) = agent_loop c (agent_start now) (svc_as_agent es)"
  unfolding svc_execute_def by (rule svc_loop_agent)

end
