(* ===== verification/Tele_Message.thy ===== *)
theory Tele_Message
  imports Go_Lib
begin

text \<open>
  The Telegram relay of the server, src/internal/api/tele.go. \<open>sendMessage\<close> (lines
  13-57) parses the chat id, converts the message to runes and cuts it into parts of
  at most \<open>maxLen = 3000\<close> runes, preferring to cut at the last white-space rune of the
  window, which is then dropped; it sends the parts in order and stops at the first
  failed send. \<open>TgSendWorker\<close> (lines 59-70) calls it for every message of its
  channel until the context is cancelled.

  The message enters the model as its rune sequence (the result of \<open>[]rune(message)\<close>);
  the parts are rune sequences. The bot API call \<open>b.Send\<close> is an I/O call: its
  outcome is a parameter \<open>send_ok\<close> of the model, and a run of \<open>sendMessage\<close> is the
  list of the sends it attempts, each a pair of the chat id and the part.
\<close>

definition max_len :: nat where
  "max_len = 3000"

text \<open>Lines 29-35: the index of the last space among the first \<open>maxLen\<close> runes, or -1.\<close>

fun last_space_scan :: "rune list \<Rightarrow> nat \<Rightarrow> int" where
  "last_space_scan t 0 = -1"
| "last_space_scan t (Suc i) = (if is_space (t ! i) then int i else last_space_scan t i)"

definition last_space :: "rune list \<Rightarrow> int" where
  "last_space t = last_space_scan t max_len"

text \<open>Lines 27-47: the splitting loop, then the remainder as the last part.\<close>

function split_loop :: "rune list \<Rightarrow> rune list list \<Rightarrow> rune list list" where
  "split_loop t parts =
     (if length t > max_len then
        (let lastSpace = last_space t in
         if lastSpace > 0 then split_loop (drop (nat lastSpace + 1) t) (parts @ [take (nat lastSpace) t])
         else split_loop (drop max_len t) (parts @ [take max_len t]))
      else if length t > 0 then parts @ [t] else parts)"
  by pat_completeness auto

termination
  by (relation "measure (\<lambda>(t, parts). length t)") (auto simp: max_len_def)

declare split_loop.simps [simp del]

definition split_message :: "rune list \<Rightarrow> rune list list" where
  "split_message textRunes = split_loop textRunes []"

text \<open>Lines 49-56: send the parts in order, stopping after the first failed send.\<close>

fun send_parts :: "(rune list \<Rightarrow> bool) \<Rightarrow> int \<Rightarrow> rune list list \<Rightarrow> (int \<times> rune list) list" where
  "send_parts send_ok chat [] = []"
| "send_parts send_ok chat (p # ps) =
     (chat, p) # (if send_ok p then send_parts send_ok chat ps else [])"

text \<open>
  Lines 13-57. The error of \<open>strconv.ParseInt\<close> is only logged (lines 15-17): the
  parts are then sent to the chat id \<open>ParseInt\<close> returned with its error.
\<close>

definition send_message :: "(rune list \<Rightarrow> bool) \<Rightarrow> string \<Rightarrow> rune list \<Rightarrow> (int \<times> rune list) list" where
  "send_message send_ok chatID message =
     (let (i, err) = go_parse_int chatID in send_parts send_ok i (split_message message))"

text \<open>Lines 59-70: the worker's \<open>select\<close> loop over the events it receives, in order.\<close>

datatype worker_event = CtxDone | Msg "rune list"

fun tg_send_worker :: "(rune list \<Rightarrow> bool) \<Rightarrow> string \<Rightarrow> worker_event list \<Rightarrow> (int \<times> rune list) list" where
  "tg_send_worker send_ok chatID [] = []"
| "tg_send_worker send_ok chatID (CtxDone # es) = []"
| "tg_send_worker send_ok chatID (Msg m # es) =
     send_message send_ok chatID m @ tg_send_worker send_ok chatID es"

text \<open>The separators the loop drops: nothing, or one white-space rune.\<close>

definition dropped_sep :: "rune list \<Rightarrow> bool" where
  "dropped_sep s \<longleftrightarrow> s = [] \<or> (\<exists>r. s = [r] \<and> is_space r)"

subsection \<open>The last space of the window\<close>

lemma last_space_scan_cases:
  "last_space_scan t i = -1 \<and> (\<forall>j<i. \<not> is_space (t ! j)) \<or>
   (\<exists>j<i. last_space_scan t i = int j \<and> is_space (t ! j) \<and> (\<forall>k. j < k \<and> k < i \<longrightarrow> \<not> is_space (t ! k)))"
proof (induction i)
  case (Suc i)
  then show ?case by (auto simp: less_Suc_eq)
qed simp

lemma last_space_cases:
  "last_space t = -1 \<and> (\<forall>j<max_len. \<not> is_space (t ! j)) \<or>
   (\<exists>j<max_len. last_space t = int j \<and> is_space (t ! j) \<and>
      (\<forall>k. j < k \<and> k < max_len \<longrightarrow> \<not> is_space (t ! k)))"
  unfolding last_space_def by (rule last_space_scan_cases)

lemma last_space_pos:
  "0 < last_space t \<Longrightarrow> nat (last_space t) < max_len \<and> is_space (t ! nat (last_space t))"
  using last_space_cases [of t] by auto

subsection \<open>The parts\<close>

lemma split_loop_parts:
  "\<exists>ps seps. split_loop t acc = acc @ ps \<and> length seps = length ps \<and>
     (\<forall>s\<in>set seps. dropped_sep s) \<and> concat (map2 (@) ps seps) = t \<and>
     (\<forall>p\<in>set ps. p \<noteq> [] \<and> length p \<le> max_len)"
proof (induction t acc rule: split_loop.induct)
  case (1 t parts)
  show ?case
  proof (cases "length t > max_len")
    case long: True
    show ?thesis
    proof (cases "last_space t > 0")
      case True
      let ?j = "nat (last_space t)"
      have j: "?j < max_len" "is_space (t ! ?j)" using last_space_pos [OF True] by auto
      obtain ps seps where IH: "split_loop (drop (?j + 1) t) (parts @ [take ?j t]) = (parts @ [take ?j t]) @ ps"
        "length seps = length ps" "\<forall>s\<in>set seps. dropped_sep s"
        "concat (map2 (@) ps seps) = drop (?j + 1) t" "\<forall>p\<in>set ps. p \<noteq> [] \<and> length p \<le> max_len"
        using "1.IH"(1) [OF long refl True] by blast
      have t: "t = take ?j t @ [t ! ?j] @ drop (?j + 1) t"
        using long j(1) by (simp add: Cons_nth_drop_Suc)
      have "split_loop t parts = parts @ (take ?j t # ps)"
        using long True IH(1) by (simp add: split_loop.simps [of t])
      moreover have "concat (map2 (@) (take ?j t # ps) ([t ! ?j] # seps)) = t"
        using IH(4) t by simp
      moreover have "take ?j t \<noteq> [] \<and> length (take ?j t) \<le> max_len"
        using True long j(1) by auto
      ultimately show ?thesis using IH(2,3,5) j(2)
        by (intro exI [of _ "take ?j t # ps"] exI [of _ "[t ! ?j] # seps"]) (auto simp: dropped_sep_def)
    next
      case False
      obtain ps seps where IH: "split_loop (drop max_len t) (parts @ [take max_len t]) = (parts @ [take max_len t]) @ ps"
        "length seps = length ps" "\<forall>s\<in>set seps. dropped_sep s"
        "concat (map2 (@) ps seps) = drop max_len t" "\<forall>p\<in>set ps. p \<noteq> [] \<and> length p \<le> max_len"
        using "1.IH"(2) [OF long refl False] by blast
      have "split_loop t parts = parts @ (take max_len t # ps)"
        using long False IH(1) by (simp add: split_loop.simps [of t])
      moreover have "concat (map2 (@) (take max_len t # ps) ([] # seps)) = t"
        using IH(4) by simp
      moreover have "take max_len t \<noteq> []" using long by (auto simp: max_len_def)
      ultimately show ?thesis using IH(2,3,5)
        by (intro exI [of _ "take max_len t # ps"] exI [of _ "[] # seps"]) (auto simp: dropped_sep_def)
    qed
  next
    case False
    then show ?thesis
      by (intro exI [of _ "if t = [] then [] else [t]"] exI [of _ "if t = [] then [] else [[]]"])
        (auto simp: split_loop.simps [of t] dropped_sep_def)
  qed
qed

lemma split_message_short:
  "length m \<le> max_len \<Longrightarrow> split_message m = (if m = [] then [] else [m])"
  by (simp add: split_message_def split_loop.simps [of m])

lemma split_message_parts:
  "\<exists>seps. length seps = length (split_message m) \<and> (\<forall>s\<in>set seps. dropped_sep s) \<and>
     concat (map2 (@) (split_message m) seps) = m"
  using split_loop_parts [of m "[]"] by (auto simp: split_message_def)

lemma split_message_bounded:
  "p \<in> set (split_message m) \<Longrightarrow> p \<noteq> [] \<and> length p \<le> max_len"
  using split_loop_parts [of m "[]"] by (auto simp: split_message_def)

lemma last_space_Max:
  "last_space t =
     (if \<exists>j<max_len. is_space (t ! j) then int (Max {j. j < max_len \<and> is_space (t ! j)}) else -1)"
proof (cases "\<exists>j<max_len. is_space (t ! j)")
  case True
  then obtain j where j: "j < max_len" "last_space t = int j" "is_space (t ! j)"
      "\<forall>k. j < k \<and> k < max_len \<longrightarrow> \<not> is_space (t ! k)"
    using last_space_cases [of t] by auto
  have "Max {j. j < max_len \<and> is_space (t ! j)} = j"
    using j by (intro Max_eqI) (auto simp: not_less [symmetric])
  then show ?thesis using True j by simp
next
  case False
  then show ?thesis using last_space_cases [of t] by auto
qed

lemma send_parts_prefix:
  "map snd (send_parts ok chat ps) = take (Suc (length (takeWhile ok ps))) ps"
  by (induction ps) auto

lemma send_parts_chat: "x \<in> set (send_parts ok chat ps) \<Longrightarrow> fst x = chat"
  by (induction ps) (auto split: if_splits)

lemma send_message_attempts:
  "map snd (send_message ok chatID m) = take (Suc (length (takeWhile ok (split_message m)))) (split_message m) \<and>
   fst ` set (send_message ok chatID m) \<subseteq> {fst (go_parse_int chatID)}"
  by (auto simp: send_message_def send_parts_prefix split: prod.splits dest: send_parts_chat)

lemma tg_send_worker_until_done:
  "tg_send_worker ok chatID es =
     concat (map (send_message ok chatID) [m. Msg m \<leftarrow> takeWhile (\<lambda>e. e \<noteq> CtxDone) es])"
proof (induction es)
  case (Cons e es)
  then show ?case by (cases e) auto
qed simp

subsection \<open>Properties of the relay\<close>

text \<open>
  C17: splitting loses nothing but the cut spaces: the message is the concatenation of
  its parts, each followed by nothing or by the single white-space rune the loop
  dropped after it.
\<close>

lemma split_message_roundtrip:
  "\<exists>seps. length seps = length (split_message m) \<and> (\<forall>s\<in>set seps. dropped_sep s) \<and>
     concat (map2 (@) (split_message m) seps) = m"
  by (rule split_message_parts)

lemma split_message_roundtrip_witness:
  "split_message [104, 32, 105] = [[104, 32, 105]] \<and>
   (\<exists>seps. length seps = length (split_message [104, 32, 105]) \<and> (\<forall>s\<in>set seps. dropped_sep s) \<and>
     concat (map2 (@) (split_message [104, 32, 105]) seps) = [104, 32, 105])"
  using split_message_roundtrip [of "[104, 32, 105]"] by (simp add: split_message_short max_len_def)

text \<open>
  C18: every part sent is non-empty and at most \<open>maxLen = 3000\<close> runes long, within
  Telegram's message limit.
\<close>

lemma split_message_part_bounds:
  "p \<in> set (split_message m) \<Longrightarrow> p \<noteq> [] \<and> length p \<le> max_len"
  by (rule split_message_bounded)

lemma split_message_part_bounds_witness:
  "[104, 105] \<in> set (split_message [104, 105]) \<and> [104, 105] \<noteq> [] \<and> length [104::int, 105] \<le> max_len"
proof -
  have "[104, 105] \<in> set (split_message [104, 105])" by (simp add: split_message_short max_len_def)
  then show ?thesis using split_message_part_bounds [of "[104, 105]" "[104, 105]"] by simp
qed

text \<open>
  C19: the backward scan for the last space (lines 29-35) computes the largest index
  below \<open>maxLen\<close> that holds a white-space rune, and -1 when there is none.
\<close>

lemma last_space_is_max_space:
  "last_space t =
     (if \<exists>j<max_len. is_space (t ! j) then int (Max {j. j < max_len \<and> is_space (t ! j)}) else -1)"
  by (rule last_space_Max)

text \<open>
  C20: \<open>sendMessage\<close> attempts the parts in order up to and including the first one whose
  send fails, and sends every part to the chat id \<open>ParseInt\<close> returned.
\<close>

lemma send_message_order:
  "map snd (send_message ok chatID m) = take (Suc (length (takeWhile ok (split_message m)))) (split_message m) \<and>
   fst ` set (send_message ok chatID m) \<subseteq> {fst (go_parse_int chatID)}"
  by (rule send_message_attempts)

text \<open>
  C21: a chat id that is not a decimal integer, such as a channel's public name, is
  not rejected: \<open>ParseInt\<close>'s error is only logged and the message is sent to chat 0.
\<close>

lemma send_message_bad_chat_id:
  "send_message (\<lambda>p. True) ''@smart_reports'' [104, 105] = [(0, [104, 105])]"
  by code_simp

text \<open>
  C22: the send worker relays the messages of its channel in the order received, each
  by \<open>sendMessage\<close>, and relays nothing after the context is cancelled.
\<close>

lemma tg_send_worker_relays:
  "tg_send_worker ok chatID es =
     concat (map (send_message ok chatID) [m. Msg m \<leftarrow> takeWhile (\<lambda>e. e \<noteq> CtxDone) es])"
  by (rule tg_send_worker_until_done)

end
