(* ===== verification/Server_Reports.thy ===== *)
theory Server_Reports
  imports Go_Lib
begin

text \<open>
  The server side of the report flow. \<open>handleSmartReport\<close> (src/internal/api/http.go,
  lines 29-70) authorises, reads, decodes and validates a posted report and puts it on
  the report channel; \<open>workerRecvReports\<close> (src/cmd/tgsmctl/worker-recv.go, lines
  17-78) takes reports from that channel, keeps the last analysis of each device in a
  JSON file and queues one Telegram message per report error or per device.

  The report format is the struct \<open>CommonSMARTReport\<close> with its devices
  \<open>SMARTDevice\<close>; the server's package internal/smartdata is not part of src/, and the
  records follow the identical declaration in src/win/smartdata.go. Of the timestamp
  only \<open>IsZero\<close> is used: it is a count of seconds from Go's zero time.

  Library and I/O calls are parameters: \<open>json.Unmarshal\<close> of a body is \<open>unmarshal\<close>,
  the LLM's \<open>Describe\<close> is \<open>describe\<close>. The data directory is a store from file
  names to the device last written there (\<open>os.ReadFile\<close> / \<open>os.WriteFile\<close> of the
  JSON file; read, decode and write failures, which are only logged, are not
  modelled). Queued Telegram messages are values of \<open>tg_message\<close>, one constructor per
  \<open>fmt.Sprintf\<close> format of the source.
\<close>

record smart_device =
  device :: string
  dev_type :: string
  smart_data :: string
  dev_raw_error :: string
  mount_paths :: "string list"

record smart_report =
  hostname :: string
  os :: string
  timestamp :: int
  devices :: "smart_device list"
  raw_error :: string

text \<open>The zero value \<open>var prev smartdata.SMARTDevice\<close> (worker-recv.go line 37).\<close>

definition zero_device :: smart_device where
  "zero_device = \<lparr>device = [], dev_type = [], smart_data = [], dev_raw_error = [], mount_paths = []\<rparr>"

subsection \<open>The HTTP handler\<close>

text \<open>
  A request: its \<open>Authorization\<close> header as \<open>Header.Get\<close> returns it (the empty
  string when it is absent; over HTTP/1.x without leading or trailing white space, which
  net/http strips, see \<open>header_transport\<close> in \<open>Win_Service\<close>) and its body, \<open>None\<close> when \<open>io.ReadAll\<close> fails. The handler's outcome is
  the response and the reports it sent on the channel.
\<close>

record http_request =
  auth_header :: string
  req_body :: "string option"

datatype http_response = HttpError nat string | HttpOk

definition handle_smart_report ::
  "(string \<Rightarrow> smart_report option) \<Rightarrow> string \<Rightarrow> http_request \<Rightarrow> http_response \<times> smart_report list" where
  "handle_smart_report unmarshal token r =
     (let expectedAuthHeader = ''Bearer '' @ token in
      if auth_header r \<noteq> expectedAuthHeader then (HttpError 401 ''Unauthorized'', [])
      else case req_body r of
        None \<Rightarrow> (HttpError 400 ''Bad Request'', [])
      | Some body \<Rightarrow>
          (case unmarshal body of
             None \<Rightarrow> (HttpError 400 ''Invalid JSON'', [])
           | Some report \<Rightarrow>
               if hostname report = [] \<or> os report = [] \<or> timestamp report = 0
               then (HttpError 400 ''Missing required fields'', [])
               else (HttpOk, [report])))"

subsection \<open>The LLM describer\<close>

text \<open>
  \<open>Describe\<close> (src/internal/llmdesc/llm.go, lines 89-137) asks for a fresh analysis
  when the previous record has no \<open>smartctl\<close> output and for a comparison otherwise;
  the chat completion call is the parameter \<open>complete\<close>, which fails (\<open>Inl\<close>) or
  returns the list of choices. On failure the description is empty; otherwise it is
  the first choice, \<open>chatCompletion.Choices[0]\<close>, a bounds-checked index.
\<close>

datatype llm_prompt = NewDiskPrompt string | ComparePrompt string string

definition describe_prompt :: "smart_device \<Rightarrow> smart_device \<Rightarrow> llm_prompt" where
  "describe_prompt dev prev =
     (if smart_data prev = [] then NewDiskPrompt (smart_data dev)
      else ComparePrompt (smart_data prev) (smart_data dev))"

definition describe :: "(llm_prompt \<Rightarrow> unit + string list) \<Rightarrow> smart_device \<Rightarrow> smart_device \<Rightarrow> go_panic + string" where
  "describe complete dev prev =
     (case complete (describe_prompt dev prev) of
        Inl err \<Rightarrow> Inr []
      | Inr choices \<Rightarrow> go_index choices 0)"

subsection \<open>The report worker\<close>

text \<open>
  Lines 40-46: the file name of a device's record. The loop ranges over the runes of
  the name and replaces every occurrence of each unsafe rune; the unsafe runes are
  ASCII, and in UTF-8 an ASCII byte only ever encodes that ASCII rune, so ranging
  over the bytes of the name performs the same replacements.
\<close>

definition unsafe_name_char :: "char \<Rightarrow> bool" where
  "unsafe_name_char r \<longleftrightarrow>
     r \<in> {CHR ''/'', CHR 0x5C, CHR '':'', CHR ''*'', CHR ''?'', CHR 0x22, CHR ''<'', CHR ''>'', CHR ''|''}"

definition go_replace_all_char :: "string \<Rightarrow> char \<Rightarrow> char \<Rightarrow> string" where
  "go_replace_all_char s old new = map (\<lambda>c. if c = old then new else c) s"

fun sanitize_loop :: "string \<Rightarrow> string \<Rightarrow> string" where
  "sanitize_loop [] filename = filename"
| "sanitize_loop (r # rs) filename =
     sanitize_loop rs (if unsafe_name_char r then go_replace_all_char filename r (CHR ''_'') else filename)"

definition data_dir :: string where
  "data_dir = ''/var/lib/smart_reports_data/''"

text \<open>
  Line 48, \<open>filepath.Join(data_dir, filename)\<close>: the name holds no separator and
  ends in \<open>.json\<close>, so it is neither \<open>.\<close> nor \<open>..\<close>, and the join is the
  concatenation (lemma \<open>report_file_inside\<close> below).
\<close>

definition report_file :: "string \<Rightarrow> string \<Rightarrow> string" where
  "report_file host dev =
     (let filename = host @ ''_'' @ dev @ ''.json'' in data_dir @ sanitize_loop filename filename)"

text \<open>
  The messages the worker queues, one constructor per \<open>fmt.Sprintf\<close> format: a report
  error (lines 29-30), a device error (34-35), an analysis with the mount points joined
  by new lines (66-67) and an analysis of a device without mount points (69-70).
\<close>

datatype tg_message =
    ReportErrorMsg string string string
  | DeviceErrorMsg string string string string
  | AnalysisMsg string string string string string
  | NoMountsAnalysisMsg string string string string

type_synonym store = "string \<rightharpoonup> smart_device"

record recv_state =
  files :: store
  queued :: "tg_message list"
  llm_calls :: "(smart_device \<times> smart_device) list"

text \<open>Lines 33-72: one device of a report without a report error.\<close>

definition recv_device ::
  "(llm_prompt \<Rightarrow> unit + string list) \<Rightarrow> smart_report \<Rightarrow> recv_state \<Rightarrow> smart_device \<Rightarrow> go_panic + recv_state" where
  "recv_device complete report st d =
     (if dev_raw_error d \<noteq> [] then
        Inr (st\<lparr>queued := queued st @ [DeviceErrorMsg (hostname report) (os report) (device d) (dev_raw_error d)]\<rparr>)
      else
        (let filename = report_file (hostname report) (device d);
             prev = (case files st filename of Some p \<Rightarrow> p | None \<Rightarrow> zero_device);
             st1 = st\<lparr>files := (files st)(filename \<mapsto> d), llm_calls := llm_calls st @ [(d, prev)]\<rparr>
         in sbind (describe complete d prev) (\<lambda>desc.
            if mount_paths d = [] then
              sbind (describe complete d prev) (\<lambda>desc2.
                Inr (st1\<lparr>llm_calls := llm_calls st1 @ [(d, prev)],
                         queued := queued st1 @ [NoMountsAnalysisMsg (hostname report) (os report) (device d) desc2]\<rparr>))
            else Inr (st1\<lparr>queued := queued st1 @
                     [AnalysisMsg (hostname report) (os report) (device d) (go_join (mount_paths d) ''\<newline>'') desc]\<rparr>))))"

fun recv_devices ::
  "(llm_prompt \<Rightarrow> unit + string list) \<Rightarrow> smart_report \<Rightarrow> recv_state \<Rightarrow> smart_device list \<Rightarrow> go_panic + recv_state" where
  "recv_devices complete report st [] = Inr st"
| "recv_devices complete report st (d # ds) =
     sbind (recv_device complete report st d) (\<lambda>st'. recv_devices complete report st' ds)"

text \<open>Lines 26-75: one report taken from the channel.\<close>

definition recv_report ::
  "(llm_prompt \<Rightarrow> unit + string list) \<Rightarrow> recv_state \<Rightarrow> smart_report \<Rightarrow> go_panic + recv_state" where
  "recv_report complete st report =
     (if raw_error report \<noteq> [] then
        Inr (st\<lparr>queued := queued st @ [ReportErrorMsg (hostname report) (os report) (raw_error report)]\<rparr>)
      else recv_devices complete report st (devices report))"

text \<open>Lines 17-78: the worker's loop over the reports it receives until cancellation.\<close>

datatype recv_event = RecvDone | RecvReport smart_report

fun recv_worker ::
  "(llm_prompt \<Rightarrow> unit + string list) \<Rightarrow> recv_state \<Rightarrow> recv_event list \<Rightarrow> go_panic + recv_state" where
  "recv_worker complete st [] = Inr st"
| "recv_worker complete st (RecvDone # es) = Inr st"
| "recv_worker complete st (RecvReport r # es) =
     sbind (recv_report complete st r) (\<lambda>st'. recv_worker complete st' es)"

definition sanitize_char :: "char \<Rightarrow> char" where
  "sanitize_char c = (if unsafe_name_char c then CHR ''_'' else c)"

subsection \<open>Lemmas on the handler\<close>

lemma handle_smart_report_forwards:
  "snd (handle_smart_report unmarshal token r) \<noteq> [] \<longleftrightarrow>
   auth_header r = ''Bearer '' @ token \<and>
   (\<exists>b report. req_body r = Some b \<and> unmarshal b = Some report \<and>
      hostname report \<noteq> [] \<and> os report \<noteq> [] \<and> timestamp report \<noteq> 0)"
  by (auto simp: handle_smart_report_def Let_def split: option.splits)

lemma handle_smart_report_ok:
  "fst (handle_smart_report unmarshal token r) = HttpOk \<longleftrightarrow> snd (handle_smart_report unmarshal token r) \<noteq> []"
  by (auto simp: handle_smart_report_def Let_def split: option.splits)

lemma handle_smart_report_at_most_one:
  "length (snd (handle_smart_report unmarshal token r)) \<le> 1"
  by (auto simp: handle_smart_report_def Let_def split: option.splits)

subsection \<open>Lemmas on file names\<close>

lemma sanitize_loop_map:
  "sanitize_loop rs f = map (\<lambda>c. if c \<in> set rs \<and> unsafe_name_char c then CHR ''_'' else c) f"
proof (induction rs arbitrary: f)
  case Nil
  then show ?case by (simp add: map_idI)
next
  case (Cons r rs)
  show ?case
    by (auto simp: Cons go_replace_all_char_def unsafe_name_char_def)
qed

lemma sanitize_loop_self: "sanitize_loop f f = map sanitize_char f"
  by (auto simp: sanitize_loop_map sanitize_char_def)

lemma sanitize_char_safe: "\<not> unsafe_name_char (sanitize_char c)"
  by (auto simp: sanitize_char_def unsafe_name_char_def)

lemma report_file_eq:
  "report_file host dev = data_dir @ map sanitize_char (host @ ''_'' @ dev @ ''.json'')"
  by (simp add: report_file_def sanitize_loop_self)

lemma report_file_name_safe:
  "c \<in> set (map sanitize_char s) \<Longrightarrow> c \<noteq> CHR ''/'' \<and> c \<noteq> CHR 0x5C"
  using sanitize_char_safe by (auto simp: unsafe_name_char_def)

subsection \<open>Lemmas on the report worker\<close>

text \<open>The record a healthy device is compared against: the file's, or the zero value.\<close>

definition prev_record :: "recv_state \<Rightarrow> smart_report \<Rightarrow> smart_device \<Rightarrow> smart_device" where
  "prev_record st report d =
     (case files st (report_file (hostname report) (device d)) of Some p \<Rightarrow> p | None \<Rightarrow> zero_device)"

lemma recv_device_error:
  "dev_raw_error d \<noteq> [] \<Longrightarrow>
   recv_device complete report st d =
     Inr (st\<lparr>queued := queued st @ [DeviceErrorMsg (hostname report) (os report) (device d) (dev_raw_error d)]\<rparr>)"
  by (simp add: recv_device_def)

lemma recv_device_healthy:
  assumes "dev_raw_error d = []" and "recv_device complete report st d = Inr st'"
  shows "files st' = (files st)(report_file (hostname report) (device d) \<mapsto> d) \<and>
    llm_calls st' = llm_calls st @ replicate (if mount_paths d = [] then 2 else 1) (d, prev_record st report d) \<and>
    (\<exists>m. queued st' = queued st @ [m])"
proof (cases "mount_paths d = []")
  case True
  with assms show ?thesis
    by (auto simp: recv_device_def prev_record_def Let_def numeral_2_eq_2)
next
  case False
  with assms show ?thesis
    by (auto simp: recv_device_def prev_record_def Let_def)
qed

lemma recv_device_panic:
  "dev_raw_error d = [] \<Longrightarrow> complete (describe_prompt d (prev_record st report d)) = Inr [] \<Longrightarrow>
   recv_device complete report st d = Inl IndexOutOfRange"
  by (simp add: recv_device_def prev_record_def describe_def Let_def)

lemma recv_device_queued:
  "recv_device complete report st d = Inr st' \<Longrightarrow> length (queued st') = Suc (length (queued st))"
  by (cases "dev_raw_error d = []") (auto dest: recv_device_healthy simp: recv_device_error)

lemma recv_devices_queued:
  "recv_devices complete report st ds = Inr st' \<Longrightarrow> length (queued st') = length (queued st) + length ds"
proof (induction ds arbitrary: st)
  case (Cons d ds)
  then obtain st1 where "recv_device complete report st d = Inr st1" "recv_devices complete report st1 ds = Inr st'"
    by auto
  then show ?case using Cons.IH recv_device_queued by fastforce
qed simp

lemma recv_report_queued:
  "recv_report complete st report = Inr st' \<Longrightarrow>
   length (queued st') = length (queued st) + (if raw_error report \<noteq> [] then 1 else length (devices report))"
  by (auto simp: recv_report_def dest: recv_devices_queued)

subsection \<open>Properties of the server\<close>

text \<open>
  C23: the HTTP handler puts a report on the channel exactly when the request carries
  the header \<open>Bearer <token>\<close>, its body is readable and decodes, and the report
  names its host and OS and has a non-zero timestamp; it answers 200 exactly then.
\<close>

lemma handler_accepts_iff:
  "(snd (handle_smart_report unmarshal token r) \<noteq> [] \<longleftrightarrow>
    auth_header r = ''Bearer '' @ token \<and>
    (\<exists>b report. req_body r = Some b \<and> unmarshal b = Some report \<and>
       hostname report \<noteq> [] \<and> os report \<noteq> [] \<and> timestamp report \<noteq> 0)) \<and>
   (fst (handle_smart_report unmarshal token r) = HttpOk \<longleftrightarrow> snd (handle_smart_report unmarshal token r) \<noteq> [])"
  using handle_smart_report_forwards handle_smart_report_ok by blast

text \<open>
  C24: the sanitising loop of lines 42-46, which calls \<open>strings.ReplaceAll\<close> once per
  unsafe rune it meets, replaces exactly the unsafe characters of the name by \<open>_\<close>.
\<close>

lemma sanitize_loop_is_map:
  "sanitize_loop f f = map sanitize_char f"
  by (rule sanitize_loop_self)

text \<open>
  C25: every record file lies directly in the data directory: its name, after the
  directory, holds no path separator, whatever the host and device names are.
\<close>

lemma report_file_inside:
  "\<exists>name. report_file host dev = data_dir @ name \<and> CHR ''/'' \<notin> set name \<and> CHR 0x5C \<notin> set name"
  using report_file_eq report_file_name_safe by blast

text \<open>
  C26: for a healthy device the worker overwrites its record file with the device, and
  asks the LLM to compare it with the record the file held before (or the zero record);
  a device without mount points makes two identical LLM calls, the first one's answer
  being discarded (lines 66-71).
\<close>

lemma recv_device_record:
  "dev_raw_error d = [] \<Longrightarrow> recv_device complete report st d = Inr st' \<Longrightarrow>
   files st' = (files st)(report_file (hostname report) (device d) \<mapsto> d) \<and>
   llm_calls st' = llm_calls st @ replicate (if mount_paths d = [] then 2 else 1) (d, prev_record st report d)"
  using recv_device_healthy by blast

lemma recv_device_record_witness:
  "dev_raw_error \<lparr>device = ''/dev/sda'', dev_type = [], smart_data = ''ok'', dev_raw_error = [], mount_paths = []\<rparr> = [] \<and>
   recv_device (\<lambda>p. Inr [''fine'']) \<lparr>hostname = ''h'', os = ''linux'', timestamp = 1, devices = [], raw_error = []\<rparr>
     \<lparr>files = Map.empty, queued = [], llm_calls = []\<rparr>
     \<lparr>device = ''/dev/sda'', dev_type = [], smart_data = ''ok'', dev_raw_error = [], mount_paths = []\<rparr> =
   Inr \<lparr>files = [report_file ''h'' ''/dev/sda'' \<mapsto>
          \<lparr>device = ''/dev/sda'', dev_type = [], smart_data = ''ok'', dev_raw_error = [], mount_paths = []\<rparr>],
        queued = [NoMountsAnalysisMsg ''h'' ''linux'' ''/dev/sda'' ''fine''],
        llm_calls = replicate 2 (\<lparr>device = ''/dev/sda'', dev_type = [], smart_data = ''ok'', dev_raw_error = [], mount_paths = []\<rparr>, zero_device)\<rparr> \<and>
   length (llm_calls \<lparr>files = [report_file ''h'' ''/dev/sda'' \<mapsto>
          \<lparr>device = ''/dev/sda'', dev_type = [], smart_data = ''ok'', dev_raw_error = [], mount_paths = []\<rparr>],
        queued = [NoMountsAnalysisMsg ''h'' ''linux'' ''/dev/sda'' ''fine''],
        llm_calls = replicate 2 (\<lparr>device = ''/dev/sda'', dev_type = [], smart_data = ''ok'', dev_raw_error = [], mount_paths = []\<rparr>, zero_device)\<rparr>) = 2"
proof -
  let ?d = "\<lparr>device = ''/dev/sda'', dev_type = [], smart_data = ''ok'', dev_raw_error = [], mount_paths = []\<rparr>"
  let ?r = "\<lparr>hostname = ''h'', os = ''linux'', timestamp = 1, devices = [], raw_error = []\<rparr>"
  let ?st = "\<lparr>files = Map.empty, queued = [], llm_calls = []\<rparr>"
  have run: "recv_device (\<lambda>p. Inr [''fine'']) ?r ?st ?d =
     Inr \<lparr>files = [report_file ''h'' ''/dev/sda'' \<mapsto> ?d], queued = [NoMountsAnalysisMsg ''h'' ''linux'' ''/dev/sda'' ''fine''],
          llm_calls = replicate 2 (?d, zero_device)\<rparr>"
    by (simp add: recv_device_def describe_def Let_def numeral_2_eq_2)
  have "llm_calls \<lparr>files = [report_file ''h'' ''/dev/sda'' \<mapsto> ?d], queued = [NoMountsAnalysisMsg ''h'' ''linux'' ''/dev/sda'' ''fine''],
          llm_calls = replicate 2 (?d, zero_device)\<rparr> = [] @ replicate 2 (?d, prev_record ?st ?r ?d)"
    using recv_device_record [OF _ run] by simp
  with run show ?thesis by simp
qed

text \<open>
  The worker queues exactly one Telegram message per report error, and otherwise
  one per device of the report, error or analysis.
\<close>

lemma recv_report_message_count:
  "recv_report complete st report = Inr st' \<Longrightarrow>
   length (queued st') = length (queued st) + (if raw_error report \<noteq> [] then 1 else length (devices report))"
  by (rule recv_report_queued)

lemma recv_report_message_count_witness:
  "recv_report (\<lambda>p. Inr [''fine'']) \<lparr>files = Map.empty, queued = [], llm_calls = []\<rparr>
     \<lparr>hostname = ''h'', os = ''linux'', timestamp = 1, devices = [], raw_error = ''smartctl failed''\<rparr> =
   Inr \<lparr>files = Map.empty, queued = [ReportErrorMsg ''h'' ''linux'' ''smartctl failed''], llm_calls = []\<rparr> \<and>
   length [ReportErrorMsg ''h'' ''linux'' ''smartctl failed''] = 0 + 1"
proof -
  have r: "recv_report (\<lambda>p. Inr [''fine'']) \<lparr>files = Map.empty, queued = [], llm_calls = []\<rparr>
     \<lparr>hostname = ''h'', os = ''linux'', timestamp = 1, devices = [], raw_error = ''smartctl failed''\<rparr> =
   Inr \<lparr>files = Map.empty, queued = [ReportErrorMsg ''h'' ''linux'' ''smartctl failed''], llm_calls = []\<rparr>"
    by (simp add: recv_report_def)
  show ?thesis using recv_report_message_count [OF r] r by simp
qed

text \<open>
  C27: an LLM answer without choices crashes the server: \<open>Choices[0]\<close> panics, for any
  healthy device, whatever the stored record was.
\<close>

lemma recv_device_empty_choices_panics:
  "dev_raw_error d = [] \<Longrightarrow> complete (describe_prompt d (prev_record st report d)) = Inr [] \<Longrightarrow>
   recv_device complete report st d = Inl IndexOutOfRange"
  by (rule recv_device_panic)

lemma recv_device_empty_choices_panics_witness:
  "dev_raw_error \<lparr>device = ''/dev/sda'', dev_type = [], smart_data = ''ok'', dev_raw_error = [], mount_paths = []\<rparr> = [] \<and>
   (\<lambda>p::llm_prompt. Inr [] :: unit + string list)
     (describe_prompt \<lparr>device = ''/dev/sda'', dev_type = [], smart_data = ''ok'', dev_raw_error = [], mount_paths = []\<rparr>
       (prev_record \<lparr>files = Map.empty, queued = [], llm_calls = []\<rparr>
         \<lparr>hostname = ''h'', os = ''linux'', timestamp = 1, devices = [], raw_error = []\<rparr>
         \<lparr>device = ''/dev/sda'', dev_type = [], smart_data = ''ok'', dev_raw_error = [], mount_paths = []\<rparr>)) = Inr [] \<and>
   recv_device (\<lambda>p. Inr []) \<lparr>hostname = ''h'', os = ''linux'', timestamp = 1, devices = [], raw_error = []\<rparr>
     \<lparr>files = Map.empty, queued = [], llm_calls = []\<rparr>
     \<lparr>device = ''/dev/sda'', dev_type = [], smart_data = ''ok'', dev_raw_error = [], mount_paths = []\<rparr> =
   Inl IndexOutOfRange"
  using recv_device_empty_choices_panics [of "\<lparr>device = ''/dev/sda'', dev_type = [], smart_data = ''ok'', dev_raw_error = [], mount_paths = []\<rparr>"
      "\<lambda>p. Inr []"] by simp

text \<open>
  C28: record files of different devices can coincide: host \<open>a_b\<close> with device \<open>c\<close> and
  host \<open>a\<close> with device \<open>b_c\<close> share \<open>a_b_c.json\<close>, so the LLM compares the second
  device with the first one's output as if it were its own history.
\<close>

lemma report_file_collision:
  "report_file ''a_b'' ''c'' = report_file ''a'' ''b_c'' \<and>
   (case recv_worker (\<lambda>p. Inr [''fine'']) \<lparr>files = Map.empty, queued = [], llm_calls = []\<rparr>
     [RecvReport \<lparr>hostname = ''a_b'', os = ''linux'', timestamp = 1,
        devices = [\<lparr>device = ''c'', dev_type = [], smart_data = ''one'', dev_raw_error = [], mount_paths = [''/'']\<rparr>],
        raw_error = []\<rparr>,
      RecvReport \<lparr>hostname = ''a'', os = ''linux'', timestamp = 1,
        devices = [\<lparr>device = ''b_c'', dev_type = [], smart_data = ''two'', dev_raw_error = [], mount_paths = [''/'']\<rparr>],
        raw_error = []\<rparr>] of
      Inl e \<Rightarrow> False
    | Inr st \<Rightarrow>
        llm_calls st =
          [(\<lparr>device = ''c'', dev_type = [], smart_data = ''one'', dev_raw_error = [], mount_paths = [''/'']\<rparr>, zero_device),
           (\<lparr>device = ''b_c'', dev_type = [], smart_data = ''two'', dev_raw_error = [], mount_paths = [''/'']\<rparr>,
            \<lparr>device = ''c'', dev_type = [], smart_data = ''one'', dev_raw_error = [], mount_paths = [''/'']\<rparr>)] \<and>
        queued st = [AnalysisMsg ''a_b'' ''linux'' ''c'' ''/'' ''fine'', AnalysisMsg ''a'' ''linux'' ''b_c'' ''/'' ''fine''])"
  by code_simp

end
