(* ===== verification/Disk_Scan.thy ===== *)
theory Disk_Scan
  imports Server_Reports
begin

text \<open>
  The agent's disk diagnostics, src/internal/disk/smartctl.go (Linux) and
  src/win/smartctl.go (Windows). \<open>getSmartDevices\<close> parses the output of
  \<open>smartctl --scan-open\<close>: one device per line, its name first (quotes trimmed) and its
  type after \<open>-d\<close>, anything after \<open>#\<close> a comment. \<open>runSmartctlCommands\<close> builds the
  arguments of \<open>smartctl -a\<close>; \<open>getMountPaths\<close> (Linux only) picks from
  \<open>/proc/mounts\<close> the mount points of the devices whose name starts with the disk's.
  \<open>SmartReportOnAllDevices\<close> assembles the report the agent posts.

  Running a command is I/O: its outcome is a \<open>cmd_result\<close>, the output or an error text
  with the output, and the commands the code runs are parameters of the model
  (\<open>scan\<close>, \<open>run\<close> applied to the arguments, \<open>mounts\<close> applied to the device name).
  \<open>time.Now()\<close> is the parameter \<open>ts\<close>.
\<close>

datatype cmd_result = CmdOk string | CmdErr string string

text \<open>The Russian prefixes of the two error messages, as their UTF-8 bytes.\<close>

definition scan_error_prefix :: string where
  "scan_error_prefix =
     [CHR 0xD0, CHR 0x9E, CHR 0xD1, CHR 0x88, CHR 0xD0, CHR 0xB8, CHR 0xD0, CHR 0xB1, CHR 0xD0, CHR 0xBA,
      CHR 0xD0, CHR 0xB0, CHR 0x20, CHR 0xD0, CHR 0xBF, CHR 0xD0, CHR 0xBE, CHR 0xD0, CHR 0xBB, CHR 0xD1,
      CHR 0x83, CHR 0xD1, CHR 0x87, CHR 0xD0, CHR 0xB5, CHR 0xD0, CHR 0xBD, CHR 0xD0, CHR 0xB8, CHR 0xD1,
      CHR 0x8F, CHR 0x20, CHR 0xD1, CHR 0x81, CHR 0xD0, CHR 0xBF, CHR 0xD0, CHR 0xB8, CHR 0xD1, CHR 0x81,
      CHR 0xD0, CHR 0xBA, CHR 0xD0, CHR 0xB0, CHR 0x20, CHR 0xD0, CHR 0xB4, CHR 0xD0, CHR 0xB8, CHR 0xD1,
      CHR 0x81, CHR 0xD0, CHR 0xBA, CHR 0xD0, CHR 0xBE, CHR 0xD0, CHR 0xB2, CHR 0x3A, CHR 0x20]"

definition analysis_error_prefix :: string where
  "analysis_error_prefix =
     [CHR 0xD0, CHR 0x9E, CHR 0xD1, CHR 0x88, CHR 0xD0, CHR 0xB8, CHR 0xD0, CHR 0xB1, CHR 0xD0, CHR 0xBA,
      CHR 0xD0, CHR 0xB0, CHR 0x20, CHR 0xD0, CHR 0xB0, CHR 0xD0, CHR 0xBD, CHR 0xD0, CHR 0xB0, CHR 0xD0,
      CHR 0xBB, CHR 0xD0, CHR 0xB8, CHR 0xD0, CHR 0xB7, CHR 0xD0, CHR 0xB0, CHR 0x20]"

subsection \<open>getSmartDevices\<close>

text \<open>smartctl.go lines 25-45: one line of the scan output.\<close>

definition scan_line :: "string \<Rightarrow> smart_device option" where
  "scan_line line0 =
     (let line = go_trim_space (go_cut_before line0 (CHR ''#''))
      in if line = [] then None
         else (case go_fields line of
                 [] \<Rightarrow> None
               | devname # rest \<Rightarrow>
                   (let parts = devname # rest in
                    Some (zero_device\<lparr>device := go_trim_chars devname {CHR 0x22, CHR 0x27},
                                      dev_type := (if length parts > 2 \<and> parts ! 1 = ''-d'' then parts ! 2 else [])\<rparr>))))"

text \<open>Lines 22-47: the loop over the lines.\<close>

fun scan_lines :: "string list \<Rightarrow> smart_device list" where
  "scan_lines [] = []"
| "scan_lines (line # lines) =
     (case scan_line line of None \<Rightarrow> scan_lines lines | Some d \<Rightarrow> d # scan_lines lines)"

text \<open>Lines 15-48.\<close>

definition get_smart_devices :: "cmd_result \<Rightarrow> string + smart_device list" where
  "get_smart_devices scan =
     (case scan of
        CmdErr e out \<Rightarrow> Inl (''smartctl --scan-open failed: '' @ e @ '', output: '' @ out)
      | CmdOk out \<Rightarrow> Inr (scan_lines (go_split out (CHR ''\<newline>''))))"

subsection \<open>runSmartctlCommands\<close>

text \<open>Linux, smartctl.go lines 52-55, and Windows, src/win/smartctl.go lines 53-56.\<close>

definition smartctl_args :: "smart_device \<Rightarrow> string list" where
  "smartctl_args d = (if dev_type d = [] then [''-a'', device d] else [''-d'', dev_type d, ''-a'', device d])"

definition win_smartctl_args :: "smart_device \<Rightarrow> string list" where
  "win_smartctl_args d =
     (if dev_type d = [] then [''-a'', device d, ''-T'', ''permissive'']
      else [''-a'', device d, ''-d'', dev_type d, ''-T'', ''permissive''])"

subsection \<open>getMountPaths\<close>

text \<open>smartctl.go lines 73-90: the mount points of the devices whose name has the prefix.\<close>

fun mount_lines :: "string \<Rightarrow> string list \<Rightarrow> string list" where
  "mount_lines deviceName [] = []"
| "mount_lines deviceName (line # lines) =
     (let fields = go_fields line in
      if line = [] \<or> length fields < 2 then mount_lines deviceName lines
      else if go_has_prefix (fields ! 0) deviceName then fields ! 1 # mount_lines deviceName lines
      else mount_lines deviceName lines)"

text \<open>Lines 64-94.\<close>

definition get_mount_paths :: "cmd_result \<Rightarrow> string \<Rightarrow> string + string list" where
  "get_mount_paths cat deviceName =
     (case cat of
        CmdErr e out \<Rightarrow> Inl (''cat /host/proc/1/mounts failed: '' @ e)
      | CmdOk out \<Rightarrow> Inr (mount_lines deviceName (go_split out (CHR ''\<newline>''))))"

subsection \<open>SmartReportOnAllDevices\<close>

text \<open>Lines 111-119 (Windows 81-89): run \<open>smartctl -a\<close> on one device.\<close>

definition analyse_device :: "(string list \<Rightarrow> cmd_result) \<Rightarrow> (smart_device \<Rightarrow> string list) \<Rightarrow> smart_device \<Rightarrow> smart_device" where
  "analyse_device run args d =
     (case run (args d) of
        CmdErr e result \<Rightarrow>
          d\<lparr>dev_raw_error := analysis_error_prefix @ device d @ ''('' @ dev_type d @ ''):\<newline>'' @ e @ ''\<newline>'' @ result\<rparr>
      | CmdOk result \<Rightarrow> d\<lparr>smart_data := result\<rparr>)"

text \<open>Lines 110-131: the devices with a name, analysed, with their mount points.\<close>

fun collect_devices ::
  "(string list \<Rightarrow> cmd_result) \<Rightarrow> (string \<Rightarrow> cmd_result) \<Rightarrow> smart_device list \<Rightarrow> smart_device list" where
  "collect_devices run mounts [] = []"
| "collect_devices run mounts (d # ds) =
     (if device d \<noteq> [] then
        (let d1 = analyse_device run smartctl_args d in
         (case get_mount_paths (mounts (device d)) (device d) of
            Inl e \<Rightarrow> d1
          | Inr ms \<Rightarrow> d1\<lparr>mount_paths := ms\<rparr>) # collect_devices run mounts ds)
      else collect_devices run mounts ds)"

text \<open>Lines 96-134.\<close>

definition smart_report_on_all_devices ::
  "string \<Rightarrow> int \<Rightarrow> cmd_result \<Rightarrow> (string list \<Rightarrow> cmd_result) \<Rightarrow> (string \<Rightarrow> cmd_result) \<Rightarrow> smart_report" where
  "smart_report_on_all_devices host ts scan run mounts =
     (let report = \<lparr>hostname = host, os = ''linux'', timestamp = ts, devices = [], raw_error = []\<rparr> in
      case get_smart_devices scan of
        Inl e \<Rightarrow> report\<lparr>raw_error := scan_error_prefix @ e\<rparr>
      | Inr devs \<Rightarrow> report\<lparr>devices := collect_devices run mounts devs\<rparr>)"

text \<open>src/win/smartctl.go lines 66-96: the same without mount points.\<close>

definition win_smart_report ::
  "string \<Rightarrow> int \<Rightarrow> cmd_result \<Rightarrow> (string list \<Rightarrow> cmd_result) \<Rightarrow> smart_report" where
  "win_smart_report host ts scan run =
     (let report = \<lparr>hostname = host, os = ''windows'', timestamp = ts, devices = [], raw_error = []\<rparr> in
      case get_smart_devices scan of
        Inl e \<Rightarrow> report\<lparr>raw_error := scan_error_prefix @ e\<rparr>
      | Inr devs \<Rightarrow> report\<lparr>devices := map (analyse_device run win_smartctl_args) (filter (\<lambda>d. device d \<noteq> []) devs)\<rparr>)"

subsection \<open>Lemmas\<close>

text \<open>A scan line as \<open>smartctl --scan-open\<close> prints it: name, type, and the name again as comment.\<close>

definition scan_word :: "string \<Rightarrow> bool" where
  "scan_word w \<longleftrightarrow> w \<noteq> [] \<and> (\<forall>c\<in>set w. visible_ascii c \<and> c \<notin> {CHR ''#'', CHR 0x22, CHR 0x27})"

definition scan_entry_ok :: "smart_device \<Rightarrow> bool" where
  "scan_entry_ok d \<longleftrightarrow> scan_word (device d) \<and> (dev_type d = [] \<or> scan_word (dev_type d))"

definition print_scan_line :: "smart_device \<Rightarrow> string" where
  "print_scan_line d = device d @ (if dev_type d = [] then [] else '' -d '' @ dev_type d) @ '' # '' @ device d"

definition scan_entry :: "smart_device \<Rightarrow> smart_device" where
  "scan_entry d = zero_device\<lparr>device := device d, dev_type := dev_type d\<rparr>"

lemma scan_word_fields:
  "scan_word w \<Longrightarrow> w \<noteq> [] \<and> (\<forall>c\<in>set w. \<not> ascii_space c) \<and> visible_ascii (hd w) \<and> visible_ascii (last w)"
  by (auto simp: scan_word_def visible_not_ascii_space)

lemma dropWhile_none: "\<forall>c\<in>set w. \<not> P c \<Longrightarrow> dropWhile P w = w"
  by (induction w) auto

lemma scan_word_trim: "scan_word w \<Longrightarrow> go_trim_chars w {CHR 0x22, CHR 0x27} = w"
proof -
  assume w: "scan_word w"
  then have "\<forall>c\<in>set w. c \<notin> {CHR 0x22, CHR 0x27}" by (auto simp: scan_word_def)
  then show ?thesis by (simp add: go_trim_chars_def dropWhile_none)
qed

lemma scan_line_print:
  assumes ok: "scan_entry_ok d"
  shows "scan_line (print_scan_line d) = Some (scan_entry d)"
proof -
  let ?w = "device d @ (if dev_type d = [] then [] else '' -d '' @ dev_type d)"
  have n: "scan_word (device d)" using ok by (simp add: scan_entry_ok_def)
  note nf = scan_word_fields [OF n]
  have nohash: "CHR ''#'' \<notin> set ?w" using ok by (auto simp: scan_entry_ok_def scan_word_def)
  have p: "print_scan_line d = ?w @ [CHR '' ''] @ CHR ''#'' # CHR '' '' # device d"
    by (simp add: print_scan_line_def)
  have cut: "go_cut_before (print_scan_line d) (CHR ''#'') = ?w @ [CHR '' '']"
    unfolding p go_cut_before_def using nohash by (subst takeWhile_append2) auto
  have vis: "visible_ascii (hd ?w)" "visible_ascii (last ?w)" "?w \<noteq> []"
    using ok nf by (auto simp: scan_entry_ok_def scan_word_def dest: last_in_set)
  have trim: "go_trim_space (?w @ [CHR '' '']) = ?w" by (rule go_trim_space_visible_space [OF vis(3,1,2)])
  show ?thesis
  proof (cases "dev_type d = []")
    case True
    then have "go_fields ?w = [device d]" using nf by (simp add: go_fields_word)
    then show ?thesis using True cut trim nf scan_word_trim [OF n]
      by (simp add: scan_line_def Let_def scan_entry_def)
  next
    case False
    then have t: "scan_word (dev_type d)" using ok by (simp add: scan_entry_ok_def)
    have f2: "go_fields (''-d'' @ CHR '' '' # dev_type d) = [''-d'', dev_type d]"
      using go_fields_Cons_word [of "''-d''" "CHR '' ''" "dev_type d"] go_fields_word [of "dev_type d"]
        scan_word_fields [OF t] by (simp add: ascii_space_def)
    have "go_fields (device d @ CHR '' '' # (''-d'' @ CHR '' '' # dev_type d)) = device d # [''-d'', dev_type d]"
      using go_fields_Cons_word [of "device d" "CHR '' ''" "''-d'' @ CHR '' '' # dev_type d"] nf f2
      by (simp add: ascii_space_def)
    then have "go_fields ?w = [device d, ''-d'', dev_type d]" using False by simp
    then show ?thesis using False cut trim nf scan_word_trim [OF n]
      by (simp add: scan_line_def Let_def scan_entry_def)
  qed
qed

lemma scan_lines_print:
  "\<forall>d\<in>set devs. scan_entry_ok d \<Longrightarrow> scan_lines (map print_scan_line devs) = map scan_entry devs"
  by (induction devs) (auto simp: scan_line_print)

lemma scan_word_no_newline: "scan_word w \<Longrightarrow> CHR ''\<newline>'' \<notin> set w"
proof -
  have "\<not> visible_ascii (CHR ''\<newline>'')" by (simp add: visible_ascii_def)
  then show "scan_word w \<Longrightarrow> CHR ''\<newline>'' \<notin> set w" unfolding scan_word_def by blast
qed

lemma print_scan_line_no_newline:
  "scan_entry_ok d \<Longrightarrow> CHR ''\<newline>'' \<notin> set (print_scan_line d)"
  unfolding scan_entry_ok_def print_scan_line_def
  by (auto dest: scan_word_no_newline)

text \<open>
  A listing line is a device line or a comment line \<open># ...\<close>, as \<open>smartctl --scan-open\<close>
  prints for a device it could not open.
\<close>

definition listing_line :: "smart_device + string \<Rightarrow> string" where
  "listing_line e = (case e of Inl d \<Rightarrow> print_scan_line d | Inr c \<Rightarrow> CHR ''#'' # c)"

definition listing_ok :: "smart_device + string \<Rightarrow> bool" where
  "listing_ok e \<longleftrightarrow> (case e of Inl d \<Rightarrow> scan_entry_ok d | Inr c \<Rightarrow> CHR ''\<newline>'' \<notin> set c)"

definition listed_devices :: "(smart_device + string) list \<Rightarrow> smart_device list" where
  "listed_devices es = concat (map (\<lambda>e. case e of Inl d \<Rightarrow> [scan_entry d] | Inr c \<Rightarrow> []) es)"

lemma scan_line_comment: "scan_line (CHR ''#'' # c) = None"
  by (simp add: scan_line_def go_cut_before_def)

lemma scan_lines_listing:
  "\<forall>e\<in>set es. listing_ok e \<Longrightarrow> scan_lines (map listing_line es) = listed_devices es"
  by (induction es) (auto simp: listed_devices_def listing_line_def listing_ok_def scan_line_print
                          scan_line_comment split: sum.splits)

lemma listing_line_no_newline: "listing_ok e \<Longrightarrow> CHR ''\<newline>'' \<notin> set (listing_line e)"
  by (auto simp: listing_ok_def listing_line_def print_scan_line_no_newline split: sum.splits)

lemma get_smart_devices_listing:
  "\<forall>e\<in>set es. listing_ok e \<Longrightarrow>
   get_smart_devices (CmdOk (go_join (map listing_line es) ''\<newline>'')) = Inr (listed_devices es)"
proof (cases "es = []")
  case True
  then show ?thesis
    by (simp add: get_smart_devices_def go_split_def scan_line_def go_cut_before_def listed_devices_def)
next
  case False
  assume ok: "\<forall>e\<in>set es. listing_ok e"
  then have "go_split (go_join (map listing_line es) [CHR ''\<newline>'']) (CHR ''\<newline>'') = map listing_line es"
    using False listing_line_no_newline by (intro split_join) auto
  then show ?thesis using ok by (simp add: get_smart_devices_def scan_lines_listing)
qed

lemma get_smart_devices_print:
  "\<forall>d\<in>set devs. scan_entry_ok d \<Longrightarrow>
   get_smart_devices (CmdOk (go_join (map print_scan_line devs) ''\<newline>''))= Inr (map scan_entry devs)"
proof (cases "devs = []")
  case True
  then show ?thesis using True by (simp add: get_smart_devices_def go_split_def scan_line_def go_cut_before_def)
next
  case False
  assume ok: "\<forall>d\<in>set devs. scan_entry_ok d"
  then have "go_split (go_join (map print_scan_line devs) [CHR ''\<newline>'']) (CHR ''\<newline>'') = map print_scan_line devs"
    using False print_scan_line_no_newline by (intro split_join) auto
  then show ?thesis using ok by (simp add: get_smart_devices_def scan_lines_print)
qed

lemma smart_report_fields:
  "hostname (smart_report_on_all_devices host ts scan run mounts) = host \<and>
   os (smart_report_on_all_devices host ts scan run mounts) = ''linux'' \<and>
   timestamp (smart_report_on_all_devices host ts scan run mounts) = ts"
  by (simp add: smart_report_on_all_devices_def Let_def split: sum.splits)

lemma win_smart_report_fields:
  "hostname (win_smart_report host ts scan run) = host \<and> os (win_smart_report host ts scan run) = ''windows'' \<and>
   timestamp (win_smart_report host ts scan run) = ts"
  by (simp add: win_smart_report_def Let_def split: sum.splits)

subsection \<open>Properties of the diagnostics\<close>

text \<open>
  C29: the scan parser inverts \<open>smartctl --scan-open\<close>'s output format: a listing
  whose lines are devices, \<open>NAME [-d TYPE] # NAME\<close> with names and types of visible
  ASCII characters other than \<open>#\<close> and quotes, and comment lines \<open># ...\<close>, parses
  back to exactly the listed devices with their types, in order, the comment lines
  contributing nothing.
\<close>

lemma scan_output_roundtrip:
  "\<forall>e\<in>set es. listing_ok e \<Longrightarrow>
   get_smart_devices (CmdOk (go_join (map listing_line es) ''\<newline>'')) = Inr (listed_devices es)"
  by (rule get_smart_devices_listing)

lemma scan_output_roundtrip_witness:
  "listing_ok (Inl (zero_device\<lparr>device := ''/dev/sda'', dev_type := ''sat''\<rparr>)) \<and>
   listing_ok (Inr '' /dev/sdb -d scsi # /dev/sdb, open failed'') \<and>
   listing_ok (Inl (zero_device\<lparr>device := ''/dev/nvme0'', dev_type := []\<rparr>)) \<and>
   get_smart_devices (CmdOk (go_join (map listing_line
      [Inl (zero_device\<lparr>device := ''/dev/sda'', dev_type := ''sat''\<rparr>), Inr '' /dev/sdb -d scsi # /dev/sdb, open failed'',
       Inl (zero_device\<lparr>device := ''/dev/nvme0'', dev_type := []\<rparr>)]) ''\<newline>'')) =
   Inr [zero_device\<lparr>device := ''/dev/sda'', dev_type := ''sat''\<rparr>, zero_device\<lparr>device := ''/dev/nvme0'', dev_type := []\<rparr>]"
proof -
  have a: "listing_ok (Inl (zero_device\<lparr>device := ''/dev/sda'', dev_type := ''sat''\<rparr>))"
    by (simp add: listing_ok_def scan_entry_ok_def scan_word_def visible_ascii_def zero_device_def)
  have b: "listing_ok (Inr '' /dev/sdb -d scsi # /dev/sdb, open failed'')"
    by (simp add: listing_ok_def)
  have c: "listing_ok (Inl (zero_device\<lparr>device := ''/dev/nvme0'', dev_type := []\<rparr>))"
    by (simp add: listing_ok_def scan_entry_ok_def scan_word_def visible_ascii_def zero_device_def)
  show ?thesis using scan_output_roundtrip [of "[Inl (zero_device\<lparr>device := ''/dev/sda'', dev_type := ''sat''\<rparr>),
      Inr '' /dev/sdb -d scsi # /dev/sdb, open failed'', Inl (zero_device\<lparr>device := ''/dev/nvme0'', dev_type := []\<rparr>)]"] a b c
    by (simp add: listed_devices_def scan_entry_def zero_device_def)
qed

text \<open>
  C30: \<open>getMountPaths\<close> matches devices by string prefix, so the mount points of another
  disk whose name extends this one's are attributed to it: for \<open>/dev/sda\<close> it also
  returns the mount point of \<open>/dev/sdaa1\<close>.
\<close>

lemma mount_paths_prefix_collision:
  "get_mount_paths (CmdOk ''/dev/sda1 /boot ext4 rw 0 0\<newline>/dev/sdaa1 /data xfs rw 0 0\<newline>'') ''/dev/sda'' =
   Inr [''/boot'', ''/data'']"
  by code_simp

end
