(* ===== verification/Win_Install.thy ===== *)
theory Win_Install
  imports Go_Lib
begin

text \<open>
  Installation of the embedded smartmontools on Windows, src/win/savefs.go. The
  executable embeds a directory tree (\<open>//go:embed smartmontools/*\<close>, an \<open>embed.FS\<close>)
  and \<open>copyDir\<close> copies it recursively into the service's data directory. The embedded
  tree is the nested datatype \<open>emb_node\<close> (a directory is its list of named entries, in
  the order \<open>ReadDir\<close> returns them); the destination disk is a store from paths,
  lists of components, to directories and files. \<open>os.MkdirAll\<close> and \<open>os.Create\<close> are
  modelled from their Go implementation on this store. Proved: copying a well-formed
  tree into a fresh destination succeeds and leaves the destination subtree equal to
  the embedded one, every other path unchanged. On an error the copy stops; the disk it
  leaves is not part of the result, since \<open>main\<close> then ends the process.
\<close>

section \<open>The embedded tree and the disk\<close>

datatype emb_node = EmbFile string | EmbDir "(string \<times> emb_node) list"

datatype disk_obj = DiskDir | DiskFile string

type_synonym win_path = "string list"
type_synonym disk = "win_path \<rightharpoonup> disk_obj"

datatype io_error =
    FsNotExist string
  | FsNotDir string
  | DiskNotExist win_path
  | DiskNotDir win_path
  | DiskIsDir win_path

lemma emb_entry_size [termination_simp]:
  "(x, m) \<in> set es \<Longrightarrow> size m < Suc (size_list (size_prod (\<lambda>x. 0) size) es)"
  by (induction es) auto

text \<open>Lookup of a path, as its components, in the embedded tree (\<open>fs.Open\<close>).\<close>

function emb_lookup :: "emb_node \<Rightarrow> string list \<Rightarrow> emb_node option" where
  "emb_lookup n [] = Some n"
| "emb_lookup (EmbFile c) (x # xs) = None"
| "emb_lookup (EmbDir es) (x # xs) = (case map_of es x of None \<Rightarrow> None | Some m \<Rightarrow> emb_lookup m xs)"
  by pat_completeness auto
termination
  by (relation "measure (size \<circ> fst)") (auto dest: map_of_SomeD emb_entry_size)

text \<open>\<open>fs.ReadDir\<close> on a slash-separated path of the embedded tree.\<close>

definition emb_read_dir :: "emb_node \<Rightarrow> string \<Rightarrow> io_error + (string \<times> emb_node) list" where
  "emb_read_dir fs name =
     (case emb_lookup fs (go_split name CHR ''/'') of
        None \<Rightarrow> Inl (FsNotExist name)
      | Some (EmbFile c) \<Rightarrow> Inl (FsNotDir name)
      | Some (EmbDir es) \<Rightarrow> Inr es)"

text \<open>
  \<open>os.MkdirAll\<close>: an existing directory is success, an existing file is \<open>ENOTDIR\<close>;
  otherwise the parent is made first and then the directory itself.
\<close>

fun mkdir_all :: "disk \<Rightarrow> win_path \<Rightarrow> io_error + disk" where
  "mkdir_all d p =
     (case d p of
        Some DiskDir \<Rightarrow> Inr d
      | Some (DiskFile c) \<Rightarrow> Inl (DiskNotDir p)
      | None \<Rightarrow>
          if length p \<le> 1 then Inr (d(p \<mapsto> DiskDir))
          else sbind (mkdir_all d (butlast p)) (\<lambda>d1. Inr (d1(p \<mapsto> DiskDir))))"

declare mkdir_all.simps [simp del]

text \<open>\<open>os.Create\<close>: the parent must be a directory and the path must not be one.\<close>

definition os_create :: "disk \<Rightarrow> win_path \<Rightarrow> io_error + disk" where
  "os_create d p =
     (case d (butlast p) of
        None \<Rightarrow> Inl (DiskNotExist p)
      | Some (DiskFile c) \<Rightarrow> Inl (DiskNotDir p)
      | Some DiskDir \<Rightarrow>
          (case d p of Some DiskDir \<Rightarrow> Inl (DiskIsDir p) | _ \<Rightarrow> Inr (d(p \<mapsto> DiskFile []))))"

section \<open>copyFile and copyDir\<close>

text \<open>
  savefs.go lines 42-59: open the embedded file (which cannot fail for a listed entry,
  so its content is given), create the destination and copy the content into it.
\<close>

definition copy_file :: "string \<Rightarrow> disk \<Rightarrow> win_path \<Rightarrow> io_error + disk" where
  "copy_file content d dstPath = sbind (os_create d dstPath) (\<lambda>d1. Inr (d1(dstPath \<mapsto> DiskFile content)))"

text \<open>
  Lines 11-40. \<open>copy_node\<close> is \<open>copyDir\<close> on a directory already read
  (\<open>fs.ReadDir(srcPath)\<close> of a listed directory returns its entries), \<open>copy_entries\<close>
  its loop over the entries; \<open>srcPath\<close> is the slash path of the entry and
  \<open>dstPath\<close> the destination path with the entry's name appended.
\<close>

fun copy_entries :: "string \<Rightarrow> win_path \<Rightarrow> (string \<times> emb_node) list \<Rightarrow> disk \<Rightarrow> io_error + disk"
and copy_node :: "string \<Rightarrow> win_path \<Rightarrow> emb_node \<Rightarrow> disk \<Rightarrow> io_error + disk" where
  "copy_node srcDir dstDir (EmbFile c) d = Inl (FsNotDir srcDir)"
| "copy_node srcDir dstDir (EmbDir es) d = copy_entries srcDir dstDir es d"
| "copy_entries srcDir dstDir [] d = Inr d"
| "copy_entries srcDir dstDir ((name, n) # es) d =
     (let srcPath = srcDir @ ''/'' @ name; dstPath = dstDir @ [name] in
      sbind (case n of
               EmbDir _ \<Rightarrow> sbind (mkdir_all d dstPath) (copy_node srcPath dstPath n)
             | EmbFile content \<Rightarrow> copy_file content d dstPath)
        (copy_entries srcDir dstDir es))"

definition copy_dir :: "emb_node \<Rightarrow> string \<Rightarrow> win_path \<Rightarrow> disk \<Rightarrow> io_error + disk" where
  "copy_dir fs srcDir dstDir d = sbind (emb_read_dir fs srcDir) (\<lambda>es. copy_entries srcDir dstDir es d)"

section \<open>Properties of copyDir\<close>

text \<open>\<open>ReadDir\<close> lists distinct names: every directory of the tree has distinct entry names.\<close>

fun emb_wf :: "emb_node \<Rightarrow> bool" where
  "emb_wf (EmbFile c) = True"
| "emb_wf (EmbDir es) = (distinct (map fst es) \<and> list_all (\<lambda>(x, m). emb_wf m) es)"

definition emb_obj :: "emb_node \<Rightarrow> disk_obj" where
  "emb_obj n = (case n of EmbFile c \<Rightarrow> DiskFile c | EmbDir es \<Rightarrow> DiskDir)"

text \<open>Nothing on the disk below \<open>dst\<close> under the names of \<open>es\<close>.\<close>

definition fresh_below :: "win_path \<Rightarrow> (string \<times> emb_node) list \<Rightarrow> disk \<Rightarrow> bool" where
  "fresh_below dst es d \<longleftrightarrow> (\<forall>x rest. x \<in> fst ` set es \<longrightarrow> d (dst @ x # rest) = None)"

text \<open>The disk \<open>d\<close> with the entries \<open>es\<close> mirrored below \<open>dst\<close>.\<close>

definition mirror :: "win_path \<Rightarrow> (string \<times> emb_node) list \<Rightarrow> disk \<Rightarrow> disk" where
  "mirror dst es d =
     (\<lambda>p. if take (length dst) p = dst \<and> length dst < length p
          then (case map_of es (p ! length dst) of
                  None \<Rightarrow> d p
                | Some m \<Rightarrow> map_option emb_obj (emb_lookup m (drop (Suc (length dst)) p)))
          else d p)"

lemma below_iff: "(take (length dst) p = dst \<and> length dst < length p) \<longleftrightarrow> (\<exists>x rest. p = dst @ x # rest)"
proof
  assume a: "take (length dst) p = dst \<and> length dst < length p"
  then have "p = dst @ drop (length dst) p" by (metis append_take_drop_id)
  moreover have "drop (length dst) p \<noteq> []" using a by simp
  ultimately show "\<exists>x rest. p = dst @ x # rest" by (metis list.exhaust)
qed auto

lemma drop_below [simp]: "drop (Suc (length dst)) (dst @ x # rest) = rest"
  by (induction dst) auto

lemma mirror_app [simp]:
  "mirror dst es d (dst @ x # rest) =
     (case map_of es x of None \<Rightarrow> d (dst @ x # rest) | Some m \<Rightarrow> map_option emb_obj (emb_lookup m rest))"
  by (simp add: mirror_def split: option.split)

lemma mirror_other: "(\<forall>x rest. p \<noteq> dst @ x # rest) \<Longrightarrow> mirror dst es d p = d p"
  using below_iff [of dst p] by (auto simp: mirror_def)

lemma mirror_Nil [simp]: "mirror dst [] d = d"
  by (rule ext) (simp add: mirror_def)

lemma mkdir_all_fresh:
  "d dst = Some DiskDir \<Longrightarrow> d (dst @ [x]) = None \<Longrightarrow> mkdir_all d (dst @ [x]) = Inr (d(dst @ [x] \<mapsto> DiskDir))"
  by (simp add: mkdir_all.simps)

lemma copy_file_fresh:
  "d dst = Some DiskDir \<Longrightarrow> d (dst @ [x]) = None \<Longrightarrow> copy_file c d (dst @ [x]) = Inr (d(dst @ [x] \<mapsto> DiskFile c))"
  by (simp add: copy_file_def os_create_def)

lemma mirror_app_sub [simp]:
  "mirror (dst @ [a]) es d (dst @ a # x # rest) =
     (case map_of es x of None \<Rightarrow> d (dst @ a # x # rest) | Some m \<Rightarrow> map_option emb_obj (emb_lookup m rest))"
  using mirror_app [of "dst @ [a]" es d x rest] by (simp split: option.split)

lemma mirror_cons_file:
  assumes "name \<notin> fst ` set es" and "\<forall>rest. d (dst @ name # rest) = None"
  shows "mirror dst es (d(dst @ [name] \<mapsto> DiskFile c)) = mirror dst ((name, EmbFile c) # es) d"
proof
  have mn: "map_of es name = None" using assms(1) by (simp add: map_of_eq_None_iff)
  fix p
  show "mirror dst es (d(dst @ [name] \<mapsto> DiskFile c)) p = mirror dst ((name, EmbFile c) # es) d p"
  proof (cases "\<exists>x rest. p = dst @ x # rest")
    case True
    then obtain x rest where p: "p = dst @ x # rest" by blast
    show ?thesis
    proof (cases "x = name")
      case True
      then show ?thesis using assms p mn by (cases rest) (auto simp: emb_obj_def)
    qed (use p in \<open>auto split: option.split\<close>)
  next
    case False
    then show ?thesis by (auto simp: mirror_other)
  qed
qed

lemma mirror_cons_dir:
  assumes "name \<notin> fst ` set es" and "\<forall>rest. d (dst @ name # rest) = None"
  shows "mirror dst es (mirror (dst @ [name]) es' (d(dst @ [name] \<mapsto> DiskDir))) =
         mirror dst ((name, EmbDir es') # es) d"
proof
  have mn: "map_of es name = None" using assms(1) by (simp add: map_of_eq_None_iff)
  fix p
  show "mirror dst es (mirror (dst @ [name]) es' (d(dst @ [name] \<mapsto> DiskDir))) p = mirror dst ((name, EmbDir es') # es) d p"
  proof (cases "\<exists>x rest. p = dst @ x # rest")
    case True
    then obtain x rest where p: "p = dst @ x # rest" by blast
    show ?thesis
    proof (cases "x = name")
      case True
      show ?thesis
      proof (cases rest)
        case Nil
        then show ?thesis using assms p True mn by (auto simp: emb_obj_def mirror_other)
      next
        case (Cons y r)
        then show ?thesis using assms p True mn by (auto split: option.split)
      qed
    next
      case False
      then show ?thesis using p by (auto simp: mirror_other split: option.split)
    qed
  next
    case False
    then show ?thesis by (auto simp: mirror_other)
  qed
qed

lemma copy_mirror:
  shows "emb_wf (EmbDir es) \<Longrightarrow> fresh_below dst es d \<Longrightarrow> d dst = Some DiskDir \<Longrightarrow>
         copy_entries src dst es d = Inr (mirror dst es d)"
    and "emb_wf n \<Longrightarrow> n = EmbDir es' \<Longrightarrow> fresh_below dst es' d \<Longrightarrow> d dst = Some DiskDir \<Longrightarrow>
         copy_node src dst n d = Inr (mirror dst es' d)"
proof (induction src dst es d and src dst n d arbitrary: and es' rule: copy_entries_copy_node.induct)
  case (4 srcDir dstDir name n es d)
  have nm: "name \<notin> fst ` set es" and wfn: "emb_wf n" and wfes: "emb_wf (EmbDir es)"
    using "4.prems"(1) by auto
  have fr: "\<forall>rest. d (dstDir @ name # rest) = None" using "4.prems"(2) by (simp add: fresh_below_def)
  have new: "d (dstDir @ [name]) = None" using fr by simp
  show ?case
  proof (cases n)
    case (EmbFile c)
    let ?d1 = "d(dstDir @ [name] \<mapsto> DiskFile c)"
    have "fresh_below dstDir es ?d1" using "4.prems"(2) nm by (auto simp: fresh_below_def)
    moreover have "?d1 dstDir = Some DiskDir" using "4.prems"(3) by simp
    ultimately have "copy_entries srcDir dstDir es ?d1 = Inr (mirror dstDir es ?d1)"
      using "4.IH"(2) wfes by blast
    then show ?thesis using EmbFile copy_file_fresh [OF "4.prems"(3) new] mirror_cons_file [OF nm fr] by simp
  next
    case (EmbDir es')
    let ?d1 = "d(dstDir @ [name] \<mapsto> DiskDir)"
    let ?d2 = "mirror (dstDir @ [name]) es' ?d1"
    have fr1: "fresh_below (dstDir @ [name]) es' ?d1" using fr by (simp add: fresh_below_def)
    have dd: "?d1 (dstDir @ [name]) = Some DiskDir" by simp
    have "copy_node (srcDir @ ''/'' @ name) (dstDir @ [name]) n ?d1 = Inr ?d2"
      by (rule "4.IH"(1) [OF refl refl EmbDir wfn EmbDir fr1 dd])
    moreover have "fresh_below dstDir es ?d2"
      unfolding fresh_below_def
    proof (intro allI impI)
      fix x rest
      assume x: "x \<in> fst ` set es"
      then have xn: "x \<noteq> name" using nm by auto
      then have "\<forall>y r. dstDir @ x # rest \<noteq> (dstDir @ [name]) @ y # r" by simp
      then have "?d2 (dstDir @ x # rest) = ?d1 (dstDir @ x # rest)" by (rule mirror_other)
      then show "?d2 (dstDir @ x # rest) = None" using "4.prems"(2) x xn by (simp add: fresh_below_def)
    qed
    moreover have "?d2 dstDir = Some DiskDir" using "4.prems"(3) by (simp add: mirror_other)
    ultimately show ?thesis
      using EmbDir "4.IH"(2) wfes mkdir_all_fresh [OF "4.prems"(3) new] mirror_cons_dir [OF nm fr] by simp
  qed
qed auto

lemma emb_lookup_append:
  "emb_lookup n (xs @ ys) = (case emb_lookup n xs of None \<Rightarrow> None | Some m \<Rightarrow> emb_lookup m ys)"
  by (induction n xs rule: emb_lookup.induct) (auto split: option.split)

lemma emb_wf_lookup: "emb_wf n \<Longrightarrow> emb_lookup n p = Some m \<Longrightarrow> emb_wf m"
proof (induction n p rule: emb_lookup.induct)
  case (3 es x xs)
  then obtain m' where "map_of es x = Some m'" and "emb_lookup m' xs = Some m"
    by (auto split: option.splits)
  moreover have "emb_wf m'"
    using "3.prems"(1) map_of_SomeD [OF calculation(1)] by (auto simp: list_all_iff)
  ultimately show ?case using "3.IH" by blast
qed auto

lemma copy_dir_mirror:
  assumes "emb_wf fs" and "emb_lookup fs (go_split src CHR ''/'') = Some (EmbDir es)"
    and "d dst = Some DiskDir" and "\<forall>x rest. d (dst @ x # rest) = None"
  shows "copy_dir fs src dst d = Inr (mirror dst es d)"
proof -
  have "emb_wf (EmbDir es)" using emb_wf_lookup [OF assms(1,2)] .
  moreover have "fresh_below dst es d" using assms(4) by (simp add: fresh_below_def)
  ultimately show ?thesis
    using copy_mirror(1) assms(2,3) by (simp add: copy_dir_def emb_read_dir_def)
qed

lemma mirror_mirrors:
  assumes "d dst = Some DiskDir" and "\<forall>x rest. d (dst @ x # rest) = None"
  shows "mirror dst es d (dst @ rel) = map_option emb_obj (emb_lookup (EmbDir es) rel)"
proof (cases rel)
  case Nil
  then show ?thesis using assms(1) by (simp add: mirror_other emb_obj_def)
next
  case (Cons x rest)
  then show ?thesis using assms(2) by (simp split: option.split)
qed

lemma mirror_outside: "take (length dst) p \<noteq> dst \<Longrightarrow> mirror dst es d p = d p"
  by (simp add: mirror_def)

subsection \<open>Claims\<close>

text \<open>
  C32: \<open>copyDir\<close> installs the embedded tree: on a tree whose directories list distinct
  names, copying the directory \<open>src\<close> into an existing destination directory with
  nothing below it succeeds, after which every path below the destination holds
  exactly what the embedded tree holds at the same path below \<open>src\<close> (a directory
  for a directory, the content for a file, nothing where the tree has nothing), and
  every path outside the destination is unchanged.
\<close>

lemma copy_dir_installs:
  assumes "emb_wf fs" and "emb_lookup fs (go_split src CHR ''/'') = Some (EmbDir es)"
    and "d dst = Some DiskDir" and "\<forall>x rest. d (dst @ x # rest) = None"
  shows "\<exists>d'. copy_dir fs src dst d = Inr d' \<and>
           (\<forall>rel. d' (dst @ rel) = map_option emb_obj (emb_lookup fs (go_split src CHR ''/'' @ rel))) \<and>
           (\<forall>p. take (length dst) p \<noteq> dst \<longrightarrow> d' p = d p)"
proof (intro exI conjI allI impI)
  show "copy_dir fs src dst d = Inr (mirror dst es d)" by (rule copy_dir_mirror [OF assms])
  fix rel
  show "mirror dst es d (dst @ rel) = map_option emb_obj (emb_lookup fs (go_split src CHR ''/'' @ rel))"
    using mirror_mirrors [OF assms(3,4)] assms(2) by (simp add: emb_lookup_append)
next
  fix p
  assume "take (length dst) p \<noteq> dst"
  then show "mirror dst es d p = d p" by (rule mirror_outside)
qed

lemma copy_dir_installs_witness:
  "emb_wf (EmbDir [(''smartmontools'', EmbDir [(''bin'', EmbDir [(''smartctl.exe'', EmbFile ''MZ'')])])]) \<and>
   emb_lookup (EmbDir [(''smartmontools'', EmbDir [(''bin'', EmbDir [(''smartctl.exe'', EmbFile ''MZ'')])])])
     (go_split ''smartmontools'' CHR ''/'') = Some (EmbDir [(''bin'', EmbDir [(''smartctl.exe'', EmbFile ''MZ'')])]) \<and>
   (Map.empty([''C:''] \<mapsto> DiskDir, [''C:'', ''SMARTDataCollector''] \<mapsto> DiskDir)) [''C:'', ''SMARTDataCollector''] = Some DiskDir \<and>
   (\<forall>x rest. (Map.empty([''C:''] \<mapsto> DiskDir, [''C:'', ''SMARTDataCollector''] \<mapsto> DiskDir))
      ([''C:'', ''SMARTDataCollector''] @ x # rest) = None) \<and>
   (\<exists>d'. copy_dir (EmbDir [(''smartmontools'', EmbDir [(''bin'', EmbDir [(''smartctl.exe'', EmbFile ''MZ'')])])])
      ''smartmontools'' [''C:'', ''SMARTDataCollector''] (Map.empty([''C:''] \<mapsto> DiskDir, [''C:'', ''SMARTDataCollector''] \<mapsto> DiskDir)) = Inr d' \<and>
      d' [''C:'', ''SMARTDataCollector'', ''bin'', ''smartctl.exe''] = Some (DiskFile ''MZ''))"
proof -
  let ?fs = "EmbDir [(''smartmontools'', EmbDir [(''bin'', EmbDir [(''smartctl.exe'', EmbFile ''MZ'')])])]"
  let ?d = "Map.empty([''C:''] \<mapsto> DiskDir, [''C:'', ''SMARTDataCollector''] \<mapsto> DiskDir)"
  have h1: "emb_wf ?fs" by simp
  have h2: "emb_lookup ?fs (go_split ''smartmontools'' CHR ''/'') = Some (EmbDir [(''bin'', EmbDir [(''smartctl.exe'', EmbFile ''MZ'')])])"
    by (simp add: go_split_def)
  have h3: "?d [''C:'', ''SMARTDataCollector''] = Some DiskDir" by simp
  have h4: "\<forall>x rest. ?d ([''C:'', ''SMARTDataCollector''] @ x # rest) = None" by simp
  obtain d' where c: "copy_dir ?fs ''smartmontools'' [''C:'', ''SMARTDataCollector''] ?d = Inr d'"
    and m: "\<forall>rel. d' ([''C:'', ''SMARTDataCollector''] @ rel) =
                 map_option emb_obj (emb_lookup ?fs (go_split ''smartmontools'' CHR ''/'' @ rel))"
    using copy_dir_installs [OF h1 h2 h3 h4] by blast
  have "d' [''C:'', ''SMARTDataCollector'', ''bin'', ''smartctl.exe''] = Some (DiskFile ''MZ'')"
    using m [rule_format, of "[''bin'', ''smartctl.exe'']"] by (simp add: go_split_def emb_obj_def)
  then show ?thesis using h1 h2 h3 h4 c by blast
qed

end
