(* ===== verification/Win_Service.thy ===== *)
theory Win_Service
  imports Disk_Scan Cron_Schedule Win_Install
begin

text \<open>
  The Windows agent's service object and its report posting: the \<open>smartService\<close>
  struct and \<open>collectAndSaveSMARTData\<close> (src/win/service.go) and \<open>sendReport\<close>
  (src/win/sendreport.go). The JSON encoding, the request constructor and the HTTP
  round trip are parameters (\<open>marshal\<close>, \<open>new_request\<close>, \<open>do_request\<close>); the request
  the agent sends is an \<open>http_request\<close> of the server model, so that the server's
  handler can be plugged in as the other end of \<open>do_request\<close>.
\<close>

section \<open>The service object\<close>

text \<open>
  service.go lines 15-22. \<open>schedule\<close> is the pointer set by \<open>main\<close> after parsing
  \<open>Cron\<close>; \<open>programData\<close> is the data directory as a list of path components.
\<close>

record smart_service =
  Hostname :: string
  ApiURL :: string
  Token :: string
  Cron :: string
  schedule :: "cron_schedule option"
  programData :: win_path

section \<open>sendReport\<close>

text \<open>
  The four error returns of sendreport.go lines 12-42, in their order: serialisation,
  request construction, transport, and a status outside 200-299. The Russian messages
  are the constructors.
\<close>

datatype send_error = MarshalFailed string | RequestFailed string | DoFailed string | BadStatus nat

definition send_report ::
  "('r \<Rightarrow> string + string) \<Rightarrow> (string \<Rightarrow> string + unit) \<Rightarrow> (string \<Rightarrow> http_request \<Rightarrow> string + nat) \<Rightarrow>
   string \<Rightarrow> string \<Rightarrow> 'r \<Rightarrow> send_error + unit" where
  "send_report marshal new_request do_request apiURL token report =
     (case marshal report of
        Inl e \<Rightarrow> Inl (MarshalFailed e)
      | Inr data \<Rightarrow>
          (case new_request apiURL of
             Inl e \<Rightarrow> Inl (RequestFailed e)
           | Inr u \<Rightarrow>
               (case do_request apiURL \<lparr>auth_header = ''Bearer '' @ token, req_body = Some data\<rparr> of
                  Inl e \<Rightarrow> Inl (DoFailed e)
                | Inr status \<Rightarrow> if status < 200 \<or> status \<ge> 300 then Inl (BadStatus status) else Inr ())))"

text \<open>
  service.go lines 55-62: collect the report of all devices and post it; the error is
  logged and the service goes on.
\<close>

definition collect_and_save ::
  "(smart_report \<Rightarrow> string + string) \<Rightarrow> (string \<Rightarrow> string + unit) \<Rightarrow> (string \<Rightarrow> http_request \<Rightarrow> string + nat) \<Rightarrow>
   int \<Rightarrow> cmd_result \<Rightarrow> (string list \<Rightarrow> cmd_result) \<Rightarrow> smart_service \<Rightarrow> send_error + unit" where
  "collect_and_save marshal new_request do_request ts scan run m =
     send_report marshal new_request do_request (ApiURL m) (Token m) (win_smart_report (Hostname m) ts scan run)"

text \<open>
  The status the client reads from the server's response: \<open>http.Error\<close> writes its
  code, and a handler that writes nothing answers 200 (package net/http).
\<close>

definition response_status :: "http_response \<Rightarrow> nat" where
  "response_status r = (case r of HttpError code msg \<Rightarrow> code | HttpOk \<Rightarrow> 200)"

text \<open>
  What the handler reads of a header value the client set: net/http's client writes
  it with CR and LF turned into spaces and surrounding white space removed
  (\<open>Header.Write\<close>, \<open>textproto.TrimString\<close>), and the server's reader drops leading
  and trailing white space again, so \<open>r.Header.Get\<close> returns the trimmed value.
\<close>

definition header_transport :: "string \<Rightarrow> string" where
  "header_transport v =
     go_trim_chars (map (\<lambda>c. if c = CHR 0x0A \<or> c = CHR 0x0D then CHR '' '' else c) v)
       {CHR '' '', CHR 0x09, CHR 0x0A, CHR 0x0D}"

text \<open>
  The collector as the agent's HTTP peer: \<open>NewHttpServer\<close> (src/internal/api/http.go,
  lines 15-27) routes \<open>POST /smart/report\<close> to \<open>handleSmartReport\<close>, which sees the
  Authorization value after the transport; any other path is answered 404 by the
  request multiplexer. \<open>base\<close> is the server's address.
\<close>

definition collector ::
  "string \<Rightarrow> (string \<Rightarrow> smart_report option) \<Rightarrow> string \<Rightarrow> string \<Rightarrow> http_request \<Rightarrow> string + nat" where
  "collector base unmarshal token url r =
     (if url = base @ ''/smart/report''
      then Inr (response_status (fst (handle_smart_report unmarshal token
                                       (r\<lparr>auth_header := header_transport (auth_header r)\<rparr>))))
      else Inr 404)"

section \<open>The smartctl command lines\<close>

text \<open>
  src/win/smartctl.go lines 15-17 and 51-58: both commands run \<open>smartctl.exe\<close> of
  the data directory (\<open>filepath.Join(programData, "smartctl.exe")\<close>), the listing with
  \<open>--scan-open\<close> and the analysis of one device with \<open>win_smartctl_args\<close>; the output
  is then parsed by the same code as on Linux (\<open>get_smart_devices\<close>).
\<close>

definition win_scan_command :: "win_path \<Rightarrow> win_path \<times> string list" where
  "win_scan_command dataDir = (dataDir @ [''smartctl.exe''], [''--scan-open''])"

definition win_smartctl_command :: "win_path \<Rightarrow> smart_device \<Rightarrow> win_path \<times> string list" where
  "win_smartctl_command dataDir dev = (dataDir @ [''smartctl.exe''], win_smartctl_args dev)"

section \<open>The event log\<close>

text \<open>
  src/win/log.go: \<open>logEvent\<close> and \<open>logErrorf\<close> write the formatted message to the
  Windows event log when \<open>elog\<close> is set (\<open>None\<close> is the nil \<open>elog\<close>) and always to
  the standard logger. \<open>fmt.Sprintf\<close> is done by the caller: the message is given.
\<close>

datatype log_level = LogInfo | LogError

record log_sinks =
  elog :: "(log_level \<times> string) list option"
  std_log :: "string list"

definition log_to :: "log_level \<Rightarrow> string \<Rightarrow> log_sinks \<Rightarrow> log_sinks" where
  "log_to level msg st =
     (let st1 = (case elog st of None \<Rightarrow> st | Some ev \<Rightarrow> st\<lparr>elog := Some (ev @ [(level, msg)])\<rparr>)
      in st1\<lparr>std_log := std_log st1 @ [msg]\<rparr>)"

definition log_event :: "string \<Rightarrow> log_sinks \<Rightarrow> log_sinks" where
  "log_event msg st = log_to LogInfo msg st"

definition log_errorf :: "string \<Rightarrow> log_sinks \<Rightarrow> log_sinks" where
  "log_errorf msg st = log_to LogError msg st"

section \<open>Lemmas\<close>

lemma log_to_sinks:
  "std_log (log_to level msg st) = std_log st @ [msg] \<and>
   elog (log_to level msg st) = map_option (\<lambda>ev. ev @ [(level, msg)]) (elog st)"
  by (cases "elog st") (simp_all add: log_to_def)

lemma send_report_ok_iff:
  "send_report marshal new_request do_request url token r = Inr () \<longleftrightarrow>
   (\<exists>data u status. marshal r = Inr data \<and> new_request url = Inr u \<and>
      do_request url \<lparr>auth_header = ''Bearer '' @ token, req_body = Some data\<rparr> = Inr status \<and>
      200 \<le> status \<and> status < 300)"
  by (auto simp: send_report_def split: sum.splits)

lemma send_report_status:
  "marshal r = Inr data \<Longrightarrow> new_request url = Inr u \<Longrightarrow>
   do_request url \<lparr>auth_header = ''Bearer '' @ token, req_body = Some data\<rparr> = Inr status \<Longrightarrow>
   send_report marshal new_request do_request url token r =
     (if status < 200 \<or> status \<ge> 300 then Inl (BadStatus status) else Inr ())"
  by (simp add: send_report_def)

lemma response_status_handler:
  "response_status (fst (handle_smart_report unmarshal token r)) \<in> {200, 400, 401}"
  by (auto simp: response_status_def handle_smart_report_def Let_def split: option.splits)




text \<open>A report posted to the collector's address, decoded as sent: the three outcomes.\<close>

lemma post_to_collector:
  assumes "marshal r = Inr data" and "unmarshal data = Some r" and "timestamp r \<noteq> 0" and "os r \<noteq> []"
    and "new_request url = Inr u" and "url = base @ ''/smart/report''"
  shows "send_report marshal new_request (collector base unmarshal token) url tok r =
           (if header_transport (''Bearer '' @ tok) \<noteq> ''Bearer '' @ token then Inl (BadStatus 401)
            else if hostname r = [] then Inl (BadStatus 400) else Inr ()) \<and>
         snd (handle_smart_report unmarshal token
                \<lparr>auth_header = header_transport (''Bearer '' @ tok), req_body = Some data\<rparr>) =
           (if header_transport (''Bearer '' @ tok) = ''Bearer '' @ token \<and> hostname r \<noteq> [] then [r] else [])"
  using assms by (simp add: send_report_def collector_def response_status_def handle_smart_report_def)

subsection \<open>Claims\<close>


end
