(* ===== verification/Bootstrap.thy ===== *)
theory Bootstrap
  imports Win_Service
begin

text \<open>
  Process start-up. \<open>main\<close> of src/cmd/tgsmctl/main.go reads the environment, decides
  from \<open>MODE\<close> whether to run the agent, the server or both, parses the schedule
  (\<open>CRON_SCHEDULE\<close>, \<open>55 23 * * *\<close> when unset) and starts the workers; \<open>main\<close> of
  src/win/main.go installs the embedded smartmontools, reads settings.ini and parses
  the schedule before handing the service object to the service manager. Both end the
  process with \<open>log.Fatal\<close> on an error; the model returns the fatal error or the
  configuration the workers are started with. The environment is a function from
  variable names to values, \<open>""\<close> for an unset variable, as \<open>os.Getenv\<close> returns.
\<close>

type_synonym env = "string \<Rightarrow> string"

section \<open>Linux: src/cmd/tgsmctl/main.go\<close>

text \<open>Lines 36-40: the loop over the comma-separated modes.\<close>

fun mode_flags :: "bool \<times> bool \<Rightarrow> string list \<Rightarrow> bool \<times> bool" where
  "mode_flags (isAgent, isServer) [] = (isAgent, isServer)"
| "mode_flags (isAgent, isServer) (mode # modes) =
     mode_flags (isAgent \<or> go_equal_fold (go_trim_space mode) ''agent'',
                 isServer \<or> go_equal_fold (go_trim_space mode) ''server'') modes"

text \<open>What \<open>workerSendReports\<close> (line 67) and the server workers (lines 86-101) are given.\<close>

record agent_conf =
  agent_api_url :: string
  agent_token :: string
  agent_hostname :: string
  agent_schedule :: cron_schedule

record server_conf =
  server_token :: string
  server_hostname :: string
  telegram_token :: string
  telegram_chat_id :: string
  openai_base_url :: string
  openai_api_key :: string
  openai_model :: string

datatype boot_error = CronFatal schedule_error | BotFatal string

datatype boot = BootFatal boot_error | BootRun "agent_conf option" "server_conf option"

definition default_cron :: string where
  "default_cron = ''55 23 * * *''"

text \<open>
  Lines 21-107. \<open>tele.NewBot\<close>, which contacts the Telegram API, is the parameter
  \<open>new_bot\<close>; the HTTP server, the signal context and the wait group are not modelled.
\<close>

definition linux_main :: "env \<Rightarrow> (string \<Rightarrow> string + unit) \<Rightarrow> boot" where
  "linux_main env new_bot =
     (let modes = go_split (env ''MODE'') CHR '','';
          token = env ''HTTP_AUTH_TOKEN'';
          hostname = env ''SMART_HOSTNAME'';
          apiUrl = env ''COLLECTOR_URL'';
          cronSched0 = go_trim_chars (env ''CRON_SCHEDULE'') {CHR 0x22};
          cronSched = (if cronSched0 = [] then default_cron else cronSched0);
          flags = mode_flags (False, False) modes;
          srv = \<lparr>server_token = token, server_hostname = hostname,
                 telegram_token = env ''TELEGRAM_BOT_TOKEN'', telegram_chat_id = env ''TELEGRAM_CHAT_ID'',
                 openai_base_url = env ''OPENAI_BASE_URL'', openai_api_key = env ''OPENAI_API_KEY'',
                 openai_model = env ''OPENAI_MODEL''\<rparr>;
          agent = (if fst flags
                   then (case new_cron_schedule_from_string cronSched of
                           Inl e \<Rightarrow> Inl e
                         | Inr sched \<Rightarrow> Inr (Some \<lparr>agent_api_url = apiUrl, agent_token = token,
                                                  agent_hostname = hostname, agent_schedule = sched\<rparr>))
                   else Inr None)
      in case agent of
           Inl e \<Rightarrow> BootFatal (CronFatal e)
         | Inr ag \<Rightarrow>
             if snd flags
             then (case new_bot (env ''TELEGRAM_BOT_TOKEN'') of
                     Inl e \<Rightarrow> BootFatal (BotFatal e)
                   | Inr u \<Rightarrow> BootRun ag (Some srv))
             else BootRun ag None)"

section \<open>Windows: src/win/main.go\<close>

text \<open>
  settings.ini as \<open>main\<close> sees it: absent (the \<open>os.Stat\<close> check fails), unreadable
  (\<open>ini.Load\<close> or \<open>GetSection("Config")\<close> fails), or the keys of section \<open>Config\<close>, a
  missing key reading as \<open>""\<close>.
\<close>

datatype settings_file = NoSettings | SettingsUnreadable string | Settings "string \<Rightarrow> string"

datatype win_fatal = CopyFatal io_error | SettingsFatal string | ServiceCronFatal schedule_error

definition service_name :: string where
  "service_name = ''SMARTDataCollector''"

text \<open>
  A Windows path as its components: \<open>filepath.Join\<close> cleans the path, so empty
  components (doubled or trailing separators) disappear.
\<close>

definition win_path_of :: "string \<Rightarrow> win_path" where
  "win_path_of s = filter (\<lambda>c. c \<noteq> []) (go_split s (CHR 0x5C))"

text \<open>Lines 49-54: the data directory, \<open>%PROGRAMDATA%\\SMARTDataCollector\<close> or \<open>C:\\SMARTDataCollector\<close>.\<close>

definition win_data_dir :: "string \<Rightarrow> win_path" where
  "win_data_dir programDataEnv =
     win_path_of (if programDataEnv = [] then ''C:'' @ [CHR 0x5C] else programDataEnv) @ [service_name]"

text \<open>
  Lines 49-105. The error of \<open>os.MkdirAll\<close> on the data directory is ignored, as in
  the source; \<open>os.Hostname\<close> is the parameter \<open>osHostname\<close>; the event log, the
  service manager and \<open>os.Executable\<close> are not modelled.
\<close>

definition win_main ::
  "string \<Rightarrow> string \<Rightarrow> settings_file \<Rightarrow> emb_node \<Rightarrow> disk \<Rightarrow> win_fatal + smart_service \<times> disk" where
  "win_main programDataEnv osHostname settings fs d =
     (let programData = win_data_dir programDataEnv;
          d1 = (case mkdir_all d programData of Inl e \<Rightarrow> d | Inr d' \<Rightarrow> d');
          sms0 = \<lparr>Hostname = osHostname, ApiURL = [], Token = [], Cron = [], schedule = None, programData = []\<rparr>
      in case copy_dir fs ''smartmontools'' programData d1 of
           Inl e \<Rightarrow> Inl (CopyFatal e)
         | Inr d2 \<Rightarrow>
             (case (case settings of
                      NoSettings \<Rightarrow> Inr sms0
                    | SettingsUnreadable e \<Rightarrow> Inl (SettingsFatal e)
                    | Settings key \<Rightarrow>
                        Inr (sms0\<lparr>Hostname := key ''hostname'', ApiURL := key ''apiUrl'',
                                  Token := key ''token'', Cron := key ''cron''\<rparr>)) of
                Inl e \<Rightarrow> Inl e
              | Inr sms \<Rightarrow>
                  (case new_cron_schedule_from_string (Cron sms) of
                     Inl e \<Rightarrow> Inl (ServiceCronFatal e)
                   | Inr sch \<Rightarrow> Inr (sms\<lparr>schedule := Some sch, programData := programData\<rparr>, d2))))"

section \<open>Lemmas\<close>

lemma mode_flags_exists:
  "mode_flags (a, s) modes =
     (a \<or> (\<exists>m\<in>set modes. go_equal_fold (go_trim_space m) ''agent''),
      s \<or> (\<exists>m\<in>set modes. go_equal_fold (go_trim_space m) ''server''))"
  by (induction modes arbitrary: a s) auto

lemma empty_cron_rejected: "new_cron_schedule_from_string [] = Inl (InvalidCronString [] 1)"
  by code_simp

lemma trim_space_agent: "go_trim_space ''agent'' = ''agent''"
  by (rule go_trim_space_visible) (simp_all add: visible_ascii_def)

lemma linux_main_agent_fatal:
  "fst (mode_flags (False, False) (go_split (env ''MODE'') CHR '','')) \<Longrightarrow>
   go_trim_chars (env ''CRON_SCHEDULE'') {CHR 0x22} = s \<Longrightarrow> s \<noteq> [] \<Longrightarrow>
   new_cron_schedule_from_string s = Inl e \<Longrightarrow> linux_main env new_bot = BootFatal (CronFatal e)"
  by (simp add: linux_main_def Let_def)

lemma win_main_Inr:
  "win_main pd host settings fs d = Inr (sms, d') \<Longrightarrow>
   copy_dir fs ''smartmontools'' (win_data_dir pd)
     (case mkdir_all d (win_data_dir pd) of Inl e \<Rightarrow> d | Inr d1 \<Rightarrow> d1) = Inr d' \<and>
   programData sms = win_data_dir pd"
  by (auto simp: win_main_def Let_def split: sum.splits settings_file.splits)

lemma win_data_dir_snoc: "win_data_dir pd = butlast (win_data_dir pd) @ [service_name]"
  by (simp add: win_data_dir_def)

text \<open>
  After a successful start on a disk where the data directory's parent exists and
  nothing is at or below the data directory, the data directory mirrors the embedded
  smartmontools folder.
\<close>

lemma win_main_mirrors:
  assumes "emb_wf fs" and "emb_lookup fs [''smartmontools''] = Some (EmbDir es)"
    and "d (butlast (win_data_dir pd)) = Some DiskDir" and "\<forall>rest. d (win_data_dir pd @ rest) = None"
    and "win_main pd host settings fs d = Inr (sms, d')"
  shows "programData sms = win_data_dir pd \<and>
         (\<forall>rel. d' (win_data_dir pd @ rel) = map_option emb_obj (emb_lookup fs (''smartmontools'' # rel)))"
proof -
  let ?P = "win_data_dir pd"
  let ?d1 = "d(?P \<mapsto> DiskDir)"
  have mk: "mkdir_all d ?P = Inr ?d1"
    using mkdir_all_fresh [of d "butlast ?P" service_name] assms(3,4) win_data_dir_snoc [of pd]
    by (metis append_Nil2)
  have c: "copy_dir fs ''smartmontools'' ?P ?d1 = Inr d'" and p: "programData sms = ?P"
    using win_main_Inr [OF assms(5)] mk by simp_all
  have split: "go_split ''smartmontools'' CHR ''/'' = [''smartmontools'']" by (simp add: go_split_def)
  have d1: "?d1 ?P = Some DiskDir" "\<forall>x rest. ?d1 (?P @ x # rest) = None" using assms(4) by simp_all
  have l: "emb_lookup fs (go_split ''smartmontools'' CHR ''/'') = Some (EmbDir es)"
    using assms(2) split by simp
  have "copy_dir fs ''smartmontools'' ?P ?d1 = Inr (mirror ?P es ?d1)"
    by (rule copy_dir_mirror [OF assms(1) l d1])
  then have "d' = mirror ?P es ?d1" using c by simp
  moreover have m: "mirror ?P es ?d1 (?P @ rel) = map_option emb_obj (emb_lookup (EmbDir es) rel)" for rel
    by (rule mirror_mirrors [OF d1])
  moreover have "emb_lookup fs (''smartmontools'' # rel) = emb_lookup (EmbDir es) rel" for rel
    using emb_lookup_append [of fs "[''smartmontools'']" rel] assms(2) by simp
  ultimately show ?thesis using p by simp
qed

subsection \<open>Claims\<close>

text \<open>
  C34: with \<open>agent\<close> among the comma-separated modes (in any case, surrounded by
  spaces or not), \<open>server\<close> not among them and \<open>CRON_SCHEDULE\<close> unset (or only
  quotes), \<open>main\<close> starts exactly the agent worker, with the collector URL, token and
  host name of the environment and the schedule "23:55 every day".
\<close>

theorem linux_agent_default_schedule:
  assumes "\<exists>m\<in>set (go_split (env ''MODE'') CHR '',''). go_equal_fold (go_trim_space m) ''agent''"
    and "\<not> (\<exists>m\<in>set (go_split (env ''MODE'') CHR '',''). go_equal_fold (go_trim_space m) ''server'')"
    and "go_trim_chars (env ''CRON_SCHEDULE'') {CHR 0x22} = []"
  shows "linux_main env new_bot =
           BootRun (Some \<lparr>agent_api_url = env ''COLLECTOR_URL'', agent_token = env ''HTTP_AUTH_TOKEN'',
                          agent_hostname = env ''SMART_HOSTNAME'',
                          agent_schedule = \<lparr>minutes = [55], hours = [23], days = [1..31],
                                             months = [1..12], weekDays = [0..6]\<rparr>\<rparr>) None"
  using assms default_schedule by (simp add: linux_main_def Let_def mode_flags_exists default_cron_def)

theorem linux_agent_default_schedule_witness:
  "(\<exists>m\<in>set (go_split ''Agent'' CHR '',''). go_equal_fold (go_trim_space m) ''agent'') \<and>
   \<not> (\<exists>m\<in>set (go_split ''Agent'' CHR '',''). go_equal_fold (go_trim_space m) ''server'') \<and>
   go_trim_chars [] {CHR 0x22} = [] \<and>
   linux_main (\<lambda>v. if v = ''MODE'' then ''Agent'' else []) (\<lambda>t. Inr ()) =
     BootRun (Some \<lparr>agent_api_url = [], agent_token = [], agent_hostname = [],
                    agent_schedule = \<lparr>minutes = [55], hours = [23], days = [1..31],
                                       months = [1..12], weekDays = [0..6]\<rparr>\<rparr>) None"
proof -
  have m: "go_split ''Agent'' CHR '','' = [''Agent'']" by (simp add: go_split_def)
  have t: "go_trim_space ''Agent'' = ''Agent''"
    by (rule go_trim_space_visible) (simp_all add: visible_ascii_def)
  have ns: "\<not> go_equal_fold ''Agent'' ''server''" by code_simp
  have a: "\<exists>m\<in>set (go_split ''Agent'' CHR '',''). go_equal_fold (go_trim_space m) ''agent''"
    using go_equal_fold_Agent by (simp add: m t)
  have b: "\<not> (\<exists>m\<in>set (go_split ''Agent'' CHR '',''). go_equal_fold (go_trim_space m) ''server'')"
    using ns by (simp add: m t)
  have c: "go_trim_chars [] {CHR 0x22} = []" by (simp add: go_trim_chars_def)
  show ?thesis
    using linux_agent_default_schedule [of "\<lambda>v. if v = ''MODE'' then ''Agent'' else []" "\<lambda>t. Inr ()"] a b c
    by simp
qed

text \<open>
  C35: an invalid \<open>CRON_SCHEDULE\<close> in agent mode ends the process before any worker
  starts: \<open>main\<close> checks the schedule before it creates the Telegram bot, so in the mode
  \<open>agent,server\<close> the server does not run either, whatever the other variables hold.
\<close>

theorem linux_bad_cron_fatal:
  assumes "\<exists>m\<in>set (go_split (env ''MODE'') CHR '',''). go_equal_fold (go_trim_space m) ''agent''"
    and "go_trim_chars (env ''CRON_SCHEDULE'') {CHR 0x22} = s" and "s \<noteq> []"
    and "new_cron_schedule_from_string s = Inl e"
  shows "linux_main env new_bot = BootFatal (CronFatal e)"
  using linux_main_agent_fatal [of env s e new_bot] assms by (simp add: mode_flags_exists)

theorem linux_bad_cron_fatal_witness:
  "(\<exists>m\<in>set (go_split ''agent,server'' CHR '',''). go_equal_fold (go_trim_space m) ''agent'') \<and>
   go_trim_chars ''* * * *'' {CHR 0x22} = ''* * * *'' \<and> ''* * * *'' \<noteq> [] \<and>
   new_cron_schedule_from_string ''* * * *'' = Inl (InvalidCronString ''* * * *'' 4) \<and>
   linux_main (\<lambda>v. if v = ''MODE'' then ''agent,server'' else if v = ''CRON_SCHEDULE'' then ''* * * *'' else [])
     (\<lambda>t. Inr ()) = BootFatal (CronFatal (InvalidCronString ''* * * *'' 4))"
proof -
  have a: "\<exists>m\<in>set (go_split ''agent,server'' CHR '',''). go_equal_fold (go_trim_space m) ''agent''"
    by (simp add: go_split_def trim_space_agent)
  have b: "go_trim_chars ''* * * *'' {CHR 0x22} = ''* * * *''" by (simp add: go_trim_chars_def)
  have c: "new_cron_schedule_from_string ''* * * *'' = Inl (InvalidCronString ''* * * *'' 4)" by code_simp
  show ?thesis
    using linux_bad_cron_fatal [of "\<lambda>v. if v = ''MODE'' then ''agent,server'' else if v = ''CRON_SCHEDULE'' then ''* * * *'' else []"]
      a b c by simp
qed

text \<open>
  C36: the Windows service never starts without a schedule: when settings.ini is absent,
  or has no \<open>cron\<close> key, \<open>Cron\<close> stays \<open>""\<close>, which \<open>NewCronScheduleFromString\<close>
  rejects (one part instead of five), so \<open>main\<close> ends with that error, unless copying
  smartmontools failed before. The Linux agent falls back to \<open>55 23 * * *\<close> instead.
\<close>

theorem win_main_needs_cron:
  assumes "settings = NoSettings \<or> (\<exists>key. settings = Settings key \<and> key ''cron'' = [])"
  shows "(\<exists>e. win_main pd host settings fs d = Inl (CopyFatal e)) \<or>
         win_main pd host settings fs d = Inl (ServiceCronFatal (InvalidCronString [] 1))"
  using assms empty_cron_rejected by (auto simp: win_main_def Let_def split: sum.split)

theorem win_main_needs_cron_witness:
  "(NoSettings = NoSettings \<or> (\<exists>key. NoSettings = Settings key \<and> key ''cron'' = [])) \<and>
   ((\<exists>e. win_main [] ''pc'' NoSettings (EmbDir [(''smartmontools'', EmbDir [])]) Map.empty = Inl (CopyFatal e)) \<or>
    win_main [] ''pc'' NoSettings (EmbDir [(''smartmontools'', EmbDir [])]) Map.empty =
      Inl (ServiceCronFatal (InvalidCronString [] 1)))"
  using win_main_needs_cron [of NoSettings "[]" "''pc''" "EmbDir [(''smartmontools'', EmbDir [])]" Map.empty]
  by simp

text \<open>
  C37: the Windows service runs the \<open>smartctl.exe\<close> it installed: after a successful
  start on a disk where the data directory's parent exists and nothing is at or below
  the data directory, the executable of both \<open>smartctl\<close> commands (the device listing
  and the analysis of any device) is the file \<open>smartmontools/smartctl.exe\<close> embedded in
  the program, with its content (or nothing, if the embedded tree has no such file).
\<close>

theorem win_service_runs_installed_smartctl:
  assumes "emb_wf fs" and "emb_lookup fs [''smartmontools''] = Some (EmbDir es)"
    and "d (butlast (win_data_dir pd)) = Some DiskDir" and "\<forall>rest. d (win_data_dir pd @ rest) = None"
    and "win_main pd host settings fs d = Inr (sms, d')"
  shows "d' (fst (win_scan_command (programData sms))) =
           map_option emb_obj (emb_lookup fs [''smartmontools'', ''smartctl.exe'']) \<and>
         d' (fst (win_smartctl_command (programData sms) dev)) =
           map_option emb_obj (emb_lookup fs [''smartmontools'', ''smartctl.exe''])"
  using win_main_mirrors [OF assms] by (simp add: win_scan_command_def win_smartctl_command_def)

theorem win_service_runs_installed_smartctl_witness:
  "emb_wf (EmbDir [(''smartmontools'', EmbDir [(''smartctl.exe'', EmbFile ''MZ'')])]) \<and>
   (Map.empty([''C:''] \<mapsto> DiskDir)) (butlast (win_data_dir [])) = Some DiskDir \<and>
   (\<exists>sms d'. win_main [] ''pc'' (Settings (\<lambda>k. if k = ''cron'' then ''55 23 * * *'' else []))
                (EmbDir [(''smartmontools'', EmbDir [(''smartctl.exe'', EmbFile ''MZ'')])])
                (Map.empty([''C:''] \<mapsto> DiskDir)) = Inr (sms, d') \<and>
              d' (fst (win_scan_command (programData sms))) = Some (DiskFile ''MZ''))"
proof -
  let ?fs = "EmbDir [(''smartmontools'', EmbDir [(''smartctl.exe'', EmbFile ''MZ'')])]"
  let ?d = "Map.empty([''C:''] \<mapsto> DiskDir) :: disk"
  let ?st = "Settings (\<lambda>k. if k = ''cron'' then ''55 23 * * *'' else [])"
  have dd: "win_data_dir [] = [''C:'', ''SMARTDataCollector'']"
    by (simp add: win_data_dir_def win_path_of_def go_split_def service_name_def)
  have h1: "emb_wf ?fs" by simp
  have h2: "emb_lookup ?fs [''smartmontools''] = Some (EmbDir [(''smartctl.exe'', EmbFile ''MZ'')])" by simp
  have h3: "?d (butlast (win_data_dir [])) = Some DiskDir" by (simp add: dd)
  have h4: "\<forall>rest. ?d (win_data_dir [] @ rest) = None" by (simp add: dd)
  have "\<exists>p. win_main [] ''pc'' ?st ?fs ?d = Inr p"
    by (simp add: win_main_def dd mkdir_all.simps copy_dir_def emb_read_dir_def go_split_def
        copy_file_def os_create_def default_schedule Let_def)
  then obtain sms d' where w: "win_main [] ''pc'' ?st ?fs ?d = Inr (sms, d')" by auto
  have "d' (fst (win_scan_command (programData sms))) = Some (DiskFile ''MZ'')"
    using win_service_runs_installed_smartctl [OF h1 h2 h3 h4 w] by (simp add: emb_obj_def)
  then show ?thesis using h1 h3 w by blast
qed

end
