(* ===== verification/Llm_Describer.thy ===== *)
theory Llm_Describer
  imports Server_Reports
begin

text \<open>
  The LLM client of the server, src/internal/llmdesc/llm.go: \<open>NewLLMDescriber\<close>, the
  two system prompts, and the chat request \<open>Describe\<close> builds. The theory
  \<open>Server_Reports\<close> models \<open>Describe\<close> over the abstract choice of prompt
  (\<open>describe_prompt\<close>, \<open>describe\<close>); here the prompt is turned into the messages and
  the request actually sent, with the source's texts as byte strings (non-ASCII bytes and
  quotes written as \<open>CHR\<close> codes), and \<open>describe_with\<close> is \<open>Describe\<close> with the chat
  completion call on that request as its parameter.
\<close>

section \<open>The client and the request\<close>

text \<open>Lines 14-30: the describer keeps the OpenAI client's settings and the model name.\<close>

record llm_describer =
  llm_base_url :: string
  llm_api_key :: string
  llm_model :: string

definition new_llm_describer :: "string \<Rightarrow> string \<Rightarrow> string \<Rightarrow> llm_describer" where
  "new_llm_describer baseUrl apiKey model = \<lparr>llm_base_url = baseUrl, llm_api_key = apiKey, llm_model = model\<rparr>"

datatype chat_message = SystemMessage string | UserMessage string

record chat_request =
  req_messages :: "chat_message list"
  req_model :: string

section \<open>The prompts\<close>

text \<open>Lines 33-56, the raw string \<open>NewDiskSysPrompt\<close>.\<close>

definition new_disk_sys_prompt :: string where
  "new_disk_sys_prompt =
     ''You are an expert in evaluating hard drive health using S.M.A.R.T. data.  '' @ [CHR 0x0A] @
      ''Carefully analyze the following key parameters from the provided '' @ [CHR 0x27] @
      ''smartctl -a'' @ [CHR 0x27] @ '' output:  '' @ [CHR 0x0A] @ ''- Drive temperature  '' @
      [CHR 0x0A] @ ''- Power-on hours (age)  '' @ [CHR 0x0A] @
      ''- Total host reads/writes (data volume handled)  '' @ [CHR 0x0A] @
      ''- Reallocated sectors (Reallocated_Sector_Ct, Reallocated_Event_Count)  '' @ [CHR 0x0A] @
      ''- Uncorrectable errors (UDMA_CRC_Error_Count, Uncorrectable_Error_Count, etc.)  '' @
      [CHR 0x0A] @
      ''- Wear leveling count, available spare, percentage used, or other endurance indicators (especially for SSDs/NVMe)  '' @
      [CHR 0x0A] @ ''- Any reallocated, pending, or offline uncorrectable sectors  '' @
      [CHR 0x0A] @ ''- Other critical or warning-level SMART attributes  '' @
      [CHR 0x0A, CHR 0x0A] @
      ''Respond **in Russian**, using a concise paragraph followed by a structured summary with emojis:  '' @
      [CHR 0x0A, CHR 0xE2, CHR 0x80, CHR 0x9A, CHR 0xC3, CHR 0xBA, CHR 0xC3, CHR 0x96] @
      '' = good condition, '' @
      [CHR 0xE2, CHR 0x80, CHR 0x9A, CHR 0xC3, CHR 0xB6, CHR 0xE2, CHR 0x80, CHR 0xA0, CHR 0xC3, CHR 0x94, CHR 0xE2, CHR 0x88, CHR 0x8F, CHR 0xC3, CHR 0xA8] @
      '' = requires attention, '' @
      [CHR 0xEF, CHR 0xA3, CHR 0xBF, CHR 0xC3, CHR 0xBC, CHR 0xC3, CHR 0xAE, CHR 0xC2, CHR 0xA5] @
      '' = critical issue  '' @ [CHR 0x0A, CHR 0x0A] @ ''Use this exact response format:'' @
      [CHR 0x0A, CHR 0x0A] @
      ''[Brand] [Model], [Type: HDD/SSD/NVMe], [Form factor], [Memory type if applicable], TBW: [value], MTBF: [value], Speed: [value], Capacity: [value].'' @
      [CHR 0x0A, CHR 0x0A, CHR 0xE2, CHR 0x80, CHR 0x9A, CHR 0xC3, CHR 0xBA, CHR 0xC3, CHR 0x96] @
      ''/'' @
      [CHR 0xE2, CHR 0x80, CHR 0x9A, CHR 0xC3, CHR 0xB6, CHR 0xE2, CHR 0x80, CHR 0xA0, CHR 0xC3, CHR 0x94, CHR 0xE2, CHR 0x88, CHR 0x8F, CHR 0xC3, CHR 0xA8] @
      ''/'' @
      [CHR 0xEF, CHR 0xA3, CHR 0xBF, CHR 0xC3, CHR 0xBC, CHR 0xC3, CHR 0xAE, CHR 0xC2, CHR 0xA5] @
      '' [Brief overall assessment highlighting key findings]'' @
      [CHR 0x0A, CHR 0x0A, CHR 0xEF, CHR 0xA3, CHR 0xBF, CHR 0xC3, CHR 0xBC, CHR 0xC3, CHR 0xAE, CHR 0xC3, CHR 0x9F] @
      '' [Actionable advice: e.g., backup data, replace soon, monitor, etc.]'' @
      [CHR 0x0A, CHR 0x0A, CHR 0xEF, CHR 0xA3, CHR 0xBF, CHR 0xC3, CHR 0xBC, CHR 0xC3, CHR 0xAC, CHR 0xC3, CHR 0xA5] @
      '' [Critical note if needed: e.g., imminent failure risk, high reallocated sectors, etc.]'' @
      [CHR 0x0A]"

text \<open>Lines 58-86, the raw string \<open>CompareSysPrompt\<close>.\<close>

definition compare_sys_prompt :: string where
  "compare_sys_prompt =
     ''You are an expert in evaluating storage drive health using S.M.A.R.T. data.'' @ [CHR 0x0A] @
      ''Analyze **both the current and the previous '' @ [CHR 0x27] @ ''smartctl -a'' @
      [CHR 0x27] @
      '' outputs** to assess not only the absolute values but also **trends and changes over time**.'' @
      [CHR 0x0A, CHR 0x0A] @
      ''**Important**: A detailed assessment of drive condition is required **only if problems are detected**.'' @
      [CHR 0x0A] @
      ''- An increase in recorded data (e.g., power-on hours, total host reads/writes) is **not** a problem by itself '' @
      [CHR 0xE2, CHR 0x80, CHR 0x9A, CHR 0xC3, CHR 0x84, CHR 0xC3, CHR 0xAE] @
      '' it is normal operational growth.'' @ [CHR 0x0A] @
      ''- Do **not** generate recommendations or detailed analysis if no issues are present.'' @
      [CHR 0x0A, CHR 0x0A] @ ''**Specifically evaluate for signs of degradation or failure**:'' @
      [CHR 0x0A] @
      ''- Changes in temperature patterns (unexpected spikes or sustained high temps)'' @
      [CHR 0x0A] @
      ''- **Increase** in reallocated sectors, pending sectors, uncorrectable errors, or offline uncorrectable counts'' @
      [CHR 0x0A] @ ''- Degradation in wear leveling count, available spare percentage, or '' @
      [CHR 0xE2, CHR 0x80, CHR 0x9A, CHR 0xC3, CHR 0x84, CHR 0xC3, CHR 0xBA] @
      ''Percentage Used'' @
      [CHR 0xE2, CHR 0x80, CHR 0x9A, CHR 0xC3, CHR 0x84, CHR 0xC3, CHR 0xB9] @
      '' (for SSDs/NVMe)'' @ [CHR 0x0A] @
      ''- Any new warning or critical SMART flags that were not present before'' @ [CHR 0x0A] @
      ''- Rate of deterioration (e.g., how fast sectors are being reallocated or spare space is being consumed)'' @
      [CHR 0x0A, CHR 0x0A] @ ''**Response rules**:'' @ [CHR 0x0A] @ ''- Respond **in Russian**'' @
      [CHR 0x0A] @
      ''- If **no problems detected**: Provide only a **brief, one-line assessment** with no recommendations or detailed analysis.'' @
      [CHR 0x0A] @
      ''- If **problems detected**: Provide a concise paragraph followed by a structured summary.'' @
      [CHR 0x0A, CHR 0x0A] @ ''Use this exact response format:'' @ [CHR 0x0A, CHR 0x0A] @
      ''[Brand] [Model], [Type: HDD/SSD/NVMe], [Form factor], [Memory type if applicable], TBW: [value], MTBF: [value], Speed: [value], Capacity: [value], Power-on hours: [value], Total written: [terabytes].'' @
      [CHR 0x0A, CHR 0x0A, CHR 0xE2, CHR 0x80, CHR 0x9A, CHR 0xC3, CHR 0xBA, CHR 0xC3, CHR 0x96] @
      ''/'' @
      [CHR 0xE2, CHR 0x80, CHR 0x9A, CHR 0xC3, CHR 0xB6, CHR 0xE2, CHR 0x80, CHR 0xA0, CHR 0xC3, CHR 0x94, CHR 0xE2, CHR 0x88, CHR 0x8F, CHR 0xC3, CHR 0xA8] @
      ''/'' @
      [CHR 0xEF, CHR 0xA3, CHR 0xBF, CHR 0xC3, CHR 0xBC, CHR 0xC3, CHR 0xAE, CHR 0xC2, CHR 0xA5] @
      '' [Brief overall assessment '' @
      [CHR 0xE2, CHR 0x80, CHR 0x9A, CHR 0xC3, CHR 0x84, CHR 0xC3, CHR 0xAE] @
      '' only highlight changes if issues exist.]'' @
      [CHR 0x0A, CHR 0x0A, CHR 0xEF, CHR 0xA3, CHR 0xBF, CHR 0xC3, CHR 0xBC, CHR 0xC3, CHR 0xAE, CHR 0xC3, CHR 0x9F] @
      '' [Actionable advice '' @
      [CHR 0xE2, CHR 0x80, CHR 0x9A, CHR 0xC3, CHR 0x84, CHR 0xC3, CHR 0xAE] @
      '' **only if problems are present**. Growth in power-on hours or total LBA written (TBW) is expected over time and must not be interpreted as a problem]'' @
      [CHR 0x0A, CHR 0x0A, CHR 0xEF, CHR 0xA3, CHR 0xBF, CHR 0xC3, CHR 0xBC, CHR 0xC3, CHR 0xAC, CHR 0xC3, CHR 0xA5] @
      '' [Critical observation about degradation speed, sudden error spikes, or imminent failure risk '' @
      [CHR 0xE2, CHR 0x80, CHR 0x9A, CHR 0xC3, CHR 0x84, CHR 0xC3, CHR 0xAE] @
      '' **only if problems are present**. Growth in power-on hours or total LBA written (TBW) is expected over time and must not be interpreted as a problem.]'' @
      [CHR 0x0A]"

text \<open>Line 103: the user message for a disk seen for the first time.\<close>

definition new_disk_user_message :: "string \<Rightarrow> string" where
  "new_disk_user_message text =
     ''Now analyze the following '' @ [CHR 0x27] @ ''smartctl -a'' @ [CHR 0x27] @
      '' output and provide your assessment (in Russian):'' @ [CHR 0x0A, CHR 0x0A] @ text"

text \<open>Lines 110-117: the user message comparing the previous and the current output.\<close>

definition compare_user_message :: "string \<Rightarrow> string \<Rightarrow> string" where
  "compare_user_message prev text =
     ''Now analyze the following data and provide your assessment (in Russian):'' @
      [CHR 0x0A, CHR 0x0A] @ ''**Previous '' @ [CHR 0x27] @ ''smartctl -a'' @ [CHR 0x27] @
      '' output:**  '' @ [CHR 0x0A] @ prev @
     [CHR 0x0A, CHR 0x0A] @ ''**Current '' @ [CHR 0x27] @ ''smartctl -a'' @ [CHR 0x27] @
      '' output:**  '' @ [CHR 0x0A] @ text"

section \<open>Describe\<close>

text \<open>Lines 97-120: the messages of each kind of prompt.\<close>

definition prompt_messages :: "llm_prompt \<Rightarrow> chat_message list" where
  "prompt_messages p =
     (case p of
        NewDiskPrompt text \<Rightarrow> [SystemMessage new_disk_sys_prompt, UserMessage (new_disk_user_message text)]
      | ComparePrompt prev text \<Rightarrow> [SystemMessage compare_sys_prompt, UserMessage (compare_user_message prev text)])"

text \<open>Lines 122-127: the request, with the describer's model.\<close>

definition chat_request_of :: "llm_describer \<Rightarrow> llm_prompt \<Rightarrow> chat_request" where
  "chat_request_of s p = \<lparr>req_messages = prompt_messages p, req_model = llm_model s\<rparr>"

text \<open>
  Lines 89-137: \<open>Describe\<close> with the completion call \<open>complete\<close> on the request
  (\<open>s.llm.Chat.Completions.New\<close>); the mutex only serialises calls.
\<close>

definition describe_with ::
  "(chat_request \<Rightarrow> unit + string list) \<Rightarrow> llm_describer \<Rightarrow> smart_device \<Rightarrow> smart_device \<Rightarrow> go_panic + string" where
  "describe_with complete s dev prev = describe (\<lambda>p. complete (chat_request_of s p)) dev prev"

section \<open>Lemmas\<close>

lemma new_disk_user_message_output:
  "drop (length (new_disk_user_message [])) (new_disk_user_message text) = text"
  by (simp add: new_disk_user_message_def)

text \<open>
  The request \<open>Describe\<close> sends: the describer's model, the comparison prompt exactly
  when the previous record has an output, and the current output at the end of the
  user message, after the previous one when there is one.
\<close>

lemma describe_request:
  "chat_request_of (new_llm_describer b k m) (describe_prompt dev prev) =
     \<lparr>req_messages =
        (if smart_data prev = []
         then [SystemMessage new_disk_sys_prompt, UserMessage (new_disk_user_message (smart_data dev))]
         else [SystemMessage compare_sys_prompt, UserMessage (compare_user_message (smart_data prev) (smart_data dev))]),
      req_model = m\<rparr>"
  by (simp add: chat_request_of_def new_llm_describer_def describe_prompt_def prompt_messages_def)

lemma sys_prompts_differ: "new_disk_sys_prompt \<noteq> compare_sys_prompt"
  by (simp add: new_disk_sys_prompt_def compare_sys_prompt_def)

end
