(* ===== verification/Spec2Isabelle.thy ===== *)
theory Spec2Isabelle
  imports Agent_Loop Tele_Message Bootstrap Llm_Describer
begin

text \<open>
  \<^bold>\<open>A verified model of smart-control: cron engine, agents, server and start-up.\<close>

  smart-control (src/) is a pair of Go programs that collect S.M.A.R.T. disk reports:
  an agent (src/cmd/tgsmctl in agent mode, and the Windows service in src/win) runs
  \<open>smartctl\<close> on a cron schedule and posts the report over HTTP to a server, which relays
  it to Telegram (src/internal/api) after an optional LLM summary (src/internal/llmdesc).
  The only part with non-trivial logic of its own is the cron engine,
  src/internal/cron/cron.go (the Windows service imports a package of the same interface
  that is not part of src/): it parses a five-field cron expression into sorted value lists and computes, by a
  forward search over the calendar, the next time the schedule fires. The agent's
  report loop (src/cmd/tgsmctl/worker-send.go, src/win/service.go) sleeps until that
  time, sends a report and asks \<open>NextRun\<close> again with the time it just fired at.

  \<^bold>\<open>Theories.\<close>
  \<^item> \<open>Prelude\<close>: the named theorem collections, the error monad \<open>sbind\<close> on
    \<open>error + 'a\<close> (Go's \<open>value, err\<close> returns), and facts on strictly sorted lists.
  \<^item> \<open>Go_Lib\<close>: the Go library functions the cron package calls, modelled from their
    documentation (Go strings are byte strings, a \<open>string\<close> here): \<open>strings.Split\<close>
    (\<open>go_split\<close>), \<open>strings.Contains\<close>, \<open>strings.TrimSpace\<close> (with the UTF-8 encodings of
    the Unicode white space), \<open>strconv.Atoi\<close> (\<open>go_atoi\<close>, with the sign and the 64-bit
    range check) and \<open>sort.SearchInts\<close> (\<open>search_ints\<close>, the binary search loop of
    \<open>sort.Search\<close>, proved equal to the lower bound on sorted input); for the other
    packages \<open>strconv.ParseInt\<close>, \<open>unicode.IsSpace\<close>, bounds-checked indexing with its
    panic (\<open>go_index\<close>), \<open>strings.Cut\<close>, \<open>Trim\<close>, \<open>HasPrefix\<close>, \<open>Fields\<close> and
    \<open>EqualFold\<close> (ASCII case folding).
  \<^item> \<open>Cron_Field\<close>: \<open>parseCronField\<close> (cron.go 191-303) as \<open>parse_cron_field\<close>, one
    function per branch of its loop (\<open>parse_range\<close>, \<open>parse_step\<close> with \<open>step_base\<close> and
    \<open>step_loop\<close>, \<open>parse_value\<close>), the de-duplication loop \<open>dedupe\<close> and the final
    \<open>sort.Ints\<close>; every \<open>fmt.Errorf\<close> is a constructor of \<open>field_error\<close>. The lemmas
    show that results are well formed (strictly increasing, within bounds), that a
    field written from canonical items (\<open>print_field\<close>) parses back to exactly the
    values the items denote, and the error branches.
  \<^item> \<open>Cron_Schedule\<close>: the \<open>CronSchedule\<close> struct as a record, \<open>NewCronSchedule\<close> and
    \<open>NewCronScheduleFromString\<close> (cron.go 20-62), \<open>contains\<close> (305-310) and
    \<open>dayMatches\<close> (171-189); the day rule of the specification on sets (\<open>day_rule\<close>) and
    the proof that \<open>dayMatches\<close> and the binary-search \<open>contains\<close> implement it.
  \<^item> \<open>Cron_Calendar\<close>: the loop cursor (year, month, day, hour, minute) as a record,
    month lengths and weekdays (Go's \<open>time.Date\<close>, proleptic Gregorian, modelled
    from its documentation), and the order of time \<open>tkey\<close>.
  \<^item> \<open>Cron_NextRun\<close>: \<open>NextRun\<close> (cron.go 64-169). The loop body is \<open>nextrun_step\<close>,
    composed of \<open>carry\<close>, the month and day tests and \<open>hour_step\<close> / \<open>minute_step\<close>;
    it ends in \<open>Continue\<close> (the source's \<open>continue\<close>), \<open>Return\<close> or \<open>Panic\<close> (the
    out-of-range index \<open>c.minutes[0]\<close>). The \<open>for {}\<close> loop is the
    \<open>partial_function (option)\<close> \<open>nextrun_loop\<close>, where \<open>None\<close> means the call never
    returns; no fuel bound is imposed, so non-termination is proved as such.
  \<^item> \<open>Agent_Loop\<close>: the agent's report loop, \<open>workerSendReports\<close>
    (src/cmd/tgsmctl/worker-send.go) and the Windows service's \<open>Execute\<close>
    (src/win/service.go), as functions over the sequence of events that wake them;
    both take the timer step \<open>agent_fire\<close>, the interface through which they call
    \<open>NextRun\<close>. Proved: the state invariant \<open>agent_inv\<close> (consecutive report times
    are consecutive runs of the schedule), absence of panics, progress when the
    schedule always has a next run, and that the service refines the worker.
  \<^item> \<open>Tele_Message\<close>: \<open>sendMessage\<close> and \<open>TgSendWorker\<close> (src/internal/api/tele.go):
    the splitting of a message into parts of at most 3000 runes, proved to lose only
    the cut spaces and to respect the bound, and the send loop.
  \<^item> \<open>Server_Reports\<close>: the report records (src/win/smartdata.go), the HTTP handler
    \<open>handleSmartReport\<close> (src/internal/api/http.go), the prompt choice of the LLM
    describer (src/internal/llmdesc/llm.go) and the report worker
    \<open>workerRecvReports\<close> (src/cmd/tgsmctl/worker-recv.go) with its data directory as
    a store from file names to device records.
  \<^item> \<open>Disk_Scan\<close>: the agent's diagnostics (src/internal/disk/smartctl.go and its
    Windows twin src/win/smartctl.go, whose \<open>getSmartDevices\<close> is the same code):
    parsing of the \<open>smartctl --scan-open\<close> listing (\<open>get_smart_devices\<close>, via the
    Go string functions \<open>strings.Cut\<close>, \<open>TrimSpace\<close>, \<open>Fields\<close>, \<open>Trim\<close> of
    \<open>Go_Lib\<close>), the \<open>smartctl\<close> arguments, the filtering of \<open>/proc/mounts\<close>
    (\<open>get_mount_paths\<close>) and the assembly of the report
    (\<open>smart_report_on_all_devices\<close>, \<open>win_smart_report\<close>). The results of the
    commands are parameters (\<open>cmd_result\<close>: output, or error and output). Proved: the
    listing a well-behaved \<open>smartctl\<close> prints parses back to its devices, and the mount
    filter's prefix test also takes other disks' partitions.
  \<^item> \<open>Win_Install\<close>: \<open>copyDir\<close> and \<open>copyFile\<close> (src/win/savefs.go) over the
    embedded smartmontools tree (\<open>emb_node\<close>, a nested datatype) into a disk, a store
    from path component lists to directories and files, with \<open>os.MkdirAll\<close> and
    \<open>os.Create\<close> modelled on that store. Proved: copying into a fresh destination
    succeeds and mirrors the embedded tree there, leaving every other path unchanged.
  \<^item> \<open>Win_Service\<close>: the \<open>smartService\<close> struct, \<open>collectAndSaveSMARTData\<close>
    (src/win/service.go) and \<open>sendReport\<close> (src/win/sendreport.go), with its four
    error returns as \<open>send_error\<close>; \<open>collector\<close> is the server as the agent's HTTP peer
    (\<open>NewHttpServer\<close>'s route to \<open>handleSmartReport\<close>, src/internal/api/http.go),
    the Authorization value reaching the handler as net/http delivers it, with
    surrounding white space removed (\<open>header_transport\<close>);
    the command lines of the Windows \<open>smartctl.exe\<close> calls (src/win/smartctl.go); and
    \<open>logEvent\<close> / \<open>logErrorf\<close> (src/win/log.go) as appends to the event log, when
    open, and to the standard log.
  \<^item> \<open>Bootstrap\<close>: the two \<open>main\<close> functions. \<open>linux_main\<close>
    (src/cmd/tgsmctl/main.go) reads the environment, parses \<open>MODE\<close> with
    \<open>strings.EqualFold\<close> and \<open>TrimSpace\<close> (\<open>mode_flags\<close>), defaults and parses the
    schedule and returns the workers it starts or its fatal error; \<open>win_main\<close>
    (src/win/main.go) installs smartmontools with \<open>copy_dir\<close>, reads settings.ini and
    parses the schedule into the service object. Proved with \<open>Win_Install\<close>: after
    a successful start the service's \<open>smartctl\<close> commands execute exactly the
    \<open>smartctl.exe\<close> embedded in the program.
  \<^item> \<open>Llm_Describer\<close>: \<open>NewLLMDescriber\<close>, the two system prompts (as the
    source's bytes), the messages and the chat request \<open>Describe\<close> builds
    (src/internal/llmdesc/llm.go); \<open>describe_with\<close> is \<open>Describe\<close> with the chat
    completion call on that request, refining the prompt-level \<open>describe\<close> of
    \<open>Server_Reports\<close>.
  \<^item> this theory: the header and the properties that span components: the parser with
    the evaluator, the agent's report with the server's handler, and the Windows
    agent's post through \<open>sendReport\<close> to the collector.

  The components meet at typed interfaces: the agent calls \<open>next_run\<close> on a schedule
  built by \<open>new_cron_schedule_from_string\<close>; the HTTP handler's output list is what the
  report worker consumes (\<open>smart_report\<close>), which is the record the agent's
  \<open>smart_report_on_all_devices\<close> builds, and the worker's queued \<open>tg_message\<close>s are
  what \<open>TgSendWorker\<close> sends. The agent's side of HTTP is \<open>send_report\<close>, whose
  round trip is a parameter; plugging in \<open>collector\<close> closes the loop from the Windows
  agent to the server's handler. \<open>main\<close> hands \<open>agent_conf\<close> (a schedule built by
  the cron parser) to the agent loop and \<open>server_conf\<close> to the server workers; on
  Windows it hands the \<open>smart_service\<close> record to the service loop. Effects are parameters: \<open>json.Unmarshal\<close>, the LLM
  completion and the Telegram send are functions given to the model, and waiting on
  timers and channels is the order of the events of a run.

  \<^bold>\<open>What is proved.\<close> The evaluator's contract: on a well-formed schedule with a
  non-empty minute set, \<open>NextRun\<close> returns exactly the earliest matching valid time
  after the reference time (\<open>Cron_NextRun.next_run_correct\<close>); it terminates whenever
  such a time exists, by a lexicographic variant on (year, month, day, hour, minute)
  bounded by that time; it runs forever when none exists (day 31 of February); it
  never panics when minutes are non-empty. The proof goes stage by stage: each exit of
  the loop body (\<open>step_ok\<close>) either moves the cursor forward without skipping a matching
  time or returns a matching time with none skipped, and the lemmas \<open>month_skip_ok\<close>,
  \<open>day_end_ok\<close>, \<open>no_match_within_day\<close> and \<open>return_ok\<close> cover the four kinds of jump.
  Properties spanning parser and evaluator are below: an empty minute field (accepted
  by \<open>NewCronSchedule\<close>) makes \<open>NextRun\<close> panic, an empty hour field (which a double
  space in the expression string produces) makes it loop forever.

  The agent, relay and server theories add the properties listed in their own headers;
  they found that a non-numeric Telegram chat id silently sends to chat 0, that record
  files of different devices can collide, that a device without mount points costs two
  LLM calls, that an empty completion crashes the server, and that the agent reports
  once at start-up before consulting its schedule; the diagnostics theory found that a
  disk's mount points include those of every disk whose name extends its name, and
  the properties below show that an agent without \<open>SMART_HOSTNAME\<close> has every report
  refused and that a Windows agent's post succeeds exactly when its token and host name
  are right; because net/http strips the trailing space of \<open>Bearer \<close>, a server
  with an empty \<open>HTTP_AUTH_TOKEN\<close> (the Windows agent's default token is empty too)
  refuses every report. The start-up theory found that the Windows service cannot start without
  settings.ini (its empty schedule is rejected, while Linux has a default) and that an
  invalid agent schedule also stops a server running in the same process.

  \<^bold>\<open>Bounds and fuel.\<close> No fuel is used: \<open>NextRun\<close>'s loop is a partial function
  whose termination is proved from the existence of a later matching time; the other
  loops are structural recursions over lists (events, parts, devices, output lines,
  modes), \<open>copyDir\<close> is a structural recursion over the embedded tree, \<open>os.MkdirAll\<close>
  terminates by the length of the path, and the message splitting by the length of
  the remaining runes.

  \<^bold>\<open>Not modelled.\<close> Time zones, seconds and daylight-saving gaps (the cursor is the
  civil time of the reference time's location, truncated to the minute as \<open>NextRun\<close>
  does; \<open>time.Date\<close>'s normalisation of a time inside a DST gap is not modelled); the
  HTTP transport (listening socket, timeouts, JSON encoding), the Linux agent's
  \<open>api.SendReport\<close> (called by worker-send.go but not part of src/), the Telegram bot,
  the LLM client's network call, the execution of \<open>smartctl\<close> and \<open>cat\<close> (their
  outputs are parameters), the server's file I/O failures, the Linux programs' logging
  through \<open>slog\<close> (no state depends on it), the signal context and wait group of
  \<open>main\<close>, the Windows service manager, and settings.ini parsing by
  package ini (its result is the parameter \<open>settings_file\<close>). On an error \<open>copyDir\<close>
  returns only the error: the files already written are not part of the model, as
  \<open>main\<close> then ends the process.
\<close>

text \<open>
  C5: an empty minute field is accepted by \<open>NewCronSchedule\<close> (an empty field parses to
  the empty list, cron.go 202-204), and \<open>NextRun\<close> on that schedule panics with an
  index out of range at \<open>c.minutes[0]\<close> (cron.go 155) instead of searching forever.
\<close>

lemma empty_minute_field_panics:
  "new_cron_schedule '''' ''*'' ''*'' ''*'' ''*'' =
     Inr \<lparr>minutes = [], hours = [0..23], days = [1..31], months = [1..12], weekDays = [0..6]\<rparr> \<and>
   next_run \<lparr>minutes = [], hours = [0..23], days = [1..31], months = [1..12], weekDays = [0..6]\<rparr>
     (mk_cursor 2025 1 1 12 0) = Some (Inl IndexOutOfRange)"
  by code_simp

lemma hours_empty_no_match:
  "hours c = [] \<Longrightarrow> \<not> matches c t"
  by (simp add: matches_def)

text \<open>
  C6: \<open>NewCronScheduleFromString\<close> splits on single spaces, so a doubled space yields an
  empty hour field, which is accepted; \<open>NextRun\<close> on the resulting schedule never returns.
\<close>

lemma empty_hour_field_hangs:
  "new_cron_schedule_from_string ''0  * * *'' =
     Inr \<lparr>minutes = [0], hours = [], days = [1..31], months = [1..12], weekDays = [0..6]\<rparr> \<and>
   next_run \<lparr>minutes = [0], hours = [], days = [1..31], months = [1..12], weekDays = [0..6]\<rparr>
     (mk_cursor 2025 1 1 12 0) = None"
proof
  show "new_cron_schedule_from_string ''0  * * *'' =
     Inr \<lparr>minutes = [0], hours = [], days = [1..31], months = [1..12], weekDays = [0..6]\<rparr>"
    by code_simp
  let ?c = "\<lparr>minutes = [0::int], hours = [], days = [1..31], months = [1..12], weekDays = [0..6]\<rparr>"
  have w: "wf_schedule ?c" by code_simp
  have v: "valid_time (mk_cursor 2025 1 1 12 0)" by (simp add: valid_time_def days_in_month_def)
  show "next_run ?c (mk_cursor 2025 1 1 12 0) = None"
    using next_run_None_iff [OF w v] hours_empty_no_match [of ?c] by simp
qed

lemma handler_on_agent_report:
  "timestamp report \<noteq> 0 \<Longrightarrow> os report \<noteq> [] \<Longrightarrow>
   handle_smart_report (\<lambda>b. Some report) token \<lparr>auth_header = ''Bearer '' @ token, req_body = Some body\<rparr> =
   (if hostname report = [] then (HttpError 400 ''Missing required fields'', []) else (HttpOk, [report]))"
  by (simp add: handle_smart_report_def)

text \<open>
  C31: the agent and the server agree on a report only when the agent has a host name:
  a report built by \<open>SmartReportOnAllDevices\<close> (Linux) or \<open>smartReportOnAllDevices\<close>
  (Windows) with a non-zero timestamp, posted with the right token and decoded as sent,
  is accepted by \<open>handleSmartReport\<close> exactly when \<open>SMART_HOSTNAME\<close> is non-empty;
  otherwise every report is refused with 400 and the agent only logs the error.
\<close>

lemma agent_report_accepted_iff_hostname:
  "ts \<noteq> 0 \<Longrightarrow>
   handle_smart_report (\<lambda>b. Some (smart_report_on_all_devices host ts scan run mounts)) token
     \<lparr>auth_header = ''Bearer '' @ token, req_body = Some body\<rparr> =
   (if host = [] then (HttpError 400 ''Missing required fields'', [])
    else (HttpOk, [smart_report_on_all_devices host ts scan run mounts])) \<and>
   handle_smart_report (\<lambda>b. Some (win_smart_report host ts scan run)) token
     \<lparr>auth_header = ''Bearer '' @ token, req_body = Some body\<rparr> =
   (if host = [] then (HttpError 400 ''Missing required fields'', [])
    else (HttpOk, [win_smart_report host ts scan run]))"
  using handler_on_agent_report [of "smart_report_on_all_devices host ts scan run mounts"]
    handler_on_agent_report [of "win_smart_report host ts scan run"]
  by (simp add: smart_report_fields win_smart_report_fields)

lemma agent_report_accepted_iff_hostname_witness:
  "(1::int) \<noteq> 0 \<and>
   handle_smart_report (\<lambda>b. Some (smart_report_on_all_devices [] 1 (CmdOk []) (\<lambda>a. CmdOk []) (\<lambda>n. CmdOk []))) ''t''
     \<lparr>auth_header = ''Bearer t'', req_body = Some ''{}''\<rparr> = (HttpError 400 ''Missing required fields'', [])"
  using agent_report_accepted_iff_hostname [of 1 "[]" "CmdOk []" "\<lambda>a. CmdOk []" "\<lambda>n. CmdOk []" "''t''" "''{}''"]
  by simp



end
